(* ===== verification/Shiro_Prelude.thy ===== *)
theory Shiro_Prelude
  imports Main "HOL-Library.AList" "HOL-Library.Multiset"
begin

text \<open>
  Shared vocabulary of the development: Go's time and duration values, 64-bit wrap-around,
  Go errors, results of calls that may fail, and the generic facts on lists, options and
  association lists that the components use.

  Times are nanoseconds since the Unix epoch and durations are nanoseconds, both as \<open>int\<close>.
  Where the source multiplies or doubles a duration, the product is wrapped to the 64 bits of
  Go's \<open>int64\<close> by \<open>i64\<close>.
\<close>

section \<open>Types\<close>

type_synonym time = int
type_synonym duration = int

text \<open>A Go \<open>error\<close> value: gocql's sentinel, which the source tests with \<open>errors.Is\<close>, the
  error of a finished context, or any other error by its message.\<close>

datatype goerr = ErrNotFound | CtxDone | ErrMsg string

text \<open>The text of \<open>err.Error()\<close>.\<close>

fun err_string :: "goerr \<Rightarrow> string" where
  "err_string ErrNotFound = ''not found''"
| "err_string CtxDone = ''context deadline exceeded''"
| "err_string (ErrMsg m) = m"

text \<open>A call that may fail and that changes the world \<open>'w\<close> it runs in.\<close>

type_synonym ('a, 'w) call = "'w \<Rightarrow> (goerr + 'a) \<times> 'w"

named_theorems op_defs \<open>definitions of operations, for unfolding one level of the model\<close>
named_theorems inv_intros \<open>preservation facts of component invariants\<close>

section \<open>Durations and machine integers\<close>

abbreviation millisecond :: duration where "millisecond \<equiv> 1000000"
abbreviation second :: duration where "second \<equiv> 1000000000"
abbreviation minute :: duration where "minute \<equiv> 60000000000"

text \<open>The zero \<open>time.Time\<close>: 1 January of year 1, UTC.\<close>

definition zero_time :: time where
  "zero_time = - 62135596800 * 1000000000"

definition isZero :: "time \<Rightarrow> bool" where
  "isZero t \<longleftrightarrow> t = zero_time"

text \<open>Two's complement wrap-around of a 64-bit signed integer.\<close>

definition i64 :: "int \<Rightarrow> int" where
  "i64 x = (x + 2 ^ 63) mod 2 ^ 64 - 2 ^ 63"

lemma i64_id: "- (2 ^ 63) \<le> x \<Longrightarrow> x < 2 ^ 63 \<Longrightarrow> i64 x = x"
  by (simp add: i64_def)

lemma i64_range: "- (2 ^ 63) \<le> i64 x \<and> i64 x < 2 ^ 63"
proof -
  have "0 \<le> (x + 2 ^ 63) mod 2 ^ 64" and "(x + 2 ^ 63) mod 2 ^ 64 < (2::int) ^ 64"
    by (simp_all del: power_numeral)
  then show ?thesis unfolding i64_def by simp
qed

text \<open>Go's integer division truncates towards zero.\<close>

definition quot :: "int \<Rightarrow> int \<Rightarrow> int" where
  "quot a b = sgn a * sgn b * (\<bar>a\<bar> div \<bar>b\<bar>)"

lemma quot_nonneg: "0 \<le> a \<Longrightarrow> 0 < b \<Longrightarrow> quot a b = a div b"
  by (cases "a = 0") (simp_all add: quot_def)

text \<open>The two-argument \<open>max\<close> of \<^verbatim>\<open>internal/core/app.go\<close>.\<close>

definition max_go :: "int \<Rightarrow> int \<Rightarrow> int" where
  "max_go a b = (if a > b then a else b)"

lemma max_go_max [simp]: "max_go a b = max a b"
  by (simp add: max_go_def max_def)

section \<open>Lists and association lists\<close>

lemma length_update_new:
  "k \<notin> fst ` set al \<Longrightarrow> length (AList.update k v al) = Suc (length al)"
  by (induction al) auto

lemma length_update_old:
  "k \<in> fst ` set al \<Longrightarrow> length (AList.update k v al) = length al"
  by (induction al) auto

lemma length_delete_present:
  "distinct (map fst al) \<Longrightarrow> k \<in> fst ` set al \<Longrightarrow> Suc (length (AList.delete k al)) = length al"
proof (induction al)
  case Nil
  then show ?case by simp
next
  case (Cons p al)
  show ?case
  proof (cases "fst p = k")
    case True
    with Cons.prems have "k \<notin> fst ` set al" by auto
    then have "AList.delete k al = al"
      by (simp add: AList.delete_eq filter_id_conv) force
    with True show ?thesis by (cases p) simp
  next
    case False
    with Cons.prems have "k \<in> fst ` set al" by auto
    with Cons False show ?thesis by (cases p) simp
  qed
qed

lemma length_delete_le: "length (AList.delete k al) \<le> length al"
  by (simp add: AList.delete_eq)

lemma map_of_filter_distinct:
  "distinct (map fst al) \<Longrightarrow>
   map_of (filter P al) k = (case map_of al k of None \<Rightarrow> None | Some v \<Rightarrow> if P (k, v) then Some v else None)"
proof (induction al)
  case Nil
  then show ?case by simp
next
  case (Cons p al)
  then have IH: "map_of (filter P al) k =
      (case map_of al k of None \<Rightarrow> None | Some v \<Rightarrow> if P (k, v) then Some v else None)"
    and notin: "fst p \<notin> fst ` set al" by simp_all
  show ?case
  proof (cases "fst p = k")
    case True
    with notin have "map_of al k = None" by (simp add: map_of_eq_None_iff)
    with True IH show ?thesis by (cases p) auto
  next
    case False
    with IH show ?thesis by (cases p) auto
  qed
qed

lemma distinct_keys_filter: "distinct (map fst al) \<Longrightarrow> distinct (map fst (filter P al))"
  by (induction al) auto

lemma sorted_wrt_take_same: "sorted_wrt P xs \<Longrightarrow> sorted_wrt P (take n xs)"
  by (metis append_take_drop_id sorted_wrt_append)

end
