(* ===== verification/Contracts.thy ===== *)
theory Contracts
  imports Shiro_Prelude
begin

text \<open>
  The shared data of \<^verbatim>\<open>internal/modules/contracts.go\<close> (\<open>EventRecord\<close>, \<open>AppendResult\<close>,
  \<open>BusMessage\<close>) and its Go interfaces as records of operations over a world \<open>'w\<close>. A Go method
  \<open>(T, error)\<close> is a \<open>call\<close>; a method that returns values beside its error returns them as a
  tuple with an optional error.
\<close>

record EventRecord =
  evID :: string
  evIdempotencyKey :: string
  evStream :: string
  evSubject :: string
  evType :: string
  evPayload :: string
  evOccurredAt :: time
  evRetryCount :: int
  evLastError :: string
  evQuarantinedAt :: time

text \<open>A composite literal leaves the fields it does not name at their zero values.\<close>

definition zeroEvent :: EventRecord where
  "zeroEvent = \<lparr>evID = [], evIdempotencyKey = [], evStream = [], evSubject = [], evType = [],
     evPayload = [], evOccurredAt = zero_time, evRetryCount = 0, evLastError = [],
     evQuarantinedAt = zero_time\<rparr>"

record AppendResult =
  arEvent :: EventRecord
  arDuplicate :: bool
  arPublished :: bool

record BusMessage =
  bmSubject :: string
  bmMessageID :: string
  bmData :: string
  bmReceivedAt :: time

record 'w EventBus =
  busPublishOp :: "string \<Rightarrow> string \<Rightarrow> string \<Rightarrow> (string, 'w) call"
  busSubscribeOp :: "string \<Rightarrow> (unit, 'w) call"

record 'w Coordinator =
  coordIsLeader :: "'w \<Rightarrow> bool"
  coordLeaderID :: "'w \<Rightarrow> string"

record 'w EventStore =
  storeAppendOp :: "EventRecord \<Rightarrow> (AppendResult, 'w) call"
  storeMarkOp :: "string \<Rightarrow> string \<Rightarrow> (unit, 'w) call"
  storePendingOp :: "int \<Rightarrow> (EventRecord list, 'w) call"
  storeClaimInboxOp :: "string \<Rightarrow> string \<Rightarrow> (bool, 'w) call"
  storeRecentOp :: "string \<Rightarrow> int \<Rightarrow> (EventRecord list, 'w) call"

text \<open>The operations \<open>AdvancedEventStore\<close> adds to \<open>EventStore\<close>. The type assertion
  \<open>a.store.(modules.AdvancedEventStore)\<close> succeeds exactly when a store carries them.\<close>

record 'w AdvancedOps =
  storeLeaseOp :: "string \<Rightarrow> string \<Rightarrow> duration \<Rightarrow> (bool, 'w) call"
  storeFailureOp :: "string \<Rightarrow> string \<Rightarrow> duration \<Rightarrow> duration \<Rightarrow> int \<Rightarrow> int \<Rightarrow> 'w \<Rightarrow>
     (bool \<times> int \<times> goerr option) \<times> 'w"
  storeListDLOp :: "int \<Rightarrow> (EventRecord list, 'w) call"
  storeReplayOp :: "string \<Rightarrow> (unit, 'w) call"
  storeCleanupOp :: "time \<Rightarrow> time \<Rightarrow> int \<Rightarrow> 'w \<Rightarrow> (int \<times> int \<times> goerr option) \<times> 'w"

record 'w Module =
  moduleName :: string
  moduleStart :: "(unit, 'w) call"
  moduleReady :: "(unit, 'w) call"
  moduleStop :: "(unit, 'w) call"

end
