(* ===== verification/Cql.thy ===== *)
theory Cql
  imports Contracts
begin

text \<open>
  The boundary between \<^verbatim>\<open>internal/modules/cassstore/module.go\<close> and Cassandra. The tables are
  those of the DDL in \<open>Start\<close>, the statements those the module sends. What executes them (gocql
  and the cluster) is a parameter: a \<open>session\<close> record of operations over a world \<open>'w\<close>. The
  hypothesis \<open>cql_ok S view\<close> states the documented behaviour the module relies on, through a
  function \<open>view\<close> that reads the tables out of the world:
  \<^item> a write that reports success has been applied, and one that reports an error (a timeout,
    say) has been applied or not; a logged batch is applied as a whole or not at all;
  \<^item> \<open>INSERT\<close> and \<open>UPDATE\<close> are upserts that leave the columns they do not name alone, and
    \<open>DELETE\<close> removes the row of a primary key;
  \<^item> a lightweight transaction is applied exactly when its condition holds;
  \<^item> a \<open>SELECT\<close> reads the tables without changing them, in clustering order;
  \<^item> timestamps are kept to the millisecond;
  \<^item> \<open>TimeUUID\<close> returns an identifier not in use, and printing and parsing one are inverse.
\<close>

section \<open>Tables\<close>

type_synonym uuid = nat

text \<open>The four text columns \<open>stream\<close>, \<open>subject\<close>, \<open>event_type\<close>, \<open>payload\<close> that several tables share.\<close>

record msg =
  m_stream :: string
  m_subject :: string
  m_type :: string
  m_payload :: string

text \<open>Rows of the tables that are updated column by column; \<open>None\<close> is a null column.\<close>

record outbox_row =
  ob_msg :: "msg option"
  ob_occurred :: "time option"
  ob_state :: "string option"
  ob_published_at :: "time option"
  ob_broker :: "string option"

record retry_row =
  rt_count :: "int option"
  rt_next :: "time option"
  rt_error :: "string option"
  rt_owner :: "string option"
  rt_lease :: "time option"
  rt_quarantined :: "bool option"
  rt_quarantined_at :: "time option"
  rt_first_failed :: "time option"

text \<open>One field per table of the DDL, keyed by its primary key.\<close>

record tables =
  events_by_stream :: "string \<times> time \<times> uuid \<rightharpoonup> string \<times> string \<times> string"
  events_by_id :: "uuid \<rightharpoonup> time \<times> msg"
  idempotency_keys :: "string \<times> string \<rightharpoonup> uuid \<times> string \<times> time"
  idempotency_by_created :: "string \<times> time \<times> string \<times> string \<rightharpoonup> uuid"
  outbox_events :: "uuid \<rightharpoonup> outbox_row"
  outbox_retry_state :: "uuid \<rightharpoonup> retry_row"
  outbox_by_state :: "string \<times> time \<times> uuid \<rightharpoonup> msg"
  inbox_consumed :: "string \<times> string \<rightharpoonup> time"
  dead_letters_by_time :: "string \<times> time \<times> uuid \<rightharpoonup> msg \<times> int \<times> string"
  dead_letters_by_id :: "uuid \<rightharpoonup> time \<times> msg \<times> int \<times> string"

definition empty_tables :: tables where
  "empty_tables = \<lparr>events_by_stream = Map.empty, events_by_id = Map.empty,
     idempotency_keys = Map.empty, idempotency_by_created = Map.empty,
     outbox_events = Map.empty, outbox_retry_state = Map.empty, outbox_by_state = Map.empty,
     inbox_consumed = Map.empty, dead_letters_by_time = Map.empty, dead_letters_by_id = Map.empty\<rparr>"

definition null_outbox :: outbox_row where
  "null_outbox = \<lparr>ob_msg = None, ob_occurred = None, ob_state = None, ob_published_at = None,
     ob_broker = None\<rparr>"

definition null_retry :: retry_row where
  "null_retry = \<lparr>rt_count = None, rt_next = None, rt_error = None, rt_owner = None, rt_lease = None,
     rt_quarantined = None, rt_quarantined_at = None, rt_first_failed = None\<rparr>"

text \<open>The row an upsert starts from.\<close>

definition row_or :: "'r \<Rightarrow> 'r option \<Rightarrow> 'r" where
  "row_or d r = (case r of None \<Rightarrow> d | Some x \<Rightarrow> x)"

lemma row_or_simps [simp]: "row_or d None = d" "row_or d (Some x) = x"
  by (simp_all add: row_or_def)

text \<open>A \<open>timestamp\<close> column holds milliseconds.\<close>

definition cql_ts :: "time \<Rightarrow> time" where
  "cql_ts t = t div millisecond * millisecond"

lemma cql_ts_idem [simp]: "cql_ts (cql_ts t) = cql_ts t"
  by (simp add: cql_ts_def)

lemma cql_ts_le: "cql_ts t \<le> t"
  by (simp add: cql_ts_def minus_mod_eq_div_mult[symmetric])

lemma cql_ts_gt: "t - millisecond < cql_ts t"
  by (simp add: cql_ts_def minus_mod_eq_div_mult[symmetric])

lemma cql_ts_mono: "s \<le> t \<Longrightarrow> cql_ts s \<le> cql_ts t"
  by (simp add: cql_ts_def zdiv_mono1)

lemma cql_ts_0 [simp]: "cql_ts 0 = 0"
  by (simp add: cql_ts_def)

section \<open>Statements\<close>

text \<open>The modification statements of the module, with their bound values. Names follow the
  table and, where a table has several, the operation that sends the statement.\<close>

datatype cql =
    InsEventsByStream string time uuid string string string
  | InsEventsById uuid time msg
  | InsIdemByCreated string time string string uuid
  | InsOutbox uuid msg time string
  | UpdOutboxPublished string time string uuid
  | InsByState string time uuid msg
  | DelByState string time uuid
  | InsRetry uuid int time string string time bool
  | UpdRetryFailure int time string string time bool time time uuid
  | UpdRetryReplay bool time int time string string time uuid
  | DelRetry uuid
  | InsDLByTime string time uuid msg int string
  | InsDLById uuid time msg int string
  | DelDLByTime string time uuid
  | DelDLById uuid
  | DelIdemKey string string
  | DelIdemByCreated string time string string

text \<open>The table a statement writes.\<close>

datatype table_name = T_events_by_stream | T_events_by_id | T_idempotency_keys
  | T_idempotency_by_created | T_outbox_events | T_outbox_retry_state | T_outbox_by_state
  | T_dead_letters_by_time | T_dead_letters_by_id

fun cql_table :: "cql \<Rightarrow> table_name" where
  "cql_table (InsEventsByStream _ _ _ _ _ _) = T_events_by_stream"
| "cql_table (InsEventsById _ _ _) = T_events_by_id"
| "cql_table (InsIdemByCreated _ _ _ _ _) = T_idempotency_by_created"
| "cql_table (InsOutbox _ _ _ _) = T_outbox_events"
| "cql_table (UpdOutboxPublished _ _ _ _) = T_outbox_events"
| "cql_table (InsByState _ _ _ _) = T_outbox_by_state"
| "cql_table (DelByState _ _ _) = T_outbox_by_state"
| "cql_table (InsRetry _ _ _ _ _ _ _) = T_outbox_retry_state"
| "cql_table (UpdRetryFailure _ _ _ _ _ _ _ _ _) = T_outbox_retry_state"
| "cql_table (UpdRetryReplay _ _ _ _ _ _ _ _) = T_outbox_retry_state"
| "cql_table (DelRetry _) = T_outbox_retry_state"
| "cql_table (InsDLByTime _ _ _ _ _ _) = T_dead_letters_by_time"
| "cql_table (InsDLById _ _ _ _ _) = T_dead_letters_by_id"
| "cql_table (DelDLByTime _ _ _) = T_dead_letters_by_time"
| "cql_table (DelDLById _) = T_dead_letters_by_id"
| "cql_table (DelIdemKey _ _) = T_idempotency_keys"
| "cql_table (DelIdemByCreated _ _ _ _) = T_idempotency_by_created"

text \<open>The documented effect of a statement on the tables.\<close>

fun apply_cql :: "cql \<Rightarrow> tables \<Rightarrow> tables" where
  "apply_cql (InsEventsByStream s t i sub ty p) v =
     v\<lparr>events_by_stream := (events_by_stream v)((s, cql_ts t, i) \<mapsto> (sub, ty, p))\<rparr>"
| "apply_cql (InsEventsById i t m) v =
     v\<lparr>events_by_id := (events_by_id v)(i \<mapsto> (cql_ts t, m))\<rparr>"
| "apply_cql (InsIdemByCreated b t s k i) v =
     v\<lparr>idempotency_by_created := (idempotency_by_created v)((b, cql_ts t, s, k) \<mapsto> i)\<rparr>"
| "apply_cql (InsOutbox i m t st) v =
     v\<lparr>outbox_events := (outbox_events v)(i \<mapsto>
        (row_or null_outbox (outbox_events v i))
          \<lparr>ob_msg := Some m, ob_occurred := Some (cql_ts t), ob_state := Some st\<rparr>)\<rparr>"
| "apply_cql (UpdOutboxPublished st t br i) v =
     v\<lparr>outbox_events := (outbox_events v)(i \<mapsto>
        (row_or null_outbox (outbox_events v i))
          \<lparr>ob_state := Some st, ob_published_at := Some (cql_ts t), ob_broker := Some br\<rparr>)\<rparr>"
| "apply_cql (InsByState st t i m) v =
     v\<lparr>outbox_by_state := (outbox_by_state v)((st, cql_ts t, i) \<mapsto> m)\<rparr>"
| "apply_cql (DelByState st t i) v =
     v\<lparr>outbox_by_state := (outbox_by_state v)((st, cql_ts t, i) := None)\<rparr>"
| "apply_cql (InsRetry i n nx e ow le q) v =
     v\<lparr>outbox_retry_state := (outbox_retry_state v)(i \<mapsto>
        (row_or null_retry (outbox_retry_state v i))
          \<lparr>rt_count := Some n, rt_next := Some (cql_ts nx), rt_error := Some e, rt_owner := Some ow,
           rt_lease := Some (cql_ts le), rt_quarantined := Some q\<rparr>)\<rparr>"
| "apply_cql (UpdRetryFailure n nx e ow le q qa ff i) v =
     v\<lparr>outbox_retry_state := (outbox_retry_state v)(i \<mapsto>
        (row_or null_retry (outbox_retry_state v i))
          \<lparr>rt_count := Some n, rt_next := Some (cql_ts nx), rt_error := Some e, rt_owner := Some ow,
           rt_lease := Some (cql_ts le), rt_quarantined := Some q,
           rt_quarantined_at := Some (cql_ts qa), rt_first_failed := Some (cql_ts ff)\<rparr>)\<rparr>"
| "apply_cql (UpdRetryReplay q qa n nx e ow le i) v =
     v\<lparr>outbox_retry_state := (outbox_retry_state v)(i \<mapsto>
        (row_or null_retry (outbox_retry_state v i))
          \<lparr>rt_quarantined := Some q, rt_quarantined_at := Some (cql_ts qa), rt_count := Some n,
           rt_next := Some (cql_ts nx), rt_error := Some e, rt_owner := Some ow,
           rt_lease := Some (cql_ts le)\<rparr>)\<rparr>"
| "apply_cql (DelRetry i) v = v\<lparr>outbox_retry_state := (outbox_retry_state v)(i := None)\<rparr>"
| "apply_cql (InsDLByTime b t i m n e) v =
     v\<lparr>dead_letters_by_time := (dead_letters_by_time v)((b, cql_ts t, i) \<mapsto> (m, n, e))\<rparr>"
| "apply_cql (InsDLById i t m n e) v =
     v\<lparr>dead_letters_by_id := (dead_letters_by_id v)(i \<mapsto> (cql_ts t, m, n, e))\<rparr>"
| "apply_cql (DelDLByTime b t i) v =
     v\<lparr>dead_letters_by_time := (dead_letters_by_time v)((b, cql_ts t, i) := None)\<rparr>"
| "apply_cql (DelDLById i) v = v\<lparr>dead_letters_by_id := (dead_letters_by_id v)(i := None)\<rparr>"
| "apply_cql (DelIdemKey s k) v =
     v\<lparr>idempotency_keys := (idempotency_keys v)((s, k) := None)\<rparr>"
| "apply_cql (DelIdemByCreated b t s k) v =
     v\<lparr>idempotency_by_created := (idempotency_by_created v)((b, cql_ts t, s, k) := None)\<rparr>"

section \<open>Sessions\<close>

text \<open>The operations the module calls on gocql, on the clock and on the random source. The
  \<open>cas\<close> operations are \<open>ScanCAS\<close>; their last number is how many destinations the source passes.\<close>

record 'w session =
  time_Now :: "'w \<Rightarrow> time \<times> 'w"
  rand_Intn :: "int \<Rightarrow> 'w \<Rightarrow> int \<times> 'w"
  TimeUUID :: "'w \<Rightarrow> uuid \<times> 'w"
  ParseUUID :: "string \<Rightarrow> goerr + uuid"
  UUIDString :: "uuid \<Rightarrow> string"
  sha256Hex :: "string \<Rightarrow> string"
  qExec :: "cql \<Rightarrow> (unit, 'w) call"
  qBatch :: "cql list \<Rightarrow> (unit, 'w) call"
  casIdem :: "string \<Rightarrow> string \<Rightarrow> uuid \<Rightarrow> string \<Rightarrow> time \<Rightarrow> nat \<Rightarrow> (bool \<times> uuid, 'w) call"
  casInbox :: "string \<Rightarrow> string \<Rightarrow> time \<Rightarrow> nat \<Rightarrow> (bool, 'w) call"
  casLease :: "string \<Rightarrow> time \<Rightarrow> uuid \<Rightarrow> time \<Rightarrow> nat \<Rightarrow> (bool, 'w) call"
  selEventById :: "uuid \<Rightarrow> (time \<times> msg, 'w) call"
  selOutbox :: "uuid \<Rightarrow> (outbox_row, 'w) call"
  selRetry :: "uuid \<Rightarrow> (retry_row, 'w) call"
  selDeadLetter :: "uuid \<Rightarrow> (time \<times> msg \<times> int \<times> string, 'w) call"
  iterPending :: "string \<Rightarrow> int \<Rightarrow> 'w \<Rightarrow> ((time \<times> uuid \<times> msg) list \<times> goerr option) \<times> 'w"
  iterRecent :: "string \<Rightarrow> int \<Rightarrow> 'w \<Rightarrow>
    ((uuid \<times> time \<times> string \<times> string \<times> string) list \<times> goerr option) \<times> 'w"
  iterDead :: "string \<Rightarrow> int \<Rightarrow> 'w \<Rightarrow>
    ((time \<times> uuid \<times> msg \<times> int \<times> string) list \<times> goerr option) \<times> 'w"
  iterIdem :: "string \<Rightarrow> int \<Rightarrow> 'w \<Rightarrow> ((time \<times> string \<times> string) list \<times> goerr option) \<times> 'w"

text \<open>Null columns are scanned as the zero value of the destination.\<close>

definition scan_time :: "time option \<Rightarrow> time" where
  "scan_time c = (case c of None \<Rightarrow> zero_time | Some t \<Rightarrow> t)"

definition scan_int :: "int option \<Rightarrow> int" where
  "scan_int c = (case c of None \<Rightarrow> 0 | Some n \<Rightarrow> n)"

definition scan_bool :: "bool option \<Rightarrow> bool" where
  "scan_bool c = (case c of None \<Rightarrow> False | Some b \<Rightarrow> b)"

definition scan_text :: "string option \<Rightarrow> string" where
  "scan_text c = (case c of None \<Rightarrow> [] | Some s \<Rightarrow> s)"

definition scan_msg :: "msg option \<Rightarrow> msg" where
  "scan_msg c = (case c of None \<Rightarrow> \<lparr>m_stream = [], m_subject = [], m_type = [], m_payload = []\<rparr> | Some m \<Rightarrow> m)"

lemma scan_simps [simp]:
  "scan_time None = zero_time" "scan_time (Some t) = t"
  "scan_int None = 0" "scan_int (Some n) = n"
  "scan_bool None = False" "scan_bool (Some b) = b"
  "scan_text None = []" "scan_text (Some s) = s"
  "scan_msg (Some m) = m"
  by (simp_all add: scan_time_def scan_int_def scan_bool_def scan_text_def scan_msg_def)

section \<open>The documented behaviour of a session\<close>

text \<open>Identifiers that occur anywhere in the tables.\<close>

definition used_ids :: "tables \<Rightarrow> uuid set" where
  "used_ids v =
     dom (events_by_id v) \<union> dom (outbox_events v) \<union> dom (outbox_retry_state v) \<union>
     dom (dead_letters_by_id v) \<union> ran (idempotency_by_created v) \<union>
     {i. \<exists>s t. events_by_stream v (s, t, i) \<noteq> None} \<union>
     {i. \<exists>s t. outbox_by_state v (s, t, i) \<noteq> None} \<union>
     {i. \<exists>b t. dead_letters_by_time v (b, t, i) \<noteq> None} \<union>
     {i. \<exists>k r. idempotency_keys v k = Some (i, r)}"

text \<open>What a lightweight transaction writes when it is applied.\<close>

definition put_idem :: "string \<Rightarrow> string \<Rightarrow> uuid \<Rightarrow> string \<Rightarrow> time \<Rightarrow> tables \<Rightarrow> tables" where
  "put_idem s k i h t v = v\<lparr>idempotency_keys := (idempotency_keys v)((s, k) \<mapsto> (i, h, cql_ts t))\<rparr>"

definition put_inbox :: "string \<Rightarrow> string \<Rightarrow> time \<Rightarrow> tables \<Rightarrow> tables" where
  "put_inbox c m t v = v\<lparr>inbox_consumed := (inbox_consumed v)((c, m) \<mapsto> cql_ts t)\<rparr>"

definition put_lease :: "string \<Rightarrow> time \<Rightarrow> uuid \<Rightarrow> tables \<Rightarrow> tables" where
  "put_lease ow t i v = v\<lparr>outbox_retry_state := (outbox_retry_state v)(i \<mapsto>
     (row_or null_retry (outbox_retry_state v i))\<lparr>rt_owner := Some ow, rt_lease := Some (cql_ts t)\<rparr>)\<rparr>"

text \<open>\<open>IF lease_until < ?\<close>: a missing row or a null column does not satisfy it.\<close>

definition lease_before :: "tables \<Rightarrow> uuid \<Rightarrow> time \<Rightarrow> bool" where
  "lease_before v i t \<longleftrightarrow>
     (\<exists>r l. outbox_retry_state v i = Some r \<and> rt_lease r = Some l \<and> l < cql_ts t)"

text \<open>A call that leaves the tables alone.\<close>

definition reads :: "('w \<Rightarrow> tables) \<Rightarrow> ('w \<Rightarrow> 'a \<times> 'w) \<Rightarrow> bool" where
  "reads view f \<longleftrightarrow> (\<forall>w. view (snd (f w)) = view w)"

text \<open>A call that changes the tables by \<open>g\<close>: surely when it succeeds, perhaps when it fails.\<close>

definition writes :: "('w \<Rightarrow> tables) \<Rightarrow> (unit, 'w) call \<Rightarrow> (tables \<Rightarrow> tables) \<Rightarrow> bool" where
  "writes view f g \<longleftrightarrow>
     (\<forall>w. case fst (f w) of
        Inr _ \<Rightarrow> view (snd (f w)) = g (view w)
      | Inl _ \<Rightarrow> view (snd (f w)) = view w \<or> view (snd (f w)) = g (view w))"

text \<open>A lightweight transaction with condition \<open>P\<close> and effect \<open>g\<close>.\<close>

definition transacts ::
  "('w \<Rightarrow> tables) \<Rightarrow> ('a, 'w) call \<Rightarrow> ('a \<Rightarrow> bool) \<Rightarrow> (tables \<Rightarrow> bool) \<Rightarrow> (tables \<Rightarrow> tables) \<Rightarrow> bool" where
  "transacts view f applied P g \<longleftrightarrow>
     (\<forall>w. case fst (f w) of
        Inr a \<Rightarrow> (applied a \<longleftrightarrow> P (view w)) \<and> view (snd (f w)) = (if P (view w) then g (view w) else view w)
      | Inl _ \<Rightarrow> view (snd (f w)) = view w \<or> P (view w) \<and> view (snd (f w)) = g (view w))"

text \<open>A single-row \<open>SELECT\<close>: the row, \<open>ErrNotFound\<close> exactly when there is none, or another error.\<close>

definition selects :: "('w \<Rightarrow> tables) \<Rightarrow> ('a, 'w) call \<Rightarrow> (tables \<Rightarrow> 'a option) \<Rightarrow> bool" where
  "selects view f g \<longleftrightarrow> reads view f \<and>
     (\<forall>w. case fst (f w) of
        Inr a \<Rightarrow> g (view w) = Some a
      | Inl e \<Rightarrow> e = ErrNotFound \<longrightarrow> g (view w) = None)"

text \<open>\<open>SELECT ... LIMIT n\<close> over one partition, whose rows are the set \<open>R\<close>, in the order \<open>le\<close>: the
  first \<open>n\<close> rows, or fewer of them and the iterator's error.\<close>

definition scans ::
  "('w \<Rightarrow> tables) \<Rightarrow> ('w \<Rightarrow> ('r list \<times> goerr option) \<times> 'w) \<Rightarrow> int \<Rightarrow> (tables \<Rightarrow> 'r set) \<Rightarrow>
   ('r \<Rightarrow> 'r \<Rightarrow> bool) \<Rightarrow> bool" where
  "scans view f n R le \<longleftrightarrow> reads view f \<and>
     (\<forall>w. \<exists>L k. distinct L \<and> set L = R (view w) \<and> sorted_wrt le L \<and>
        fst (fst (f w)) = take k L \<and> k \<le> nat n \<and> (snd (fst (f w)) = None \<longrightarrow> k = nat n))"

definition pending_rows :: "string \<Rightarrow> tables \<Rightarrow> (time \<times> uuid \<times> msg) set" where
  "pending_rows st v = {(t, i, m). outbox_by_state v (st, t, i) = Some m}"

definition recent_rows :: "string \<Rightarrow> tables \<Rightarrow> (uuid \<times> time \<times> string \<times> string \<times> string) set" where
  "recent_rows s v = {(i, t, sub, ty, p). events_by_stream v (s, t, i) = Some (sub, ty, p)}"

definition dead_rows :: "string \<Rightarrow> tables \<Rightarrow> (time \<times> uuid \<times> msg \<times> int \<times> string) set" where
  "dead_rows b v = {(t, i, m, n, e). dead_letters_by_time v (b, t, i) = Some (m, n, e)}"

definition idem_rows :: "string \<Rightarrow> tables \<Rightarrow> (time \<times> string \<times> string) set" where
  "idem_rows b v = {(t, s, k). idempotency_by_created v (b, t, s, k) \<noteq> None}"

definition writes_ok :: "'w session \<Rightarrow> ('w \<Rightarrow> tables) \<Rightarrow> bool" where
  "writes_ok S view \<longleftrightarrow>
     (\<forall>c. writes view (qExec S c) (apply_cql c)) \<and>
     (\<forall>cs. distinct (map cql_table cs) \<longrightarrow> writes view (qBatch S cs) (fold apply_cql cs))"

definition cas_ok :: "'w session \<Rightarrow> ('w \<Rightarrow> tables) \<Rightarrow> bool" where
  "cas_ok S view \<longleftrightarrow>
     (\<forall>s k i h t n. transacts view (casIdem S s k i h t n) fst
        (\<lambda>v. idempotency_keys v (s, k) = None) (put_idem s k i h t)) \<and>
     (\<forall>s k i h t n w i' w'. casIdem S s k i h t n w = (Inr (False, i'), w') \<longrightarrow>
        (\<exists>r. idempotency_keys (view w) (s, k) = Some (i', r))) \<and>
     (\<forall>c m t n. transacts view (casInbox S c m t n) (\<lambda>b. b)
        (\<lambda>v. inbox_consumed v (c, m) = None) (put_inbox c m t)) \<and>
     (\<forall>ow t i now n. transacts view (casLease S ow t i now n) (\<lambda>b. b)
        (\<lambda>v. lease_before v i now) (put_lease ow t i))"

definition selects_ok :: "'w session \<Rightarrow> ('w \<Rightarrow> tables) \<Rightarrow> bool" where
  "selects_ok S view \<longleftrightarrow>
     (\<forall>i. selects view (selEventById S i) (\<lambda>v. events_by_id v i)) \<and>
     (\<forall>i. selects view (selOutbox S i) (\<lambda>v. outbox_events v i)) \<and>
     (\<forall>i. selects view (selRetry S i) (\<lambda>v. outbox_retry_state v i)) \<and>
     (\<forall>i. selects view (selDeadLetter S i) (\<lambda>v. dead_letters_by_id v i))"

definition scans_ok :: "'w session \<Rightarrow> ('w \<Rightarrow> tables) \<Rightarrow> bool" where
  "scans_ok S view \<longleftrightarrow>
     (\<forall>st n. scans view (iterPending S st n) n (pending_rows st) (\<lambda>a b. fst a \<le> fst b)) \<and>
     (\<forall>s n. scans view (iterRecent S s n) n (recent_rows s) (\<lambda>a b. fst (snd a) \<ge> fst (snd b))) \<and>
     (\<forall>b n. scans view (iterDead S b n) n (dead_rows b) (\<lambda>a b. fst a \<le> fst b)) \<and>
     (\<forall>b n. scans view (iterIdem S b n) n (idem_rows b) (\<lambda>a b. fst a \<le> fst b))"

definition sources_ok :: "'w session \<Rightarrow> ('w \<Rightarrow> tables) \<Rightarrow> bool" where
  "sources_ok S view \<longleftrightarrow>
     reads view (time_Now S) \<and>
     (\<forall>n. reads view (rand_Intn S n)) \<and>
     (\<forall>n w. 0 < n \<longrightarrow> 0 \<le> fst (rand_Intn S n w) \<and> fst (rand_Intn S n w) < n) \<and>
     reads view (TimeUUID S) \<and>
     (\<forall>w. fst (TimeUUID S w) \<notin> used_ids (view w)) \<and>
     (\<forall>i. ParseUUID S (UUIDString S i) = Inr i)"

definition cql_ok :: "'w session \<Rightarrow> ('w \<Rightarrow> tables) \<Rightarrow> bool" where
  "cql_ok S view \<longleftrightarrow>
     writes_ok S view \<and> cas_ok S view \<and> selects_ok S view \<and> scans_ok S view \<and> sources_ok S view"

subsection \<open>Using the hypothesis\<close>

lemma readsD: "reads view f \<Longrightarrow> f w = (r, w') \<Longrightarrow> view w' = view w"
  unfolding reads_def by (metis snd_conv)

lemma cql_now: "cql_ok S view \<Longrightarrow> time_Now S w = (t, w') \<Longrightarrow> view w' = view w"
  by (auto simp: cql_ok_def sources_ok_def intro: readsD)

lemma cql_rand:
  "cql_ok S view \<Longrightarrow> rand_Intn S n w = (r, w') \<Longrightarrow> view w' = view w \<and> (0 < n \<longrightarrow> 0 \<le> r \<and> r < n)"
  unfolding cql_ok_def sources_ok_def by (metis readsD fst_conv)

lemma cql_uuid:
  "cql_ok S view \<Longrightarrow> TimeUUID S w = (i, w') \<Longrightarrow> view w' = view w \<and> i \<notin> used_ids (view w)"
  unfolding cql_ok_def sources_ok_def by (metis readsD fst_conv)

lemma cql_parse: "cql_ok S view \<Longrightarrow> ParseUUID S (UUIDString S i) = Inr i"
  by (simp add: cql_ok_def sources_ok_def)

lemma cql_exec:
  assumes "cql_ok S view" and "qExec S c w = (r, w')"
  shows "(\<forall>u. r = Inr u \<longrightarrow> view w' = apply_cql c (view w)) \<and>
    (view w' = view w \<or> view w' = apply_cql c (view w))"
proof -
  from assms(1) have "writes view (qExec S c) (apply_cql c)" by (simp add: cql_ok_def writes_ok_def)
  with assms(2) show ?thesis by (cases r) (auto simp: writes_def dest!: spec[of _ w])
qed

lemma cql_batch:
  assumes "cql_ok S view" and "qBatch S cs w = (r, w')" and "distinct (map cql_table cs)"
  shows "(\<forall>u. r = Inr u \<longrightarrow> view w' = fold apply_cql cs (view w)) \<and>
    (view w' = view w \<or> view w' = fold apply_cql cs (view w))"
proof -
  from assms(1,3) have "writes view (qBatch S cs) (fold apply_cql cs)" by (simp add: cql_ok_def writes_ok_def)
  with assms(2) show ?thesis by (cases r) (auto simp: writes_def dest!: spec[of _ w])
qed

lemma transactsD:
  assumes "transacts view f ap P g" and "f w = (r, w')"
  shows "(\<forall>a. r = Inr a \<longrightarrow> (ap a \<longleftrightarrow> P (view w)) \<and> view w' = (if P (view w) then g (view w) else view w)) \<and>
    (view w' = view w \<or> P (view w) \<and> view w' = g (view w))"
  using assms by (cases r) (auto simp: transacts_def dest!: spec[of _ w] split: if_splits)

lemma cql_cas_idem:
  assumes "cql_ok S view" and "casIdem S s k i h t n w = (r, w')"
  shows "(\<forall>a j. r = Inr (a, j) \<longrightarrow> (a \<longleftrightarrow> idempotency_keys (view w) (s, k) = None) \<and>
        view w' = (if a then put_idem s k i h t (view w) else view w) \<and>
        (\<not> a \<longrightarrow> (\<exists>q. idempotency_keys (view w) (s, k) = Some (j, q)))) \<and>
    (view w' = view w \<or> idempotency_keys (view w) (s, k) = None \<and> view w' = put_idem s k i h t (view w))"
proof -
  from assms(1) have t: "transacts view (casIdem S s k i h t n) fst
      (\<lambda>v. idempotency_keys v (s, k) = None) (put_idem s k i h t)"
    and e: "\<And>j w'. casIdem S s k i h t n w = (Inr (False, j), w') \<Longrightarrow>
        \<exists>q. idempotency_keys (view w) (s, k) = Some (j, q)"
    by (simp_all add: cql_ok_def cas_ok_def) metis
  from transactsD[OF t assms(2)] e assms(2) show ?thesis by (auto split: if_splits)
qed

lemma cql_cas_inbox:
  assumes "cql_ok S view" and "casInbox S c m t n w = (r, w')"
  shows "(\<forall>a. r = Inr a \<longrightarrow> (a \<longleftrightarrow> inbox_consumed (view w) (c, m) = None) \<and>
        view w' = (if a then put_inbox c m t (view w) else view w)) \<and>
    (view w' = view w \<or> inbox_consumed (view w) (c, m) = None \<and> view w' = put_inbox c m t (view w))"
proof -
  from assms(1) have "transacts view (casInbox S c m t n) (\<lambda>b. b)
      (\<lambda>v. inbox_consumed v (c, m) = None) (put_inbox c m t)"
    by (simp add: cql_ok_def cas_ok_def)
  from transactsD[OF this assms(2)] show ?thesis by (auto split: if_splits)
qed

lemma cql_cas_lease:
  assumes "cql_ok S view" and "casLease S ow t i now n w = (r, w')"
  shows "(\<forall>a. r = Inr a \<longrightarrow> (a \<longleftrightarrow> lease_before (view w) i now) \<and>
        view w' = (if a then put_lease ow t i (view w) else view w)) \<and>
    (view w' = view w \<or> lease_before (view w) i now \<and> view w' = put_lease ow t i (view w))"
proof -
  from assms(1) have "transacts view (casLease S ow t i now n) (\<lambda>b. b)
      (\<lambda>v. lease_before v i now) (put_lease ow t i)"
    by (simp add: cql_ok_def cas_ok_def)
  from transactsD[OF this assms(2)] show ?thesis by (auto split: if_splits)
qed

lemma selectsD:
  assumes "selects view f g" and "f w = (r, w')"
  shows "view w' = view w \<and> (\<forall>a. r = Inr a \<longrightarrow> g (view w) = Some a) \<and>
    (r = Inl ErrNotFound \<longrightarrow> g (view w) = None)"
  using assms by (cases r) (auto simp: selects_def dest!: spec[of _ w] dest: readsD)

lemma cql_sel_event: "cql_ok S view \<Longrightarrow> selects view (selEventById S i) (\<lambda>v. events_by_id v i)"
  and cql_sel_outbox: "cql_ok S view \<Longrightarrow> selects view (selOutbox S i) (\<lambda>v. outbox_events v i)"
  and cql_sel_retry: "cql_ok S view \<Longrightarrow> selects view (selRetry S i) (\<lambda>v. outbox_retry_state v i)"
  and cql_sel_dead: "cql_ok S view \<Longrightarrow> selects view (selDeadLetter S i) (\<lambda>v. dead_letters_by_id v i)"
  by (simp_all add: cql_ok_def selects_ok_def)

lemma scansD:
  assumes "scans view f n R le" and "f w = ((rows, err), w')"
  shows "view w' = view w \<and> (\<exists>L k. distinct L \<and> set L = R (view w) \<and> sorted_wrt le L \<and>
    rows = take k L \<and> k \<le> nat n \<and> (err = None \<longrightarrow> k = nat n))"
proof -
  from assms have "view w' = view w" by (auto simp: scans_def dest: readsD)
  moreover from assms(1) have "\<exists>L k. distinct L \<and> set L = R (view w) \<and> sorted_wrt le L \<and>
        fst (fst (f w)) = take k L \<and> k \<le> nat n \<and> (snd (fst (f w)) = None \<longrightarrow> k = nat n)"
    by (simp add: scans_def)
  ultimately show ?thesis using assms(2) by simp
qed

lemma cql_iter_pending: "cql_ok S view \<Longrightarrow>
    scans view (iterPending S st n) n (pending_rows st) (\<lambda>a b. fst a \<le> fst b)"
  and cql_iter_recent: "cql_ok S view \<Longrightarrow>
    scans view (iterRecent S s n) n (recent_rows s) (\<lambda>a b. fst (snd a) \<ge> fst (snd b))"
  and cql_iter_dead: "cql_ok S view \<Longrightarrow> scans view (iterDead S b n) n (dead_rows b) (\<lambda>a b. fst a \<le> fst b)"
  and cql_iter_idem: "cql_ok S view \<Longrightarrow> scans view (iterIdem S b n) n (idem_rows b) (\<lambda>a b. fst a \<le> fst b)"
  by (simp_all add: cql_ok_def scans_ok_def)

end
