(* ===== verification/Cassstore.thy ===== *)
theory Cassstore
  imports Cql
begin

text \<open>
  The event store of \<^verbatim>\<open>internal/modules/cassstore/module.go\<close>: every operation of \<open>Module\<close> over an
  arbitrary session, statement by statement, with the early return of every error. The module's
  \<open>session\<close> field is \<open>None\<close> for nil; a call then fails at once. Spans and attributes of the
  tracer are left out. A slot that a Go function reads with \<open>time.Now()\<close> is a read of the
  session's clock at that place.
\<close>

section \<open>Model\<close>

definition allBucket :: string where "allBucket = ''all''"

abbreviation errNoSession :: goerr where
  "errNoSession \<equiv> ErrMsg ''cassandra session not available''"

abbreviation (input) unixZero :: time where "unixZero \<equiv> 0"

subsection \<open>Appending\<close>

definition isOutboxPublished :: "'w session \<Rightarrow> uuid \<Rightarrow> (bool, 'w) call" where
  "isOutboxPublished S i w =
     (case selOutbox S i w of
        (Inl e, w1) \<Rightarrow> (Inl e, w1)
      | (Inr row, w1) \<Rightarrow> (Inr (scan_text (ob_state row) = ''published''), w1))"

text \<open>The branch of a key that was there before.\<close>

definition appendDuplicate :: "'w session \<Rightarrow> EventRecord \<Rightarrow> uuid \<Rightarrow> (AppendResult, 'w) call" where
  "appendDuplicate S event existingID w =
     (case selEventById S existingID w of
        (Inl e, w1) \<Rightarrow> (Inl e, w1)
      | (Inr (occ, m), w1) \<Rightarrow>
          (let existing = zeroEvent
             \<lparr>evStream := m_stream m, evOccurredAt := occ, evSubject := m_subject m,
              evType := m_type m, evPayload := m_payload m, evID := UUIDString S existingID,
              evIdempotencyKey := evIdempotencyKey event\<rparr>
           in case isOutboxPublished S existingID w1 of
                (Inl e, w2) \<Rightarrow> (Inl e, w2)
              | (Inr published, w2) \<Rightarrow>
                  (Inr \<lparr>arEvent = existing, arDuplicate = True, arPublished = published\<rparr>, w2)))"

definition event_msg :: "EventRecord \<Rightarrow> msg" where
  "event_msg ev = \<lparr>m_stream = evStream ev, m_subject = evSubject ev, m_type = evType ev,
     m_payload = evPayload ev\<rparr>"

definition append_stmts :: "EventRecord \<Rightarrow> uuid \<Rightarrow> cql list" where
  "append_stmts ev i =
     [InsEventsByStream (evStream ev) (evOccurredAt ev) i (evSubject ev) (evType ev) (evPayload ev),
      InsEventsById i (evOccurredAt ev) (event_msg ev),
      InsOutbox i (event_msg ev) (evOccurredAt ev) ''pending'',
      InsByState ''pending'' (evOccurredAt ev) i (event_msg ev),
      InsRetry i 0 (evOccurredAt ev) [] [] unixZero False]"

definition appendBatch :: "'w session \<Rightarrow> EventRecord \<Rightarrow> uuid \<Rightarrow> (AppendResult, 'w) call" where
  "appendBatch S event newID w =
     (case qBatch S (append_stmts event newID) w of
        (Inl e, w1) \<Rightarrow> (Inl e, w1)
      | (Inr _, w1) \<Rightarrow>
          (Inr \<lparr>arEvent = event\<lparr>evID := UUIDString S newID\<rparr>, arDuplicate = False, arPublished = False\<rparr>, w1))"

definition appendKeyed :: "'w session \<Rightarrow> EventRecord \<Rightarrow> uuid \<Rightarrow> (AppendResult, 'w) call" where
  "appendKeyed S event newID w =
     (let (t, w1) = time_Now S w in
      case casIdem S (evStream event) (evIdempotencyKey event) newID (sha256Hex S (evPayload event)) t 1 w1 of
        (Inl e, w2) \<Rightarrow> (Inl e, w2)
      | (Inr (applied, existingID), w2) \<Rightarrow>
          (if \<not> applied then appendDuplicate S event existingID w2
           else
             (let (t2, w3) = time_Now S w2 in
              case qExec S (InsIdemByCreated allBucket t2 (evStream event) (evIdempotencyKey event) newID) w3 of
                (Inl e, w4) \<Rightarrow> (Inl e, w4)
              | (Inr _, w4) \<Rightarrow> appendBatch S event newID w4)))"

definition appendDefaults :: "'w session \<Rightarrow> EventRecord \<Rightarrow> 'w \<Rightarrow> EventRecord \<times> 'w" where
  "appendDefaults S event w =
     (let event1 = (if evStream event = [] then event\<lparr>evStream := ''default''\<rparr> else event)
      in if isZero (evOccurredAt event1)
         then (let (t, w1) = time_Now S w in (event1\<lparr>evOccurredAt := t\<rparr>, w1))
         else (event1, w))"

definition AppendEventExactlyOnce :: "'w session option \<Rightarrow> EventRecord \<Rightarrow> (AppendResult, 'w) call" where
  "AppendEventExactlyOnce sess event w =
     (case sess of
        None \<Rightarrow> (Inl errNoSession, w)
      | Some S \<Rightarrow>
          (let (event1, w1) = appendDefaults S event w;
               (newID, w2) = TimeUUID S w1
           in if evIdempotencyKey event1 \<noteq> [] then appendKeyed S event1 newID w2
              else appendBatch S event1 newID w2))"

subsection \<open>Publishing\<close>

definition mark_stmts :: "uuid \<Rightarrow> time \<Rightarrow> time \<Rightarrow> string \<Rightarrow> cql list" where
  "mark_stmts i occ t b =
     [UpdOutboxPublished ''published'' t b i, DelByState ''pending'' occ i, DelRetry i]"

definition MarkOutboxPublished :: "'w session option \<Rightarrow> string \<Rightarrow> string \<Rightarrow> (unit, 'w) call" where
  "MarkOutboxPublished sess eventID brokerMessageID w =
     (case sess of
        None \<Rightarrow> (Inl errNoSession, w)
      | Some S \<Rightarrow>
          (case ParseUUID S eventID of
             Inl e \<Rightarrow> (Inl e, w)
           | Inr i \<Rightarrow>
               (case selOutbox S i w of
                  (Inl e, w1) \<Rightarrow> (Inl e, w1)
                | (Inr row, w1) \<Rightarrow>
                    (let occurredAt = scan_time (ob_occurred row); (t, w2) = time_Now S w1
                     in qBatch S (mark_stmts i occurredAt t brokerMessageID) w2))))"

definition loadRetryState :: "'w session \<Rightarrow> uuid \<Rightarrow> (int \<times> time \<times> bool \<times> time, 'w) call" where
  "loadRetryState S i w =
     (case selRetry S i w of
        (Inl e, w1) \<Rightarrow>
          (if e = ErrNotFound then (Inr (0, unixZero, False, unixZero), w1) else (Inl e, w1))
      | (Inr r, w1) \<Rightarrow>
          (Inr (scan_int (rt_count r), scan_time (rt_next r), scan_bool (rt_quarantined r),
                scan_time (rt_lease r)), w1))"

definition pending_event :: "'w session \<Rightarrow> time \<times> uuid \<times> msg \<Rightarrow> int \<Rightarrow> EventRecord" where
  "pending_event S row retryCount =
     (case row of (occ, i, m) \<Rightarrow> zeroEvent
        \<lparr>evID := UUIDString S i, evStream := m_stream m, evSubject := m_subject m, evType := m_type m,
         evPayload := m_payload m, evOccurredAt := occ, evRetryCount := retryCount\<rparr>)"

text \<open>The loop over the fetched rows: whether it left by \<open>break\<close>, and what it collected.\<close>

fun pendingLoop ::
  "'w session \<Rightarrow> int \<Rightarrow> (time \<times> uuid \<times> msg) list \<Rightarrow> EventRecord list \<Rightarrow> 'w \<Rightarrow>
   (bool \<times> EventRecord list) \<times> 'w" where
  "pendingLoop S limit [] out w = ((False, out), w)"
| "pendingLoop S limit (row # rows) out w =
     (case loadRetryState S (fst (snd row)) w of
        (Inl _, w1) \<Rightarrow> pendingLoop S limit rows out w1
      | (Inr (retryCount, nextAttemptAt, quarantined, leaseUntil), w1) \<Rightarrow>
          (let (now, w2) = time_Now S w1 in
           if quarantined \<or> nextAttemptAt > now \<or> leaseUntil > now
           then pendingLoop S limit rows out w2
           else
             (let out1 = out @ [pending_event S row retryCount] in
              if int (length out1) \<ge> limit then ((True, out1), w2)
              else pendingLoop S limit rows out1 w2)))"

definition pending_limit :: "int \<Rightarrow> int" where
  "pending_limit limit = (let l = (if limit \<le> 0 then 100 else limit) in if l > 2000 then 2000 else l)"

definition pending_fetch :: "int \<Rightarrow> int" where
  "pending_fetch limit = (let f = limit * 5 in if f < 100 then 100 else f)"

definition PendingOutboxEvents :: "'w session option \<Rightarrow> int \<Rightarrow> (EventRecord list, 'w) call" where
  "PendingOutboxEvents sess limit w =
     (case sess of
        None \<Rightarrow> (Inl errNoSession, w)
      | Some S \<Rightarrow>
          (let lim = pending_limit limit;
               ((rows, err), w1) = iterPending S ''pending'' (pending_fetch lim) w;
               ((broke, out), w2) = pendingLoop S lim rows [] w1
           in case (if broke then None else err) of
                Some e \<Rightarrow> (Inl e, w2)
              | None \<Rightarrow> (Inr out, w2)))"

definition ClaimInboxMessage :: "'w session option \<Rightarrow> string \<Rightarrow> string \<Rightarrow> (bool, 'w) call" where
  "ClaimInboxMessage sess consumer messageID w =
     (case sess of
        None \<Rightarrow> (Inl errNoSession, w)
      | Some S \<Rightarrow> (let (t, w1) = time_Now S w in casInbox S consumer messageID t 1 w1))"

definition RecentEvents :: "'w session option \<Rightarrow> string \<Rightarrow> int \<Rightarrow> (EventRecord list, 'w) call" where
  "RecentEvents sess stream limit w =
     (case sess of
        None \<Rightarrow> (Inl errNoSession, w)
      | Some S \<Rightarrow>
          (let l1 = (if limit \<le> 0 then 50 else limit); l2 = (if l1 > 500 then 500 else l1);
               ((rows, err), w1) = iterRecent S stream l2 w;
               events = map (\<lambda>(i, occ, sub, ty, p). zeroEvent
                 \<lparr>evID := UUIDString S i, evStream := stream, evSubject := sub, evType := ty,
                  evPayload := p, evOccurredAt := occ\<rparr>) rows
           in case err of Some e \<Rightarrow> (Inl e, w1) | None \<Rightarrow> (Inr events, w1)))"

subsection \<open>Leases and failures\<close>

definition ClaimOutboxLease :: "'w session option \<Rightarrow> string \<Rightarrow> string \<Rightarrow> duration \<Rightarrow> (bool, 'w) call" where
  "ClaimOutboxLease sess eventID owner leaseDuration w =
     (case sess of
        None \<Rightarrow> (Inl errNoSession, w)
      | Some S \<Rightarrow>
          (case ParseUUID S eventID of
             Inl e \<Rightarrow> (Inl e, w)
           | Inr i \<Rightarrow>
               (let (now, w1) = time_Now S w in casLease S owner (now + leaseDuration) i now 1 w1)))"

text \<open>The doubling loop: \<open>n\<close> rounds are left.\<close>

fun backoffLoop :: "nat \<Rightarrow> duration \<Rightarrow> duration \<Rightarrow> duration" where
  "backoffLoop 0 wait maxBackoff = wait"
| "backoffLoop (Suc n) wait maxBackoff =
     (let wait1 = i64 (wait * 2) in
      if wait1 \<ge> maxBackoff then maxBackoff else backoffLoop n wait1 maxBackoff)"

definition backoffJitter :: "'w session \<Rightarrow> int \<Rightarrow> duration \<Rightarrow> 'w \<Rightarrow> duration \<times> 'w" where
  "backoffJitter S jitterPercent wait w =
     (if jitterPercent > 0 then
        (let jitterRange = quot (i64 (quot wait millisecond * jitterPercent)) 100 in
         if jitterRange > 0 then
           (let (r, w1) = rand_Intn S (i64 (jitterRange * 2 + 1)) w;
                delta = r - jitterRange;
                wait1 = i64 (wait + i64 (delta * millisecond))
            in (if wait1 < 10 * millisecond then 10 * millisecond else wait1, w1))
         else (wait, w))
      else (wait, w))"

text \<open>The dead-letter copies of a quarantined event.\<close>

definition quarantineEvent ::
  "'w session \<Rightarrow> uuid \<Rightarrow> time \<Rightarrow> int \<Rightarrow> string \<Rightarrow> 'w \<Rightarrow> (bool \<times> int \<times> goerr option) \<times> 'w" where
  "quarantineEvent S i now retryCount lastError w =
     (case selOutbox S i w of
        (Inl e, w1) \<Rightarrow> ((True, retryCount, Some e), w1)
      | (Inr row, w1) \<Rightarrow>
          (case qBatch S
             [InsDLByTime allBucket now i (scan_msg (ob_msg row)) retryCount lastError,
              InsDLById i now (scan_msg (ob_msg row)) retryCount lastError] w1 of
             (Inl e, w2) \<Rightarrow> ((True, retryCount, Some e), w2)
           | (Inr _, w2) \<Rightarrow> ((True, retryCount, None), w2)))"

text \<open>The counter and the first failure that \<open>SELECT retry_count, first_failed_at\<close> leaves in the
  variables: a missing row leaves them at zero.\<close>

definition scanFailures :: "goerr + retry_row \<Rightarrow> goerr + int \<times> time" where
  "scanFailures res =
     (case res of
        Inr r \<Rightarrow> Inr (scan_int (rt_count r), scan_time (rt_first_failed r))
      | Inl e \<Rightarrow> (if e = ErrNotFound then Inr (0, zero_time) else Inl e))"

text \<open>The rest of \<open>RecordOutboxFailure\<close>, from \<open>retryCount++\<close> on.\<close>

definition failureUpdate ::
  "'w session \<Rightarrow> uuid \<Rightarrow> string \<Rightarrow> duration \<Rightarrow> duration \<Rightarrow> int \<Rightarrow> int \<Rightarrow> int \<Rightarrow> time \<Rightarrow> 'w \<Rightarrow>
   (bool \<times> int \<times> goerr option) \<times> 'w" where
  "failureUpdate S i lastError baseBackoff maxBackoff jitterPercent quarantineAfter count0 firstFailed0 w1 =
     (let retryCount = count0 + 1;
          wait0 = backoffLoop (nat (retryCount - 1)) baseBackoff maxBackoff;
          (wait, w2) = backoffJitter S jitterPercent wait0 w1;
          (now, w3) = time_Now S w2;
          nextAttempt = now + wait;
          quarantined = (retryCount \<ge> quarantineAfter);
          firstFailed = (if isZero firstFailed0 then now else firstFailed0)
      in case qExec S
           (UpdRetryFailure retryCount nextAttempt lastError [] unixZero quarantined now firstFailed i) w3 of
           (Inl e, w4) \<Rightarrow> ((False, retryCount, Some e), w4)
         | (Inr _, w4) \<Rightarrow>
             (if \<not> quarantined then ((False, retryCount, None), w4)
              else quarantineEvent S i now retryCount lastError w4))"

definition RecordOutboxFailure ::
  "'w session option \<Rightarrow> string \<Rightarrow> string \<Rightarrow> duration \<Rightarrow> duration \<Rightarrow> int \<Rightarrow> int \<Rightarrow> 'w \<Rightarrow>
   (bool \<times> int \<times> goerr option) \<times> 'w" where
  "RecordOutboxFailure sess eventID lastError baseBackoff maxBackoff jitterPercent quarantineAfter w =
     (case sess of
        None \<Rightarrow> ((False, 0, Some errNoSession), w)
      | Some S \<Rightarrow>
          (case ParseUUID S eventID of
             Inl e \<Rightarrow> ((False, 0, Some e), w)
           | Inr i \<Rightarrow>
               (let (res, w1) = selRetry S i w in
                case scanFailures res of
                  Inl e \<Rightarrow> ((False, 0, Some e), w1)
                | Inr (count0, firstFailed0) \<Rightarrow>
                    failureUpdate S i lastError baseBackoff maxBackoff jitterPercent quarantineAfter
                      count0 firstFailed0 w1)))"

subsection \<open>Dead letters\<close>

definition ListDeadLetters :: "'w session option \<Rightarrow> int \<Rightarrow> (EventRecord list, 'w) call" where
  "ListDeadLetters sess limit w =
     (case sess of
        None \<Rightarrow> (Inl errNoSession, w)
      | Some S \<Rightarrow>
          (let l1 = (if limit \<le> 0 then 50 else limit);
               ((rows, err), w1) = iterDead S allBucket l1 w;
               out = map (\<lambda>(qat, i, m, rc, le). zeroEvent
                 \<lparr>evID := UUIDString S i, evStream := m_stream m, evSubject := m_subject m,
                  evType := m_type m, evPayload := m_payload m, evRetryCount := rc, evLastError := le,
                  evQuarantinedAt := qat\<rparr>) rows
           in case err of Some e \<Rightarrow> (Inl e, w1) | None \<Rightarrow> (Inr out, w1)))"

definition replay_stmts :: "uuid \<Rightarrow> msg \<Rightarrow> time \<Rightarrow> time \<Rightarrow> int \<Rightarrow> time \<Rightarrow> cql list" where
  "replay_stmts i m occurredAt now retryCount quarantinedAt =
     [InsOutbox i m occurredAt ''pending'',
      InsByState ''pending'' occurredAt i m,
      UpdRetryReplay False unixZero retryCount now [] [] unixZero i,
      DelDLByTime allBucket quarantinedAt i,
      DelDLById i]"

definition ReplayDeadLetter :: "'w session option \<Rightarrow> string \<Rightarrow> (unit, 'w) call" where
  "ReplayDeadLetter sess eventID w =
     (case sess of
        None \<Rightarrow> (Inl errNoSession, w)
      | Some S \<Rightarrow>
          (case ParseUUID S eventID of
             Inl e \<Rightarrow> (Inl e, w)
           | Inr i \<Rightarrow>
               (case selDeadLetter S i w of
                  (Inl e, w1) \<Rightarrow> (Inl e, w1)
                | (Inr (quarantinedAt, m, retryCount, lastError), w1) \<Rightarrow>
                    (let (now, w2) = time_Now S w1; (res, w3) = selOutbox S i w2 in
                     case (case res of
                             Inr row \<Rightarrow> Inr (scan_time (ob_occurred row))
                           | Inl e \<Rightarrow> if e = ErrNotFound then Inr now else Inl e) of
                       Inl e \<Rightarrow> (Inl e, w3)
                     | Inr occurredAt \<Rightarrow>
                         qBatch S (replay_stmts i m occurredAt now retryCount quarantinedAt) w3))))"

fun cleanupIdem :: "'w session \<Rightarrow> (time \<times> string \<times> string) list \<Rightarrow> int \<Rightarrow> 'w \<Rightarrow> int \<times> 'w" where
  "cleanupIdem S [] n w = (n, w)"
| "cleanupIdem S ((t, s, k) # rows) n w =
     (let (res, w1) = qBatch S [DelIdemKey s k, DelIdemByCreated allBucket t s k] w in
      case res of
        Inr _ \<Rightarrow> cleanupIdem S rows (n + 1) w1
      | Inl _ \<Rightarrow> cleanupIdem S rows n w1)"

fun cleanupDead :: "'w session \<Rightarrow> (time \<times> uuid) list \<Rightarrow> int \<Rightarrow> 'w \<Rightarrow> int \<times> 'w" where
  "cleanupDead S [] n w = (n, w)"
| "cleanupDead S ((t, i) # rows) n w =
     (let (res, w1) = qBatch S [DelDLByTime allBucket t i, DelDLById i] w in
      case res of
        Inr _ \<Rightarrow> cleanupDead S rows (n + 1) w1
      | Inl _ \<Rightarrow> cleanupDead S rows n w1)"

definition CleanupExpired ::
  "'w session option \<Rightarrow> time \<Rightarrow> time \<Rightarrow> int \<Rightarrow> 'w \<Rightarrow> (int \<times> int \<times> goerr option) \<times> 'w" where
  "CleanupExpired sess idempotencyBefore deadLetterBefore limit w =
     (case sess of
        None \<Rightarrow> ((0, 0, Some errNoSession), w)
      | Some S \<Rightarrow>
          (let lim = (if limit \<le> 0 then 200 else limit);
               ((rows, err), w1) = iterIdem S allBucket lim w
           in case err of
                Some e \<Rightarrow> ((0, 0, Some e), w1)
              | None \<Rightarrow>
                  (let (idemDeleted, w2) =
                         cleanupIdem S (filter (\<lambda>(t, _, _). t < idempotencyBefore) rows) 0 w1;
                       ((drows, derr), w3) = iterDead S allBucket lim w2
                   in case derr of
                        Some e \<Rightarrow> ((idemDeleted, 0, Some e), w3)
                      | None \<Rightarrow>
                          (let (dlDeleted, w4) =
                             cleanupDead S (map (\<lambda>(t, i, _). (t, i))
                               (filter (\<lambda>(t, _). t < deadLetterBefore) drows)) 0 w3
                           in ((idemDeleted, dlDeleted, None), w4)))))"

end
