(* ===== verification/Cass_Invariant.thy ===== *)
theory Cass_Invariant
  imports Cassstore
begin

text \<open>
  The abstract view of the store: the table transactions the module can commit, and the consistency
  of the tables that each of them keeps. A transaction is one statement or one logged batch with the
  facts its guards have established; the facts are ones that no other transaction can undo, so
  transactions of several replicas may interleave in any order.
\<close>

section \<open>Invariant\<close>

text \<open>\<open>events_by_stream\<close> and \<open>events_by_id\<close> hold the same events.\<close>

definition events_agree :: "tables \<Rightarrow> bool" where
  "events_agree v \<longleftrightarrow>
     (\<forall>i s t sub ty p. events_by_stream v (s, t, i) = Some (sub, ty, p) \<longleftrightarrow>
        events_by_id v i = Some (t, \<lparr>m_stream = s, m_subject = sub, m_type = ty, m_payload = p\<rparr>))"

text \<open>Every event has its outbox row with the same columns, in one of the two states.\<close>

definition outbox_agrees :: "tables \<Rightarrow> bool" where
  "outbox_agrees v \<longleftrightarrow>
     (\<forall>i o'. outbox_events v i = Some o' \<longrightarrow>
        (\<exists>t m. ob_occurred o' = Some t \<and> ob_msg o' = Some m \<and> cql_ts t = t \<and>
           events_by_id v i = Some (t, m) \<and> ob_state o' \<in> {Some ''pending'', Some ''published''})) \<and>
     (\<forall>i. (events_by_id v i = None) = (outbox_events v i = None))"

text \<open>The index \<open>outbox_by_state\<close> lists exactly the pending outbox rows.\<close>

definition index_agrees :: "tables \<Rightarrow> bool" where
  "index_agrees v \<longleftrightarrow>
     (\<forall>st t i m. outbox_by_state v (st, t, i) = Some m \<longleftrightarrow>
        st = ''pending'' \<and> (\<exists>o'. outbox_events v i = Some o' \<and> ob_state o' = Some ''pending'' \<and>
          ob_occurred o' = Some t \<and> ob_msg o' = Some m))"

text \<open>A dead letter found by its identifier is also in the list by time, and carries the columns of
  its outbox row.\<close>

definition dead_agree :: "tables \<Rightarrow> bool" where
  "dead_agree v \<longleftrightarrow>
     (\<forall>i q m n e. dead_letters_by_id v i = Some (q, m, n, e) \<longrightarrow>
        cql_ts q = q \<and> dead_letters_by_time v (allBucket, q, i) = Some (m, n, e) \<and>
        (\<exists>o'. outbox_events v i = Some o' \<and> ob_msg o' = Some m))"

text \<open>An identifier belongs to one idempotency key at most, and its event to that key's stream.\<close>

definition keys_agree :: "tables \<Rightarrow> bool" where
  "keys_agree v \<longleftrightarrow>
     (\<forall>k k' i r r'. idempotency_keys v k = Some (i, r) \<and> idempotency_keys v k' = Some (i, r') \<longrightarrow> k = k') \<and>
     (\<forall>s k i r t m. idempotency_keys v (s, k) = Some (i, r) \<and> events_by_id v i = Some (t, m) \<longrightarrow> m_stream m = s)"

definition store_inv :: "tables \<Rightarrow> bool" where
  "store_inv v \<longleftrightarrow>
     events_agree v \<and> outbox_agrees v \<and> index_agrees v \<and> dead_agree v \<and> keys_agree v"

lemmas agree_defs =
  events_agree_def outbox_agrees_def index_agrees_def dead_agree_def keys_agree_def

lemma store_inv_empty: "store_inv empty_tables"
  by (simp add: store_inv_def agree_defs empty_tables_def)

section \<open>Table changes\<close>

text \<open>Tables outside the invariant, and shrinking ones.\<close>

lemma store_inv_retry [simp]: "store_inv (v\<lparr>outbox_retry_state := x\<rparr>) = store_inv v"
  by (simp add: store_inv_def agree_defs)

lemma store_inv_inbox [simp]: "store_inv (v\<lparr>inbox_consumed := x\<rparr>) = store_inv v"
  by (simp add: store_inv_def agree_defs)

lemma store_inv_by_created [simp]: "store_inv (v\<lparr>idempotency_by_created := x\<rparr>) = store_inv v"
  by (simp add: store_inv_def agree_defs)

lemma store_inv_del_key: "store_inv v \<Longrightarrow> store_inv (v\<lparr>idempotency_keys := (idempotency_keys v)(k := None)\<rparr>)"
  by (auto simp: store_inv_def agree_defs)

text \<open>Each agreement depends on its own tables only.\<close>

lemma agree_frame [simp]:
  "events_agree (v\<lparr>idempotency_keys := k\<rparr>) = events_agree v"
  "outbox_agrees (v\<lparr>idempotency_keys := k\<rparr>) = outbox_agrees v"
  "index_agrees (v\<lparr>idempotency_keys := k\<rparr>) = index_agrees v"
  "dead_agree (v\<lparr>idempotency_keys := k\<rparr>) = dead_agree v"
  "events_agree (v\<lparr>dead_letters_by_time := d\<rparr>) = events_agree v"
  "outbox_agrees (v\<lparr>dead_letters_by_time := d\<rparr>) = outbox_agrees v"
  "index_agrees (v\<lparr>dead_letters_by_time := d\<rparr>) = index_agrees v"
  "keys_agree (v\<lparr>dead_letters_by_time := d\<rparr>) = keys_agree v"
  "events_agree (v\<lparr>dead_letters_by_id := e\<rparr>) = events_agree v"
  "outbox_agrees (v\<lparr>dead_letters_by_id := e\<rparr>) = outbox_agrees v"
  "index_agrees (v\<lparr>dead_letters_by_id := e\<rparr>) = index_agrees v"
  "keys_agree (v\<lparr>dead_letters_by_id := e\<rparr>) = keys_agree v"
  by (simp_all add: agree_defs)

text \<open>Reading the invariant.\<close>

lemma inv_event: "store_inv v \<Longrightarrow> events_by_stream v (s, t, i) = Some (sub, ty, p) \<longleftrightarrow>
    events_by_id v i = Some (t, \<lparr>m_stream = s, m_subject = sub, m_type = ty, m_payload = p\<rparr>)"
  by (simp add: store_inv_def events_agree_def)

lemma inv_outbox: "store_inv v \<Longrightarrow> outbox_events v i = Some o' \<Longrightarrow>
    \<exists>t m. ob_occurred o' = Some t \<and> ob_msg o' = Some m \<and> cql_ts t = t \<and>
      events_by_id v i = Some (t, m) \<and> ob_state o' \<in> {Some ''pending'', Some ''published''}"
  unfolding store_inv_def outbox_agrees_def by blast

lemma inv_outbox_dom: "store_inv v \<Longrightarrow> events_by_id v i = None \<longleftrightarrow> outbox_events v i = None"
  unfolding store_inv_def outbox_agrees_def by blast

lemma inv_index: "store_inv v \<Longrightarrow> outbox_by_state v (st, t, i) = Some m \<longleftrightarrow>
    st = ''pending'' \<and> (\<exists>o'. outbox_events v i = Some o' \<and> ob_state o' = Some ''pending'' \<and>
      ob_occurred o' = Some t \<and> ob_msg o' = Some m)"
  by (simp add: store_inv_def index_agrees_def)

lemma inv_dead: "store_inv v \<Longrightarrow> dead_letters_by_id v i = Some (q, m, n, e) \<Longrightarrow>
    cql_ts q = q \<and> dead_letters_by_time v (allBucket, q, i) = Some (m, n, e) \<and>
    (\<exists>o'. outbox_events v i = Some o' \<and> ob_msg o' = Some m)"
  unfolding store_inv_def dead_agree_def by blast

lemma inv_keys: "store_inv v \<Longrightarrow> idempotency_keys v k = Some (i, r) \<Longrightarrow>
    idempotency_keys v k' = Some (i, r') \<Longrightarrow> k = k'"
  unfolding store_inv_def keys_agree_def by blast

lemma inv_key_stream: "store_inv v \<Longrightarrow> idempotency_keys v (s, k) = Some (i, r) \<Longrightarrow>
    events_by_id v i = Some (t, m) \<Longrightarrow> m_stream m = s"
  unfolding store_inv_def keys_agree_def by blast

lemma store_inv_put_idem:
  assumes "store_inv v" and "i \<notin> used_ids v"
  shows "store_inv (put_idem s k i h t v)"
proof -
  have e: "events_by_id v i = None" and k: "\<And>k' r. idempotency_keys v k' \<noteq> Some (i, r)"
    using assms(2) by (auto simp: used_ids_def)
  have "keys_agree v" using assms(1) by (simp add: store_inv_def)
  with e k have "keys_agree (put_idem s k i h t v)"
    unfolding keys_agree_def put_idem_def by (simp split: if_splits)
  with assms(1) show ?thesis by (simp add: store_inv_def put_idem_def)
qed

lemma append_agree:
  assumes "store_inv v" and "events_by_id v i = None"
  shows "events_agree (fold apply_cql (append_stmts ev i) v)"
    and "outbox_agrees (fold apply_cql (append_stmts ev i) v)"
    and "index_agrees (fold apply_cql (append_stmts ev i) v)"
    and "dead_agree (fold apply_cql (append_stmts ev i) v)"
proof -
  have o: "outbox_events v i = None" using assms by (simp add: inv_outbox_dom)
  have s: "events_by_stream v (st, t, i) = None" for st t
    using inv_event[OF assms(1), of st t i] assms(2) by (cases "events_by_stream v (st, t, i)") auto
  have x: "outbox_by_state v (st, t, i) = None" for st t
    using inv_index[OF assms(1), of st t i] o by (cases "outbox_by_state v (st, t, i)") auto
  show "events_agree (fold apply_cql (append_stmts ev i) v)"
    using assms(2) s by (simp add: events_agree_def append_stmts_def event_msg_def inv_event[OF assms(1)])
  show "outbox_agrees (fold apply_cql (append_stmts ev i) v)"
    using inv_outbox[OF assms(1)] inv_outbox_dom[OF assms(1)] o
    by (simp add: outbox_agrees_def append_stmts_def null_outbox_def)
  show "index_agrees (fold apply_cql (append_stmts ev i) v)"
    using o by (auto simp: index_agrees_def append_stmts_def inv_index[OF assms(1)] null_outbox_def)
  show "dead_agree (fold apply_cql (append_stmts ev i) v)"
    using inv_dead[OF assms(1)] o unfolding dead_agree_def append_stmts_def by simp (metis option.distinct(1))
qed

lemma store_inv_append:
  assumes "store_inv v" and "events_by_id v i = None"
    and "\<And>s k r. idempotency_keys v (s, k) = Some (i, r) \<Longrightarrow> s = evStream ev"
  shows "store_inv (fold apply_cql (append_stmts ev i) v)"
proof -
  have "keys_agree (fold apply_cql (append_stmts ev i) v)"
    using assms(3) inv_keys[OF assms(1)] inv_key_stream[OF assms(1)]
    by (auto simp: keys_agree_def append_stmts_def event_msg_def)
  with append_agree[OF assms(1,2)] show ?thesis by (simp add: store_inv_def)
qed

lemma store_inv_mark:
  assumes "store_inv v" and "outbox_events v i = Some row"
  shows "store_inv (fold apply_cql (mark_stmts i (scan_time (ob_occurred row)) t b) v)"
proof -
  from inv_outbox[OF assms] obtain occ m where r: "ob_occurred row = Some occ" "ob_msg row = Some m"
    "cql_ts occ = occ" "events_by_id v i = Some (occ, m)" by blast
  let ?v = "fold apply_cql (mark_stmts i (scan_time (ob_occurred row)) t b) v"
  have "events_agree ?v" and "keys_agree ?v"
    using assms(1) by (simp_all add: store_inv_def agree_defs mark_stmts_def)
  moreover have "dead_agree ?v"
    using inv_dead[OF assms(1)] assms(2) by (fastforce simp: dead_agree_def mark_stmts_def)
  moreover have "outbox_agrees ?v"
    using inv_outbox[OF assms(1)] inv_outbox_dom[OF assms(1)] assms(2) r
    by (simp add: outbox_agrees_def mark_stmts_def)
  moreover have "index_agrees ?v"
    using assms(2) r by (auto simp: index_agrees_def mark_stmts_def inv_index[OF assms(1)])
  ultimately show ?thesis by (simp add: store_inv_def)
qed

lemma store_inv_quarantine:
  assumes "store_inv v" and "outbox_events v i = Some row"
  shows "store_inv (fold apply_cql [InsDLByTime allBucket t i (scan_msg (ob_msg row)) n e,
    InsDLById i t (scan_msg (ob_msg row)) n e] v)"
    (is "store_inv ?v")
proof -
  from inv_outbox[OF assms] obtain m where m: "ob_msg row = Some m" by blast
  have "dead_agree ?v" using inv_dead[OF assms(1)] assms(2) m by (simp add: dead_agree_def)
  with assms(1) show ?thesis by (simp add: store_inv_def)
qed

lemma store_inv_replay:
  assumes "store_inv v" and "outbox_events v i = Some row" and "ob_msg row = Some m"
  shows "store_inv (fold apply_cql (replay_stmts i m (scan_time (ob_occurred row)) now n q) v)"
proof -
  from inv_outbox[OF assms(1,2)] assms(3)
  obtain occ where r: "ob_occurred row = Some occ" "cql_ts occ = occ" "events_by_id v i = Some (occ, m)"
    by auto
  let ?v = "fold apply_cql (replay_stmts i m (scan_time (ob_occurred row)) now n q) v"
  have "events_agree ?v" and "keys_agree ?v"
    using assms(1) by (simp_all add: store_inv_def agree_defs replay_stmts_def)
  moreover have "outbox_agrees ?v"
    using inv_outbox[OF assms(1)] inv_outbox_dom[OF assms(1)] assms(2) r
    by (simp add: outbox_agrees_def replay_stmts_def)
  moreover have "index_agrees ?v"
    using assms(2,3) r by (auto simp: index_agrees_def replay_stmts_def inv_index[OF assms(1)])
  moreover have "dead_agree ?v"
    unfolding dead_agree_def replay_stmts_def by (auto dest: inv_dead[OF assms(1)])
  ultimately show ?thesis by (simp add: store_inv_def)
qed

lemma store_inv_del_dead:
  assumes "store_inv v"
  shows "store_inv (fold apply_cql [DelDLByTime allBucket t i, DelDLById i] v)" (is "store_inv ?v")
proof -
  have "dead_agree ?v" by (auto simp: dead_agree_def dest: inv_dead[OF assms])
  with assms show ?thesis by (simp add: store_inv_def)
qed

section \<open>Table transactions\<close>

text \<open>What the running service commits: \<open>tx_on M\<close>, where \<open>M\<close> are the kinds of transactions that are allowed.\<close>

datatype act = Bind | Post | Send uuid | Consume | Retry | Park | Requeue

inductive tx_on :: "act set \<Rightarrow> tables \<Rightarrow> tables \<Rightarrow> bool" for M where
  tx_key: "Bind \<in> M \<Longrightarrow> i \<notin> used_ids v \<Longrightarrow> idempotency_keys v (s, k) = None \<Longrightarrow> tx_on M v (put_idem s k i h t v)"
| tx_created: "Bind \<in> M \<Longrightarrow> tx_on M v (apply_cql (InsIdemByCreated b t s k i) v)"
| tx_append: "Post \<in> M \<Longrightarrow> events_by_id v i = None \<Longrightarrow>
    (\<And>s k r. idempotency_keys v (s, k) = Some (i, r) \<Longrightarrow> s = evStream ev) \<Longrightarrow>
    tx_on M v (fold apply_cql (append_stmts ev i) v)"
| tx_mark: "Send i \<in> M \<Longrightarrow> outbox_events v i = Some row \<Longrightarrow>
    tx_on M v (fold apply_cql (mark_stmts i (scan_time (ob_occurred row)) t b) v)"
| tx_inbox: "Consume \<in> M \<Longrightarrow> inbox_consumed v (c, m) = None \<Longrightarrow> tx_on M v (put_inbox c m t v)"
| tx_lease: "Retry \<in> M \<Longrightarrow> lease_before v i now \<Longrightarrow> tx_on M v (put_lease ow t i v)"
| tx_failure: "Retry \<in> M \<Longrightarrow> tx_on M v (apply_cql (UpdRetryFailure n nx e ow le q qa ff i) v)"
| tx_quarantine: "Park \<in> M \<Longrightarrow> outbox_events v i = Some row \<Longrightarrow>
    tx_on M v (fold apply_cql [InsDLByTime allBucket t i (scan_msg (ob_msg row)) n e,
      InsDLById i t (scan_msg (ob_msg row)) n e] v)"
| tx_replay: "Requeue \<in> M \<Longrightarrow> outbox_events v i = Some row \<Longrightarrow> ob_msg row = Some m \<Longrightarrow>
    tx_on M v (fold apply_cql (replay_stmts i m (scan_time (ob_occurred row)) now n q) v)"

abbreviation tx :: "tables \<Rightarrow> tables \<Rightarrow> bool" where "tx \<equiv> tx_on UNIV"

lemma tx_on_mono: "tx_on M v v' \<Longrightarrow> M \<subseteq> N \<Longrightarrow> tx_on N v v'"
  by (induction rule: tx_on.induct) (blast intro: tx_on.intros)+

lemma txs_on_mono: "(tx_on M)\<^sup>*\<^sup>* v v' \<Longrightarrow> M \<subseteq> N \<Longrightarrow> (tx_on N)\<^sup>*\<^sup>* v v'"
  by (induction rule: rtranclp_induct) (auto intro: rtranclp.rtrancl_into_rtrancl tx_on_mono)

text \<open>What the cleanup loop commits besides: \<open>tx_gc\<close>.\<close>

inductive tx_gc :: "tables \<Rightarrow> tables \<Rightarrow> bool" where
  gc_key: "tx_gc v (fold apply_cql [DelIdemKey s k, DelIdemByCreated allBucket t s k] v)"
| gc_dead: "tx_gc v (fold apply_cql [DelDLByTime allBucket t i, DelDLById i] v)"

lemma tx_inv: "tx_on M v v' \<Longrightarrow> store_inv v \<Longrightarrow> store_inv v'"
proof (induction rule: tx_on.induct)
  case (tx_inbox v c m t)
  then show ?case by (simp add: put_inbox_def)
next
  case (tx_lease v i now ow t)
  then show ?case by (simp add: put_lease_def)
qed (blast intro: store_inv_put_idem store_inv_append store_inv_mark store_inv_quarantine store_inv_replay | simp)+

lemma tx_gc_inv: "tx_gc v v' \<Longrightarrow> store_inv v \<Longrightarrow> store_inv v'"
  by (induction rule: tx_gc.induct) (simp add: store_inv_del_key, rule store_inv_del_dead)

lemma txs_inv: "(tx_on M)\<^sup>*\<^sup>* v v' \<Longrightarrow> store_inv v \<Longrightarrow> store_inv v'"
  by (induction rule: rtranclp_induct) (auto intro: tx_inv)

text \<open>Facts that transactions cannot undo.\<close>

lemma tx_keeps_key: "tx_on M v v' \<Longrightarrow> idempotency_keys v k = Some x \<Longrightarrow> idempotency_keys v' k = Some x"
  by (induction rule: tx_on.induct)
    (auto simp: put_idem_def put_inbox_def put_lease_def append_stmts_def mark_stmts_def replay_stmts_def)

lemma tx_keeps_inbox: "tx_on M v v' \<Longrightarrow> inbox_consumed v k = Some x \<Longrightarrow> inbox_consumed v' k = Some x"
  by (induction rule: tx_on.induct)
    (auto simp: put_idem_def put_inbox_def put_lease_def append_stmts_def mark_stmts_def replay_stmts_def)

lemma tx_keeps_event: "tx_on M v v' \<Longrightarrow> events_by_id v i = Some x \<Longrightarrow> events_by_id v' i = Some x"
  by (induction rule: tx_on.induct)
    (auto simp: put_idem_def put_inbox_def put_lease_def append_stmts_def mark_stmts_def replay_stmts_def)

lemma tx_gc_keeps:
  "tx_gc v v' \<Longrightarrow> inbox_consumed v' = inbox_consumed v \<and> events_by_id v' = events_by_id v \<and>
     outbox_events v' = outbox_events v \<and> outbox_by_state v' = outbox_by_state v \<and>
     outbox_retry_state v' = outbox_retry_state v \<and> events_by_stream v' = events_by_stream v"
  by (induction rule: tx_gc.induct) simp_all

text \<open>The events whose outbox row is published; only a mark adds to them.\<close>

definition published_ids :: "tables \<Rightarrow> uuid set" where
  "published_ids v = {i. \<exists>row. outbox_events v i = Some row \<and> ob_state row = Some ''published''}"

lemma tx_published: "tx_on M v v' \<Longrightarrow> published_ids v' \<subseteq> published_ids v \<union> {i. Send i \<in> M}"
  by (induction rule: tx_on.induct)
    (auto simp: published_ids_def put_idem_def put_inbox_def put_lease_def append_stmts_def mark_stmts_def replay_stmts_def
      split: if_splits)

lemma txs_published: "(tx_on M)\<^sup>*\<^sup>* v v' \<Longrightarrow> published_ids v' \<subseteq> published_ids v \<union> {i. Send i \<in> M}"
  by (induction rule: rtranclp_induct) (auto dest: tx_published)

lemma txs_keep_event: "(tx_on M)\<^sup>*\<^sup>* v v' \<Longrightarrow> events_by_id v i = Some x \<Longrightarrow> events_by_id v' i = Some x"
  by (induction rule: rtranclp_induct) (auto dest: tx_keeps_event)

lemma tx_gcs_keep: "tx_gc\<^sup>*\<^sup>* v v' \<Longrightarrow> events_by_id v' = events_by_id v \<and> outbox_events v' = outbox_events v"
  by (induction rule: rtranclp_induct) (auto dest: tx_gc_keeps)

lemma tx_gcs_inv: "tx_gc\<^sup>*\<^sup>* v v' \<Longrightarrow> store_inv v \<Longrightarrow> store_inv v'"
  by (induction rule: rtranclp_induct) (auto intro: tx_gc_inv)

end
