(* ===== verification/Cass_Refine.thy ===== *)
theory Cass_Refine
  imports Cass_Invariant
begin

text \<open>
  Every operation of the store refines the table transactions of \<open>Cass_Invariant\<close>: on every branch,
  the ones that fail half-way included, what an operation does to the tables is a sequence of
  transactions \<open>tx_on A\<close>, where \<open>A\<close> are the acts that belong to the operation (\<open>tx_gc\<close> transactions for the
  cleanup); the reading operations leave the tables alone.
\<close>

section \<open>Operations\<close>

lemma stmts_distinct [simp]:
  "distinct (map cql_table (append_stmts ev i))"
  "distinct (map cql_table (mark_stmts i t t' b))"
  "distinct (map cql_table (replay_stmts i m t now n q))"
  by (simp_all add: append_stmts_def mark_stmts_def replay_stmts_def)

lemma refines_batch:
  assumes "cql_ok S view" and "qBatch S cs w = (r, w')" and "distinct (map cql_table cs)"
    and "tx_on M (view w) (fold apply_cql cs (view w))"
  shows "(tx_on M)\<^sup>*\<^sup>* (view w) (view w')"
  using cql_batch[OF assms(1-3)] assms(4) by auto

lemma refines_appendBatch:
  assumes "cql_ok S view" and "events_by_id (view w) i = None"
    and "\<And>s k r. idempotency_keys (view w) (s, k) = Some (i, r) \<Longrightarrow> s = evStream ev"
  shows "(tx_on {Bind, Post})\<^sup>*\<^sup>* (view w) (view (snd (appendBatch S ev i w)))"
proof -
  obtain r w' where b: "qBatch S (append_stmts ev i) w = (r, w')" by fastforce
  have "(tx_on {Bind, Post})\<^sup>*\<^sup>* (view w) (view w')"
    by (rule refines_batch[OF assms(1) b stmts_distinct(1) tx_append[OF _ assms(2,3)]]) simp
  with b show ?thesis by (simp add: appendBatch_def split: sum.splits)
qed

lemma sel_view:
  assumes "cql_ok S view"
  shows "selOutbox S i w = (r1, w') \<Longrightarrow> view w' = view w"
    and "selEventById S i w = (r2, w') \<Longrightarrow> view w' = view w"
    and "selRetry S i w = (r3, w') \<Longrightarrow> view w' = view w"
    and "selDeadLetter S i w = (r4, w') \<Longrightarrow> view w' = view w"
  using assms by (auto dest: selectsD[OF cql_sel_outbox] selectsD[OF cql_sel_event]
      selectsD[OF cql_sel_retry] selectsD[OF cql_sel_dead])

lemma iter_view:
  assumes "cql_ok S view"
  shows "iterPending S st n w = (r1, w') \<Longrightarrow> view w' = view w"
    and "iterRecent S st n w = (r2, w') \<Longrightarrow> view w' = view w"
    and "iterDead S st n w = (r3, w') \<Longrightarrow> view w' = view w"
    and "iterIdem S st n w = (r4, w') \<Longrightarrow> view w' = view w"
  using assms by (cases r1; cases r2; cases r3; cases r4;
    auto dest: scansD[OF cql_iter_pending] scansD[OF cql_iter_recent]
      scansD[OF cql_iter_dead] scansD[OF cql_iter_idem])+

lemma view_isOutboxPublished:
  assumes ok: "cql_ok S view"
  shows "view (snd (isOutboxPublished S i w)) = view w"
  by (auto simp: isOutboxPublished_def split: prod.splits sum.splits dest: sel_view[OF ok])

lemma view_appendDuplicate:
  assumes ok: "cql_ok S view"
  shows "view (snd (appendDuplicate S ev i w)) = view w"
proof -
  obtain r w1 where s: "selEventById S i w = (r, w1)" by fastforce
  have "view (snd (isOutboxPublished S i w1)) = view w"
    using view_isOutboxPublished[OF ok] sel_view(2)[OF ok s] by metis
  with s sel_view(2)[OF ok s] show ?thesis
    by (cases "isOutboxPublished S i w1") (auto simp: appendDuplicate_def Let_def split: sum.splits)
qed

lemma view_appendDefaults:
  assumes ok: "cql_ok S view"
  shows "view (snd (appendDefaults S ev w)) = view w"
  by (auto simp: appendDefaults_def Let_def split: prod.splits dest: cql_now[OF ok])

lemma used_ids_view: "i \<notin> used_ids v \<Longrightarrow> events_by_id v i = None \<and> (\<forall>k r. idempotency_keys v k \<noteq> Some (i, r))"
  by (auto simp: used_ids_def)

lemma refines_appendKeyed:
  assumes ok: "cql_ok S view" and fr: "i \<notin> used_ids (view w)"
  shows "(tx_on {Bind, Post})\<^sup>*\<^sup>* (view w) (view (snd (appendKeyed S ev i w)))"
proof -
  obtain t w1 where n: "time_Now S w = (t, w1)" by fastforce
  obtain r w2 where c: "casIdem S (evStream ev) (evIdempotencyKey ev) i (sha256Hex S (evPayload ev)) t 1 w1 = (r, w2)"
    by fastforce
  note c' = cql_cas_idem[OF ok c]
  have v1: "view w1 = view w" using cql_now[OF ok n] .
  let ?p = "put_idem (evStream ev) (evIdempotencyKey ev) i (sha256Hex S (evPayload ev)) t (view w)"
  have r2: "(tx_on {Bind, Post})\<^sup>*\<^sup>* (view w) (view w2)" using c' v1 tx_key[OF _ fr] by auto
  show ?thesis
  proof (cases r)
    case (Inl e)
    with n c r2 show ?thesis by (simp add: appendKeyed_def)
  next
    case (Inr x)
    obtain a j where x: "x = (a, j)" by (cases x)
    show ?thesis
    proof (cases a)
      case False
      with n c Inr x r2 show ?thesis by (simp add: appendKeyed_def view_appendDuplicate[OF ok])
    next
      case True
      obtain t2 w3 where n2: "time_Now S w2 = (t2, w3)" by fastforce
      let ?c = "InsIdemByCreated allBucket t2 (evStream ev) (evIdempotencyKey ev) i"
      obtain r4 w4 where e: "qExec S ?c w3 = (r4, w4)" by fastforce
      have v3: "view w3 = ?p" "view w2 = ?p" using cql_now[OF ok n2] c' Inr x True v1 by auto
      have v4: "view w4 = ?p \<or> view w4 = apply_cql ?c ?p" using cql_exec[OF ok e] v3 by auto
      have r4: "(tx_on {Bind, Post})\<^sup>*\<^sup>* (view w) (view w4)"
        using v4 r2 v3(2) tx_created[OF insertI1] by (metis rtranclp.rtrancl_into_rtrancl)
      have e4: "events_by_id (view w4) i = None" using v4 used_ids_view[OF fr] by (auto simp: put_idem_def)
      have k4: "s = evStream ev" if "idempotency_keys (view w4) (s, k) = Some (i, q)" for s k q
        using that v4 used_ids_view[OF fr] by (cases q) (auto simp: put_idem_def split: if_splits)
      show ?thesis using n c Inr x True n2 e r4 rtranclp_trans[OF r4 refines_appendBatch[OF ok e4 k4]]
        by (simp add: appendKeyed_def split: sum.splits)
    qed
  qed
qed

lemma refines_Append:
  assumes ok: "cql_ok S view"
  shows "(tx_on {Bind, Post})\<^sup>*\<^sup>* (view w) (view (snd (AppendEventExactlyOnce (Some S) ev w)))"
proof -
  obtain ev1 w1 where d: "appendDefaults S ev w = (ev1, w1)" by fastforce
  obtain i w2 where u: "TimeUUID S w1 = (i, w2)" by fastforce
  have v: "view w2 = view w" "i \<notin> used_ids (view w)"
    using view_appendDefaults[OF ok, of ev w] d cql_uuid[OF ok u] by auto
  have fr: "i \<notin> used_ids (view w2)" using v by simp
  note f = used_ids_view[OF fr]
  have "(tx_on {Bind, Post})\<^sup>*\<^sup>* (view w2) (view (snd (appendBatch S ev1 i w2)))"
    using f by (intro refines_appendBatch[OF ok]) auto
  with d u v refines_appendKeyed[OF ok fr] show ?thesis by (simp add: AppendEventExactlyOnce_def)
qed

lemma refines_Mark:
  assumes ok: "cql_ok S view" and m: "\<And>i. ParseUUID S eid = Inr i \<Longrightarrow> Send i \<in> M"
  shows "(tx_on M)\<^sup>*\<^sup>* (view w) (view (snd (MarkOutboxPublished (Some S) eid b w)))"
proof (cases "ParseUUID S eid")
  case (Inl e)
  then show ?thesis by (simp add: MarkOutboxPublished_def)
next
  case (Inr i)
  obtain r w1 where s: "selOutbox S i w = (r, w1)" by fastforce
  note s1 = selectsD[OF cql_sel_outbox[OF ok] s]
  show ?thesis
  proof (cases r)
    case (Inl e)
    with Inr s s1 show ?thesis by (simp add: MarkOutboxPublished_def)
  next
    case row: (Inr row)
    obtain t w2 where n: "time_Now S w1 = (t, w2)" by fastforce
    obtain r3 w3 where q: "qBatch S (mark_stmts i (scan_time (ob_occurred row)) t b) w2 = (r3, w3)" by fastforce
    have v2: "view w2 = view w" using cql_now[OF ok n] s1 by simp
    have o: "outbox_events (view w2) i = Some row" using s1 row v2 by simp
    have "(tx_on M)\<^sup>*\<^sup>* (view w2) (view w3)"
      by (rule refines_batch[OF ok q stmts_distinct(2) tx_mark[OF m[OF Inr] o]])
    with Inr row s n q v2 show ?thesis by (simp add: MarkOutboxPublished_def)
  qed
qed

lemma view_loadRetryState:
  assumes ok: "cql_ok S view"
  shows "view (snd (loadRetryState S i w)) = view w"
  by (auto simp: loadRetryState_def split: prod.splits sum.splits dest: sel_view[OF ok])

lemma view_pendingLoop:
  assumes ok: "cql_ok S view"
  shows "view (snd (pendingLoop S lim rows out w)) = view w"
proof (induction rows arbitrary: out w)
  case Nil
  then show ?case by simp
next
  case (Cons row rows)
  obtain r w1 where l: "loadRetryState S (fst (snd row)) w = (r, w1)" by fastforce
  have v1: "view w1 = view w" using view_loadRetryState[OF ok, of "fst (snd row)" w] l by simp
  obtain t w2 where n: "time_Now S w1 = (t, w2)" by fastforce
  have v2: "view w2 = view w" using cql_now[OF ok n] v1 by simp
  show ?case using Cons.IH l n v1 v2 by (auto simp: Let_def split: sum.splits prod.splits)
qed

lemma view_Pending:
  assumes ok: "cql_ok S view"
  shows "view (snd (PendingOutboxEvents (Some S) n w)) = view w"
proof -
  obtain rows err w1 where i: "iterPending S ''pending'' (pending_fetch (pending_limit n)) w = ((rows, err), w1)"
    by (metis surj_pair)
  have "view (snd (pendingLoop S (pending_limit n) rows [] w1)) = view w"
    using view_pendingLoop[OF ok] iter_view(1)[OF ok i] by metis
  with i show ?thesis
    by (auto simp: PendingOutboxEvents_def Let_def split_beta split: option.splits if_splits)
qed

lemma txs_inbox: "inbox_consumed v (c, m) = None \<Longrightarrow> (tx_on {Consume})\<^sup>*\<^sup>* v (put_inbox c m t v)"
  by (rule r_into_rtranclp, rule tx_inbox) simp

lemma txs_lease: "lease_before v i now \<Longrightarrow> (tx_on {Retry})\<^sup>*\<^sup>* v (put_lease ow t i v)"
  by (rule r_into_rtranclp, rule tx_lease) simp

lemma refines_ClaimInbox:
  assumes ok: "cql_ok S view"
  shows "(tx_on {Consume})\<^sup>*\<^sup>* (view w) (view (snd (ClaimInboxMessage (Some S) c m w)))"
proof -
  obtain t w1 where n: "time_Now S w = (t, w1)" by fastforce
  obtain r w2 where c: "casInbox S c m t 1 w1 = (r, w2)" by fastforce
  show ?thesis using cql_cas_inbox[OF ok c] cql_now[OF ok n] n c
    by (auto simp: ClaimInboxMessage_def intro: txs_inbox)
qed

lemma refines_ClaimLease:
  assumes ok: "cql_ok S view"
  shows "(tx_on {Retry})\<^sup>*\<^sup>* (view w) (view (snd (ClaimOutboxLease (Some S) eid ow d w)))"
proof (cases "ParseUUID S eid")
  case (Inl e)
  then show ?thesis by (simp add: ClaimOutboxLease_def)
next
  case (Inr i)
  obtain t w1 where n: "time_Now S w = (t, w1)" by fastforce
  obtain r w2 where c: "casLease S ow (t + d) i t 1 w1 = (r, w2)" by fastforce
  show ?thesis using cql_cas_lease[OF ok c] cql_now[OF ok n] n c Inr
    by (auto simp: ClaimOutboxLease_def intro: txs_lease)
qed

lemma view_Recent:
  assumes ok: "cql_ok S view"
  shows "view (snd (RecentEvents (Some S) s n w)) = view w"
  by (auto simp: RecentEvents_def Let_def split: prod.splits option.splits dest: iter_view[OF ok])

lemma view_ListDL:
  assumes ok: "cql_ok S view"
  shows "view (snd (ListDeadLetters (Some S) n w)) = view w"
  by (auto simp: ListDeadLetters_def Let_def split: prod.splits option.splits dest: iter_view[OF ok])

lemma view_backoffJitter:
  assumes ok: "cql_ok S view"
  shows "view (snd (backoffJitter S p d w)) = view w"
  by (auto simp: backoffJitter_def Let_def split: prod.splits dest: cql_rand[OF ok])

lemma refines_quarantineEvent:
  assumes ok: "cql_ok S view"
  shows "(tx_on {Retry, Park})\<^sup>*\<^sup>* (view w) (view (snd (quarantineEvent S i t n e w)))"
proof -
  obtain r w1 where s: "selOutbox S i w = (r, w1)" by fastforce
  note s1 = selectsD[OF cql_sel_outbox[OF ok] s]
  show ?thesis
  proof (cases r)
    case (Inl e)
    with s s1 show ?thesis by (simp add: quarantineEvent_def)
  next
    case (Inr row)
    let ?b = "[InsDLByTime allBucket t i (scan_msg (ob_msg row)) n e, InsDLById i t (scan_msg (ob_msg row)) n e]"
    obtain r2 w2 where q: "qBatch S ?b w1 = (r2, w2)" by fastforce
    have o: "outbox_events (view w1) i = Some row" using s1 Inr by simp
    have "(tx_on {Retry, Park})\<^sup>*\<^sup>* (view w1) (view w2)" by (rule refines_batch[OF ok q _ tx_quarantine[OF _ o]]) simp_all
    with Inr s s1 q show ?thesis by (simp add: quarantineEvent_def split: sum.splits)
  qed
qed

lemma refines_failureUpdate:
  assumes ok: "cql_ok S view"
  shows "(tx_on {Retry, Park})\<^sup>*\<^sup>* (view w) (view (snd (failureUpdate S i le bb mb jp qa n f w)))"
proof -
  obtain d w2 where j: "backoffJitter S jp (backoffLoop (nat (n + 1 - 1)) bb mb) w = (d, w2)" by fastforce
  obtain t w3 where tn: "time_Now S w2 = (t, w3)" by fastforce
  let ?u = "UpdRetryFailure (n + 1) (t + d) le [] 0 (n + 1 \<ge> qa) t (if isZero f then t else f) i"
  obtain r4 w4 where q: "qExec S ?u w3 = (r4, w4)" by fastforce
  have "view w3 = view w"
    using view_backoffJitter[OF ok, of jp "backoffLoop (nat (n + 1 - 1)) bb mb" w] j cql_now[OF ok tn] by simp
  then have r4: "(tx_on {Retry, Park})\<^sup>*\<^sup>* (view w) (view w4)"
    using cql_exec[OF ok q] tx_failure[OF insertI1] by (metis r_into_rtranclp rtranclp.rtrancl_refl)
  show ?thesis
    using j tn q r4 rtranclp_trans[OF r4 refines_quarantineEvent[OF ok]]
    by (simp add: failureUpdate_def Let_def split: sum.splits)
qed

lemma refines_RecordFailure:
  assumes ok: "cql_ok S view"
  shows "(tx_on {Retry, Park})\<^sup>*\<^sup>* (view w) (view (snd (RecordOutboxFailure (Some S) eid le bb mb jp qa w)))"
proof (cases "ParseUUID S eid")
  case (Inl e)
  then show ?thesis by (simp add: RecordOutboxFailure_def)
next
  case (Inr i)
  obtain r w1 where s: "selRetry S i w = (r, w1)" by fastforce
  have "(tx_on {Retry, Park})\<^sup>*\<^sup>* (view w) (view (snd (failureUpdate S i le bb mb jp qa n f w1)))" for n f
    using refines_failureUpdate[OF ok, where w = w1] sel_view(3)[OF ok s] by simp
  with Inr s sel_view(3)[OF ok s] show ?thesis
    by (auto simp: RecordOutboxFailure_def split: sum.splits)
qed

text \<open>A replay reads the dead letter first; by the invariant its outbox row exists and carries the
  same columns.\<close>

lemma refines_Replay:
  assumes ok: "cql_ok S view" and inv: "store_inv (view w)"
  shows "(tx_on {Requeue})\<^sup>*\<^sup>* (view w) (view (snd (ReplayDeadLetter (Some S) eid w)))"
proof (cases "ParseUUID S eid")
  case (Inl e)
  then show ?thesis by (simp add: ReplayDeadLetter_def)
next
  case (Inr i)
  obtain r w1 where s: "selDeadLetter S i w = (r, w1)" by fastforce
  note s1 = selectsD[OF cql_sel_dead[OF ok] s]
  show ?thesis
  proof (cases r)
    case (Inl e)
    with Inr s s1 show ?thesis by (simp add: ReplayDeadLetter_def)
  next
    case row: (Inr x)
    obtain q m n e where x: "x = (q, m, n, e)" by (cases x)
    obtain t w2 where tn: "time_Now S w1 = (t, w2)" by fastforce
    obtain r3 w3 where s3: "selOutbox S i w2 = (r3, w3)" by fastforce
    note s4 = selectsD[OF cql_sel_outbox[OF ok] s3]
    have v3: "view w3 = view w" "view w2 = view w" using cql_now[OF ok tn] s1 s4 by simp_all
    have dl: "dead_letters_by_id (view w) i = Some (q, m, n, e)" using s1 row x by simp
    then obtain o' where o: "outbox_events (view w) i = Some o'" "ob_msg o' = Some m"
      using inv_dead[OF inv dl] by blast
    show ?thesis
    proof (cases r3)
      case (Inl e)
      with s4 o v3 have "e \<noteq> ErrNotFound" by auto
      with Inl Inr row x s tn s3 v3 show ?thesis by (simp add: ReplayDeadLetter_def)
    next
      case r3: (Inr o2)
      with s4 o v3 have o2: "o2 = o'" "outbox_events (view w3) i = Some o'" by simp_all
      obtain r5 w5 where b: "qBatch S (replay_stmts i m (scan_time (ob_occurred o')) t n q) w3 = (r5, w5)" by fastforce
      have "(tx_on {Requeue})\<^sup>*\<^sup>* (view w3) (view w5)"
        by (rule refines_batch[OF ok b stmts_distinct(3) tx_replay[OF _ o2(2) o(2)]]) simp
      with r3 o2(1) Inr row x s tn s3 b v3 show ?thesis by (simp add: ReplayDeadLetter_def)
    qed
  qed
qed

lemma refines_cleanupIdem:
  assumes ok: "cql_ok S view"
  shows "tx_gc\<^sup>*\<^sup>* (view w) (view (snd (cleanupIdem S rows n w)))"
proof (induction rows arbitrary: n w)
  case Nil
  then show ?case by simp
next
  case (Cons row rows)
  obtain t s k where row: "row = (t, s, k)" by (cases row)
  obtain r w1 where b: "qBatch S [DelIdemKey s k, DelIdemByCreated allBucket t s k] w = (r, w1)" by fastforce
  have "tx_gc\<^sup>*\<^sup>* (view w) (view w1)"
    using cql_batch[OF ok b] gc_key[of "view w" s k t] by auto
  with row b show ?case by (auto split: sum.splits intro: rtranclp_trans Cons.IH)
qed

lemma refines_cleanupDead:
  assumes ok: "cql_ok S view"
  shows "tx_gc\<^sup>*\<^sup>* (view w) (view (snd (cleanupDead S rows n w)))"
proof (induction rows arbitrary: n w)
  case Nil
  then show ?case by simp
next
  case (Cons row rows)
  obtain t i where row: "row = (t, i)" by (cases row)
  obtain r w1 where b: "qBatch S [DelDLByTime allBucket t i, DelDLById i] w = (r, w1)" by fastforce
  have "tx_gc\<^sup>*\<^sup>* (view w) (view w1)"
    using cql_batch[OF ok b] gc_dead[of "view w" t i] by auto
  with row b show ?case by (auto split: sum.splits intro: rtranclp_trans Cons.IH)
qed

lemma refines_Cleanup:
  assumes ok: "cql_ok S view"
  shows "tx_gc\<^sup>*\<^sup>* (view w) (view (snd (CleanupExpired (Some S) ib db n w)))"
proof -
  let ?n = "if n \<le> 0 then 200 else n"
  obtain rows err w1 where i1: "iterIdem S allBucket ?n w = ((rows, err), w1)" by (metis surj_pair)
  have v1: "view w1 = view w" using iter_view(4)[OF ok i1] .
  obtain k w2 where c1: "cleanupIdem S (filter (\<lambda>(t, _, _). t < ib) rows) 0 w1 = (k, w2)" by fastforce
  have r2: "tx_gc\<^sup>*\<^sup>* (view w) (view w2)" using refines_cleanupIdem[OF ok] c1 v1 by (metis snd_conv)
  obtain drows derr w3 where i2: "iterDead S allBucket ?n w2 = ((drows, derr), w3)" by (metis surj_pair)
  have r3: "tx_gc\<^sup>*\<^sup>* (view w) (view w3)" using iter_view(3)[OF ok i2] r2 by simp
  show ?thesis using i1 v1 c1 i2 r3 rtranclp_trans[OF r3 refines_cleanupDead[OF ok]]
    by (auto simp: CleanupExpired_def Let_def split_beta split: option.splits)
qed

section \<open>Runs of the store\<close>

text \<open>A step of the running service: any operation with any arguments, or something that does not
  concern the tables, such as the passing of time.\<close>

inductive store_step :: "'w session \<Rightarrow> ('w \<Rightarrow> tables) \<Rightarrow> 'w \<Rightarrow> 'w \<Rightarrow> bool" for S view where
  st_append: "store_step S view w (snd (AppendEventExactlyOnce (Some S) ev w))"
| st_mark: "store_step S view w (snd (MarkOutboxPublished (Some S) eid b w))"
| st_pending: "store_step S view w (snd (PendingOutboxEvents (Some S) n w))"
| st_inbox: "store_step S view w (snd (ClaimInboxMessage (Some S) c m w))"
| st_recent: "store_step S view w (snd (RecentEvents (Some S) s n w))"
| st_lease: "store_step S view w (snd (ClaimOutboxLease (Some S) eid ow d w))"
| st_failure: "store_step S view w (snd (RecordOutboxFailure (Some S) eid le bb mb jp qa w))"
| st_list: "store_step S view w (snd (ListDeadLetters (Some S) n w))"
| st_replay: "store_step S view w (snd (ReplayDeadLetter (Some S) eid w))"
| st_other: "view w' = view w \<Longrightarrow> store_step S view w w'"

text \<open>The same, with the periodic cleanup.\<close>

inductive full_step :: "'w session \<Rightarrow> ('w \<Rightarrow> tables) \<Rightarrow> 'w \<Rightarrow> 'w \<Rightarrow> bool" for S view where
  fs_step: "store_step S view w w' \<Longrightarrow> full_step S view w w'"
| fs_cleanup: "full_step S view w (snd (CleanupExpired (Some S) ib db n w))"

lemma store_step_tx:
  assumes "store_step S view w w'" and ok: "cql_ok S view" and "store_inv (view w)"
  shows "tx\<^sup>*\<^sup>* (view w) (view w')"
  using assms(1,3)
  by (cases rule: store_step.cases)
    (simp_all add: refines_Mark[OF ok] view_Pending[OF ok] view_Recent[OF ok] view_ListDL[OF ok]
      txs_on_mono[OF refines_Append[OF ok]] txs_on_mono[OF refines_ClaimInbox[OF ok]]
      txs_on_mono[OF refines_ClaimLease[OF ok]] txs_on_mono[OF refines_RecordFailure[OF ok]]
      txs_on_mono[OF refines_Replay[OF ok]])

lemma full_step_tx:
  assumes "full_step S view w w'" and ok: "cql_ok S view" and "store_inv (view w)"
  shows "(sup tx tx_gc)\<^sup>*\<^sup>* (view w) (view w')"
  using assms(1)
proof cases
  case fs_step
  from store_step_tx[OF this ok assms(3)] show ?thesis by (rule rtranclp_mono[THEN predicate2D, rotated]) simp
next
  case (fs_cleanup ib db n)
  show ?thesis unfolding fs_cleanup
    by (rule rtranclp_mono[THEN predicate2D, OF _ refines_Cleanup[OF ok]]) simp
qed

lemma store_run_tx:
  "(store_step S view)\<^sup>*\<^sup>* w w' \<Longrightarrow> cql_ok S view \<Longrightarrow> store_inv (view w) \<Longrightarrow> tx\<^sup>*\<^sup>* (view w) (view w')"
  by (induction rule: rtranclp_induct) (auto dest: store_step_tx intro: txs_inv rtranclp_trans)

lemma full_txs_inv: "(sup tx tx_gc)\<^sup>*\<^sup>* v v' \<Longrightarrow> store_inv v \<Longrightarrow> store_inv v'"
  by (induction rule: rtranclp_induct) (auto intro: tx_inv tx_gc_inv)

lemma full_run_tx:
  "(full_step S view)\<^sup>*\<^sup>* w w' \<Longrightarrow> cql_ok S view \<Longrightarrow> store_inv (view w) \<Longrightarrow>
   (sup tx tx_gc)\<^sup>*\<^sup>* (view w) (view w')"
  by (induction rule: rtranclp_induct) (auto dest: full_step_tx intro: full_txs_inv rtranclp_trans)

end
