(* ===== verification/Cql_Memory.thy ===== *)
theory Cql_Memory
  imports Cql
begin

text \<open>
  An executable session that meets \<open>cql_ok\<close>: tables as association lists, a clock that advances one
  millisecond per reading, and a schedule of write faults. It shows that the hypothesis can hold,
  with and without failing writes, and is what the witnesses run on. With \<open>strict\<close> set,
  \<open>ScanCAS\<close> on \<open>INSERT ... IF NOT EXISTS\<close> counts columns as gocql documents.
\<close>

record mem =
  ml_events_by_stream :: "((string \<times> time \<times> uuid) \<times> (string \<times> string \<times> string)) list"
  ml_events_by_id :: "(uuid \<times> (time \<times> msg)) list"
  ml_idempotency_keys :: "((string \<times> string) \<times> (uuid \<times> string \<times> time)) list"
  ml_idempotency_by_created :: "((string \<times> time \<times> string \<times> string) \<times> uuid) list"
  ml_outbox_events :: "(uuid \<times> outbox_row) list"
  ml_outbox_retry_state :: "(uuid \<times> retry_row) list"
  ml_outbox_by_state :: "((string \<times> time \<times> uuid) \<times> msg) list"
  ml_inbox_consumed :: "((string \<times> string) \<times> time) list"
  ml_dead_letters_by_time :: "((string \<times> time \<times> uuid) \<times> (msg \<times> int \<times> string)) list"
  ml_dead_letters_by_id :: "(uuid \<times> (time \<times> msg \<times> int \<times> string)) list"
  ml_faults :: "bool list"
  ml_clock :: time

definition mem_empty :: "time \<Rightarrow> mem" where
  "mem_empty t = \<lparr>ml_events_by_stream = [], ml_events_by_id = [], ml_idempotency_keys = [],
     ml_idempotency_by_created = [], ml_outbox_events = [], ml_outbox_retry_state = [],
     ml_outbox_by_state = [], ml_inbox_consumed = [], ml_dead_letters_by_time = [],
     ml_dead_letters_by_id = [], ml_faults = [], ml_clock = t\<rparr>"

definition mem_view :: "mem \<Rightarrow> tables" where
  "mem_view m = \<lparr>events_by_stream = map_of (ml_events_by_stream m),
     events_by_id = map_of (ml_events_by_id m),
     idempotency_keys = map_of (ml_idempotency_keys m),
     idempotency_by_created = map_of (ml_idempotency_by_created m),
     outbox_events = map_of (ml_outbox_events m),
     outbox_retry_state = map_of (ml_outbox_retry_state m),
     outbox_by_state = map_of (ml_outbox_by_state m),
     inbox_consumed = map_of (ml_inbox_consumed m),
     dead_letters_by_time = map_of (ml_dead_letters_by_time m),
     dead_letters_by_id = map_of (ml_dead_letters_by_id m)\<rparr>"

fun mem_apply :: "cql \<Rightarrow> mem \<Rightarrow> mem" where
  "mem_apply (InsEventsByStream s t i sub ty p) v =
     v\<lparr>ml_events_by_stream := AList.update (s, cql_ts t, i) (sub, ty, p) (ml_events_by_stream v)\<rparr>"
| "mem_apply (InsEventsById i t m) v =
     v\<lparr>ml_events_by_id := AList.update i (cql_ts t, m) (ml_events_by_id v)\<rparr>"
| "mem_apply (InsIdemByCreated b t s k i) v =
     v\<lparr>ml_idempotency_by_created := AList.update (b, cql_ts t, s, k) i (ml_idempotency_by_created v)\<rparr>"
| "mem_apply (InsOutbox i m t st) v =
     v\<lparr>ml_outbox_events := AList.update i
        ((row_or null_outbox (map_of (ml_outbox_events v) i))
          \<lparr>ob_msg := Some m, ob_occurred := Some (cql_ts t), ob_state := Some st\<rparr>) (ml_outbox_events v)\<rparr>"
| "mem_apply (UpdOutboxPublished st t br i) v =
     v\<lparr>ml_outbox_events := AList.update i
        ((row_or null_outbox (map_of (ml_outbox_events v) i))
          \<lparr>ob_state := Some st, ob_published_at := Some (cql_ts t), ob_broker := Some br\<rparr>) (ml_outbox_events v)\<rparr>"
| "mem_apply (InsByState st t i m) v =
     v\<lparr>ml_outbox_by_state := AList.update (st, cql_ts t, i) m (ml_outbox_by_state v)\<rparr>"
| "mem_apply (DelByState st t i) v =
     v\<lparr>ml_outbox_by_state := AList.delete (st, cql_ts t, i) (ml_outbox_by_state v)\<rparr>"
| "mem_apply (InsRetry i n nx e ow le q) v =
     v\<lparr>ml_outbox_retry_state := AList.update i
        ((row_or null_retry (map_of (ml_outbox_retry_state v) i))
          \<lparr>rt_count := Some n, rt_next := Some (cql_ts nx), rt_error := Some e, rt_owner := Some ow,
           rt_lease := Some (cql_ts le), rt_quarantined := Some q\<rparr>) (ml_outbox_retry_state v)\<rparr>"
| "mem_apply (UpdRetryFailure n nx e ow le q qa ff i) v =
     v\<lparr>ml_outbox_retry_state := AList.update i
        ((row_or null_retry (map_of (ml_outbox_retry_state v) i))
          \<lparr>rt_count := Some n, rt_next := Some (cql_ts nx), rt_error := Some e, rt_owner := Some ow,
           rt_lease := Some (cql_ts le), rt_quarantined := Some q,
           rt_quarantined_at := Some (cql_ts qa), rt_first_failed := Some (cql_ts ff)\<rparr>)
        (ml_outbox_retry_state v)\<rparr>"
| "mem_apply (UpdRetryReplay q qa n nx e ow le i) v =
     v\<lparr>ml_outbox_retry_state := AList.update i
        ((row_or null_retry (map_of (ml_outbox_retry_state v) i))
          \<lparr>rt_quarantined := Some q, rt_quarantined_at := Some (cql_ts qa), rt_count := Some n,
           rt_next := Some (cql_ts nx), rt_error := Some e, rt_owner := Some ow,
           rt_lease := Some (cql_ts le)\<rparr>) (ml_outbox_retry_state v)\<rparr>"
| "mem_apply (DelRetry i) v = v\<lparr>ml_outbox_retry_state := AList.delete i (ml_outbox_retry_state v)\<rparr>"
| "mem_apply (InsDLByTime b t i m n e) v =
     v\<lparr>ml_dead_letters_by_time := AList.update (b, cql_ts t, i) (m, n, e) (ml_dead_letters_by_time v)\<rparr>"
| "mem_apply (InsDLById i t m n e) v =
     v\<lparr>ml_dead_letters_by_id := AList.update i (cql_ts t, m, n, e) (ml_dead_letters_by_id v)\<rparr>"
| "mem_apply (DelDLByTime b t i) v =
     v\<lparr>ml_dead_letters_by_time := AList.delete (b, cql_ts t, i) (ml_dead_letters_by_time v)\<rparr>"
| "mem_apply (DelDLById i) v = v\<lparr>ml_dead_letters_by_id := AList.delete i (ml_dead_letters_by_id v)\<rparr>"
| "mem_apply (DelIdemKey s k) v =
     v\<lparr>ml_idempotency_keys := AList.delete (s, k) (ml_idempotency_keys v)\<rparr>"
| "mem_apply (DelIdemByCreated b t s k) v =
     v\<lparr>ml_idempotency_by_created := AList.delete (b, cql_ts t, s, k) (ml_idempotency_by_created v)\<rparr>"

lemma mem_apply_view: "mem_view (mem_apply c m) = apply_cql c (mem_view m)"
  by (cases c) (simp_all add: mem_view_def AList.update_conv' AList.delete_conv')

lemma mem_fold_view: "mem_view (fold mem_apply cs m) = fold apply_cql cs (mem_view m)"
  by (induction cs arbitrary: m) (simp_all add: mem_apply_view)

text \<open>Faults: a scheduled fault makes the next write fail without effect.\<close>

definition mem_pop :: "mem \<Rightarrow> bool \<times> mem" where
  "mem_pop m = (case ml_faults m of [] \<Rightarrow> (False, m) | f # fs \<Rightarrow> (f, m\<lparr>ml_faults := fs\<rparr>))"

definition mem_write :: "(mem \<Rightarrow> mem) \<Rightarrow> (unit, mem) call" where
  "mem_write g m = (case mem_pop m of (f, m1) \<Rightarrow> if f then (Inl (ErrMsg ''timeout''), m1) else (Inr (), g m1))"

lemma mem_pop_view [simp]: "mem_view (snd (mem_pop m)) = mem_view m"
  by (simp add: mem_pop_def mem_view_def split: list.splits)

lemma mem_write_ok:
  assumes "\<And>m. mem_view (g m) = h (mem_view m)"
  shows "writes mem_view (mem_write g) h"
  by (simp add: writes_def mem_write_def split_beta assms)

definition mem_ids :: "mem \<Rightarrow> uuid list" where
  "mem_ids m = map fst (ml_events_by_id m) @ map fst (ml_outbox_events m) @
     map fst (ml_outbox_retry_state m) @ map fst (ml_dead_letters_by_id m) @
     map snd (ml_idempotency_by_created m) @ map (snd \<circ> snd \<circ> fst) (ml_events_by_stream m) @
     map (snd \<circ> snd \<circ> fst) (ml_outbox_by_state m) @ map (snd \<circ> snd \<circ> fst) (ml_dead_letters_by_time m) @
     map (fst \<circ> snd) (ml_idempotency_keys m)"

lemma dom_ids: "dom (map_of al) \<subseteq> set (map fst al)"
  by (simp add: dom_map_of_conv_image_fst)

lemma ran_ids: "ran (map_of al) \<subseteq> set (map snd al)"
  by (force simp: ran_def dest: map_of_SomeD)

lemma key_ids: "{i. \<exists>s t. map_of al (s, t, i) \<noteq> None} \<subseteq> set (map (snd \<circ> snd \<circ> fst) al)"
  by (force dest: map_of_SomeD)

lemma row_ids: "{i. \<exists>k r. map_of al k = Some (i, r)} \<subseteq> set (map (fst \<circ> snd) al)"
  by (force dest: map_of_SomeD)

lemma mem_ids_used: "used_ids (mem_view m) \<subseteq> set (mem_ids m)"
  unfolding used_ids_def mem_ids_def mem_view_def tables.simps set_append Un_assoc
  by (intro Un_mono dom_ids ran_ids key_ids row_ids)

text \<open>The rows of a partition in clustering order.\<close>

definition mem_rows :: "('k \<times> 'v) list \<Rightarrow> ('k \<Rightarrow> bool) \<Rightarrow> ('k \<Rightarrow> 'v \<Rightarrow> 'r) \<Rightarrow> ('r \<Rightarrow> int) \<Rightarrow> 'r list" where
  "mem_rows al P f ord = sort_key ord (map (\<lambda>k. f k (the (map_of al k))) (filter P (remdups (map fst al))))"

lemma set_mem_rows: "set (mem_rows al P f ord) = {r. \<exists>k v. P k \<and> map_of al k = Some v \<and> r = f k v}"
proof -
  have "set (mem_rows al P f ord) = (\<lambda>k. f k (the (map_of al k))) ` {k \<in> dom (map_of al). P k}"
    by (simp add: mem_rows_def dom_map_of_conv_image_fst)
  also have "\<dots> = {r. \<exists>k v. P k \<and> map_of al k = Some v \<and> r = f k v}" (is "?L = ?R")
  proof
    show "?L \<subseteq> ?R" by clarsimp blast
    show "?R \<subseteq> ?L" by (clarify, rule_tac x = k in rev_image_eqI) auto
  qed
  finally show ?thesis .
qed

lemma distinct_mem_rows:
  assumes "\<And>k v k' v'. P k \<Longrightarrow> P k' \<Longrightarrow> f k v = f k' v' \<Longrightarrow> k = k'"
  shows "distinct (mem_rows al P f ord)"
  using assms by (auto simp: mem_rows_def distinct_map inj_on_def)

lemma sorted_mem_rows: "sorted_wrt (\<lambda>a b. ord a \<le> ord b) (mem_rows al P f ord)"
  unfolding mem_rows_def by (rule iffD1[OF sorted_map sorted_sort_key])

lemma mem_scans:
  assumes "\<And>w. fst (f w) = (take (nat n) (g w), None)" and "\<And>w. mem_view (snd (f w)) = mem_view w"
    and "\<And>w. distinct (g w) \<and> set (g w) = R (mem_view w) \<and> sorted_wrt le (g w)"
  shows "scans mem_view f n R le"
  unfolding scans_def reads_def using assms by (metis fst_conv snd_conv order_refl)

text \<open>The transactions: not applied leaves the lists alone; \<open>cols\<close> is the width of the row that a
  refused \<open>INSERT ... IF NOT EXISTS\<close> returns.\<close>

definition mem_cas :: "bool \<Rightarrow> nat \<Rightarrow> nat \<Rightarrow> (mem \<Rightarrow> 'v option) \<Rightarrow> (mem \<Rightarrow> mem) \<Rightarrow> ('v option \<Rightarrow> 'a) \<Rightarrow> ('a, mem) call" where
  "mem_cas strict cols n look g res m =
     (case mem_pop m of (f, m1) \<Rightarrow>
        if f then (Inl (ErrMsg ''timeout''), m1)
        else case look m1 of
          None \<Rightarrow> (Inr (res None), g m1)
        | Some v \<Rightarrow> if strict \<and> n \<noteq> cols then (Inl (ErrMsg ''not enough columns to scan into''), m1)
                   else (Inr (res (Some v)), m1))"

lemma mem_cas_ok:
  assumes "\<And>m. (look m = None) = P (mem_view m)" and "\<And>m. mem_view (g m) = h (mem_view m)"
    and "ap (res None)" and "\<And>v. \<not> ap (res (Some v))"
  shows "transacts mem_view (mem_cas strict cols n look g res) ap P h"
  unfolding transacts_def
proof
  fix w :: mem
  obtain f m1 where p: "mem_pop w = (f, m1)" by fastforce
  then have v: "mem_view m1 = mem_view w" using mem_pop_view[of w] by simp
  show "case fst (mem_cas strict cols n look g res w) of
      Inl _ \<Rightarrow> mem_view (snd (mem_cas strict cols n look g res w)) = mem_view w \<or>
        P (mem_view w) \<and> mem_view (snd (mem_cas strict cols n look g res w)) = h (mem_view w)
    | Inr a \<Rightarrow> (ap a \<longleftrightarrow> P (mem_view w)) \<and> mem_view (snd (mem_cas strict cols n look g res w)) =
        (if P (mem_view w) then h (mem_view w) else mem_view w)"
    using p v assms(1)[of m1] assms(2)[of m1] assms(3,4)
    by (cases "look m1") (auto simp: mem_cas_def)
qed

definition mem_lease :: "string \<Rightarrow> time \<Rightarrow> uuid \<Rightarrow> time \<Rightarrow> (bool, mem) call" where
  "mem_lease ow t i now m =
     (case mem_pop m of (f, m1) \<Rightarrow>
        if f then (Inl (ErrMsg ''timeout''), m1)
        else case map_of (ml_outbox_retry_state m1) i of
          None \<Rightarrow> (Inr False, m1)
        | Some r \<Rightarrow>
            (case rt_lease r of
               None \<Rightarrow> (Inr False, m1)
             | Some l \<Rightarrow>
                 if l < cql_ts now
                 then (Inr True, m1\<lparr>ml_outbox_retry_state := AList.update i
                   (r\<lparr>rt_owner := Some ow, rt_lease := Some (cql_ts t)\<rparr>) (ml_outbox_retry_state m1)\<rparr>)
                 else (Inr False, m1)))"

lemma mem_lease_ok:
  "transacts mem_view (mem_lease ow t i now) (\<lambda>b. b) (\<lambda>v. lease_before v i now) (put_lease ow t i)"
  unfolding transacts_def
proof
  fix w :: mem
  obtain f m1 where p: "mem_pop w = (f, m1)" by fastforce
  then have v: "mem_view m1 = mem_view w" using mem_pop_view[of w] by simp
  have lb: "lease_before (mem_view w) i now \<longleftrightarrow>
      (\<exists>r l. map_of (ml_outbox_retry_state m1) i = Some r \<and> rt_lease r = Some l \<and> l < cql_ts now)"
    unfolding v[symmetric] by (simp add: lease_before_def mem_view_def)
  have pl: "map_of (ml_outbox_retry_state m1) i = Some r \<Longrightarrow>
      mem_view (m1\<lparr>ml_outbox_retry_state := AList.update i
        (r\<lparr>rt_owner := Some ow, rt_lease := Some (cql_ts t)\<rparr>) (ml_outbox_retry_state m1)\<rparr>) =
      put_lease ow t i (mem_view w)" for r
    unfolding v[symmetric] by (simp add: put_lease_def mem_view_def AList.update_conv')
  show "case fst (mem_lease ow t i now w) of
      Inl _ \<Rightarrow> mem_view (snd (mem_lease ow t i now w)) = mem_view w \<or>
        lease_before (mem_view w) i now \<and> mem_view (snd (mem_lease ow t i now w)) = put_lease ow t i (mem_view w)
    | Inr a \<Rightarrow> (a \<longleftrightarrow> lease_before (mem_view w) i now) \<and> mem_view (snd (mem_lease ow t i now w)) =
        (if lease_before (mem_view w) i now then put_lease ow t i (mem_view w) else mem_view w)"
    using p v pl unfolding lb
    by (auto simp: mem_lease_def split: option.splits)
qed

definition mem_sel :: "(mem \<Rightarrow> 'a option) \<Rightarrow> ('a, mem) call" where
  "mem_sel look m = (case look m of None \<Rightarrow> (Inl ErrNotFound, m) | Some a \<Rightarrow> (Inr a, m))"

lemma mem_sel_ok: "(\<And>m. look m = g (mem_view m)) \<Longrightarrow> selects mem_view (mem_sel look) g"
  by (auto simp: selects_def reads_def mem_sel_def split: option.splits)

definition mem_session :: "bool \<Rightarrow> mem session" where
  "mem_session strict = \<lparr>
     time_Now = (\<lambda>m. (ml_clock m, m\<lparr>ml_clock := ml_clock m + millisecond\<rparr>)),
     rand_Intn = (\<lambda>n m. (0, m)),
     TimeUUID = (\<lambda>m. (Suc (sum_list (mem_ids m)), m)),
     ParseUUID = (\<lambda>s. if list_all (\<lambda>c. c = CHR ''x'') s then Inr (length s) else Inl (ErrMsg ''invalid UUID'')),
     UUIDString = (\<lambda>i. replicate i (CHR ''x'')),
     sha256Hex = (\<lambda>s. s),
     qExec = (\<lambda>c. mem_write (mem_apply c)),
     qBatch = (\<lambda>cs. mem_write (fold mem_apply cs)),
     casIdem = (\<lambda>s k i h t n. mem_cas strict 5 n (\<lambda>m. map_of (ml_idempotency_keys m) (s, k))
       (\<lambda>m. m\<lparr>ml_idempotency_keys := AList.update (s, k) (i, h, cql_ts t) (ml_idempotency_keys m)\<rparr>)
       (\<lambda>r. case r of None \<Rightarrow> (True, 0) | Some (j, _) \<Rightarrow> (False, j))),
     casInbox = (\<lambda>c k t n. mem_cas strict 3 n (\<lambda>m. map_of (ml_inbox_consumed m) (c, k))
       (\<lambda>m. m\<lparr>ml_inbox_consumed := AList.update (c, k) (cql_ts t) (ml_inbox_consumed m)\<rparr>)
       (\<lambda>r. r = None)),
     casLease = (\<lambda>ow t i now n. mem_lease ow t i now),
     selEventById = (\<lambda>i. mem_sel (\<lambda>m. map_of (ml_events_by_id m) i)),
     selOutbox = (\<lambda>i. mem_sel (\<lambda>m. map_of (ml_outbox_events m) i)),
     selRetry = (\<lambda>i. mem_sel (\<lambda>m. map_of (ml_outbox_retry_state m) i)),
     selDeadLetter = (\<lambda>i. mem_sel (\<lambda>m. map_of (ml_dead_letters_by_id m) i)),
     iterPending = (\<lambda>st n m. ((take (nat n) (mem_rows (ml_outbox_by_state m) (\<lambda>(st', _, _). st' = st)
       (\<lambda>(_, t, i) v. (t, i, v)) fst), None), m)),
     iterRecent = (\<lambda>s n m. ((take (nat n) (mem_rows (ml_events_by_stream m) (\<lambda>(s', _, _). s' = s)
       (\<lambda>(_, t, i) v. (i, t, v)) (\<lambda>r. - fst (snd r))), None), m)),
     iterDead = (\<lambda>b n m. ((take (nat n) (mem_rows (ml_dead_letters_by_time m) (\<lambda>(b', _, _). b' = b)
       (\<lambda>(_, t, i) v. (t, i, v)) fst), None), m)),
     iterIdem = (\<lambda>b n m. ((take (nat n) (mem_rows (ml_idempotency_by_created m) (\<lambda>(b', _). b' = b)
       (\<lambda>(_, t, s, k) v. (t, s, k)) fst), None), m))\<rparr>"

lemma mem_session_cas: "cas_ok (mem_session strict) mem_view"
  unfolding cas_ok_def mem_session_def session.simps
proof (intro conjI allI impI)
  fix s k i h t n
  show "transacts mem_view (mem_cas strict 5 n (\<lambda>m. map_of (ml_idempotency_keys m) (s, k))
       (\<lambda>m. m\<lparr>ml_idempotency_keys := AList.update (s, k) (i, h, cql_ts t) (ml_idempotency_keys m)\<rparr>)
       (\<lambda>r. case r of None \<Rightarrow> (True, 0) | Some (j, _) \<Rightarrow> (False, j)))
     fst (\<lambda>v. idempotency_keys v (s, k) = None) (put_idem s k i h t)"
    by (rule mem_cas_ok) (auto simp: mem_view_def put_idem_def AList.update_conv')
next
  fix s k i h t n w i' w'
  assume "mem_cas strict 5 n (\<lambda>m. map_of (ml_idempotency_keys m) (s, k))
       (\<lambda>m. m\<lparr>ml_idempotency_keys := AList.update (s, k) (i, h, cql_ts t) (ml_idempotency_keys m)\<rparr>)
       (\<lambda>r. case r of None \<Rightarrow> (True, 0) | Some (j, _) \<Rightarrow> (False, j)) w = (Inr (False, i'), w')"
  then show "\<exists>r. idempotency_keys (mem_view w) (s, k) = Some (i', r)"
    using mem_pop_view[of w] unfolding mem_cas_def
    by (auto simp: mem_view_def split: prod.splits if_splits option.splits)
next
  fix c m t n
  show "transacts mem_view (mem_cas strict 3 n (\<lambda>ma. map_of (ml_inbox_consumed ma) (c, m))
       (\<lambda>ma. ma\<lparr>ml_inbox_consumed := AList.update (c, m) (cql_ts t) (ml_inbox_consumed ma)\<rparr>) (\<lambda>r. r = None))
     (\<lambda>b. b) (\<lambda>v. inbox_consumed v (c, m) = None) (put_inbox c m t)"
    by (rule mem_cas_ok) (auto simp: mem_view_def put_inbox_def AList.update_conv')
next
  fix ow t i now n
  show "transacts mem_view (mem_lease ow t i now) (\<lambda>b. b) (\<lambda>v. lease_before v i now) (put_lease ow t i)"
    by (rule mem_lease_ok)
qed

lemma mem_session_scans: "scans_ok (mem_session strict) mem_view"
  unfolding scans_ok_def mem_session_def session.simps
proof (intro conjI allI)
  fix st n
  show "scans mem_view (\<lambda>m. ((take (nat n) (mem_rows (ml_outbox_by_state m) (\<lambda>(st', _, _). st' = st)
       (\<lambda>(_, t, i) v. (t, i, v)) fst), None), m)) n (pending_rows st) (\<lambda>a b. fst a \<le> fst b)"
    by (rule mem_scans) (auto simp: set_mem_rows pending_rows_def mem_view_def
        intro!: distinct_mem_rows sorted_mem_rows)
next
  fix s n
  show "scans mem_view (\<lambda>m. ((take (nat n) (mem_rows (ml_events_by_stream m) (\<lambda>(s', _, _). s' = s)
       (\<lambda>(_, t, i) v. (i, t, v)) (\<lambda>r. - fst (snd r))), None), m)) n (recent_rows s)
     (\<lambda>a b. fst (snd a) \<ge> fst (snd b))"
  proof (rule mem_scans)
    fix w :: mem
    have "sorted_wrt (\<lambda>a b. fst (snd b) \<le> fst (snd a)) (mem_rows (ml_events_by_stream w) (\<lambda>(s', _, _). s' = s)
       (\<lambda>(_, t, i) v. (i, t, v)) (\<lambda>r. - fst (snd r)))"
      using sorted_mem_rows[of "\<lambda>r. - fst (snd r)"] by simp
    then show "distinct (mem_rows (ml_events_by_stream w) (\<lambda>(s', _, _). s' = s)
       (\<lambda>(_, t, i) v. (i, t, v)) (\<lambda>r. - fst (snd r))) \<and>
      set (mem_rows (ml_events_by_stream w) (\<lambda>(s', _, _). s' = s) (\<lambda>(_, t, i) v. (i, t, v)) (\<lambda>r. - fst (snd r))) =
        recent_rows s (mem_view w) \<and>
      sorted_wrt (\<lambda>a b. fst (snd a) \<ge> fst (snd b)) (mem_rows (ml_events_by_stream w) (\<lambda>(s', _, _). s' = s)
       (\<lambda>(_, t, i) v. (i, t, v)) (\<lambda>r. - fst (snd r)))"
      by (auto simp: set_mem_rows recent_rows_def mem_view_def intro!: distinct_mem_rows)
  qed simp_all
next
  fix b n
  show "scans mem_view (\<lambda>m. ((take (nat n) (mem_rows (ml_dead_letters_by_time m) (\<lambda>(b', _, _). b' = b)
       (\<lambda>(_, t, i) v. (t, i, v)) fst), None), m)) n (dead_rows b) (\<lambda>a b. fst a \<le> fst b)"
    by (rule mem_scans) (auto simp: set_mem_rows dead_rows_def mem_view_def
        intro!: distinct_mem_rows sorted_mem_rows)
next
  fix b n
  show "scans mem_view (\<lambda>m. ((take (nat n) (mem_rows (ml_idempotency_by_created m) (\<lambda>(b', _). b' = b)
       (\<lambda>(_, t, s, k) v. (t, s, k)) fst), None), m)) n (idem_rows b) (\<lambda>a b. fst a \<le> fst b)"
    by (rule mem_scans) (auto simp: set_mem_rows idem_rows_def mem_view_def
        intro!: distinct_mem_rows sorted_mem_rows)
qed

lemma mem_session_ok: "cql_ok (mem_session strict) mem_view"
proof -
  have "writes_ok (mem_session strict) mem_view"
    by (simp add: writes_ok_def mem_session_def mem_write_ok mem_apply_view mem_fold_view)
  moreover have "selects_ok (mem_session strict) mem_view"
    by (simp add: selects_ok_def mem_session_def mem_sel_ok mem_view_def)
  moreover have "Suc (sum_list (mem_ids w)) \<notin> used_ids (mem_view w)" for w
    using mem_ids_used[of w] member_le_sum_list[of _ "mem_ids w"] by fastforce
  then have "sources_ok (mem_session strict) mem_view"
    by (simp add: sources_ok_def mem_session_def reads_def mem_view_def list_all_iff)
  ultimately show ?thesis by (simp add: cql_ok_def mem_session_cas mem_session_scans)
qed

end
