(* ===== verification/Cass_Properties.thy ===== *)
theory Cass_Properties
  imports Cass_Refine Cql_Memory "HOL-Library.Sublist"
begin

text \<open>
  What the event store promises, for every session that behaves as documented (\<open>cql_ok\<close>): the
  table invariant in every run, exactly-once appending and consuming, publishing, and the list of
  pending events.
\<close>

section \<open>Definitions the properties use\<close>

definition stream_of :: "EventRecord \<Rightarrow> string" where
  "stream_of ev = (if evStream ev = [] then ''default'' else evStream ev)"

text \<open>The rows of a newly appended event.\<close>

definition stored_pending :: "tables \<Rightarrow> uuid \<Rightarrow> EventRecord \<Rightarrow> bool" where
  "stored_pending v i ev \<longleftrightarrow>
     events_by_id v i = Some (cql_ts (evOccurredAt ev), event_msg ev) \<and>
     events_by_stream v (evStream ev, cql_ts (evOccurredAt ev), i) = Some (evSubject ev, evType ev, evPayload ev) \<and>
     map_option ob_state (outbox_events v i) = Some (Some ''pending'') \<and>
     outbox_by_state v (''pending'', cql_ts (evOccurredAt ev), i) = Some (event_msg ev) \<and>
     map_option rt_count (outbox_retry_state v i) = Some (Some 0) \<and>
     map_option rt_quarantined (outbox_retry_state v i) = Some (Some False) \<and>
     map_option rt_lease (outbox_retry_state v i) = Some (Some 0)"

definition outbox_published :: "tables \<Rightarrow> uuid \<Rightarrow> bool" where
  "outbox_published v i \<longleftrightarrow> map_option ob_state (outbox_events v i) = Some (Some ''published'')"

text \<open>Sample events and states for the witnesses.\<close>

definition ev0 :: EventRecord where
  "ev0 = zeroEvent\<lparr>evIdempotencyKey := ''k1'', evSubject := ''orders'', evType := ''created'',
     evPayload := ''{}''\<rparr>"

abbreviation M :: "mem session option" where "M \<equiv> Some (mem_session False)"

definition mem0 :: mem where "mem0 = mem_empty (5 * second)"

definition mem1 :: mem where "mem1 = snd (AppendEventExactlyOnce M ev0 mem0)"

section \<open>The invariant\<close>

text \<open>C4: In every run of the service that starts from empty tables, whatever operations are called
  with whatever arguments in whatever order, cleanup included, and whichever of their statements
  fail or time out, the tables agree with each other: the two event tables hold the same
  events, every event has its outbox row, the index lists exactly the pending outbox rows, every dead letter
  belongs to an event, and no identifier belongs to two idempotency keys.\<close>

theorem store_invariant:
  assumes "cql_ok S view" and "view w0 = empty_tables" and "(full_step S view)\<^sup>*\<^sup>* w0 w"
  shows "store_inv (view w)"
proof -
  have "store_inv (view w0)" using assms(2) store_inv_empty by simp
  from full_txs_inv[OF full_run_tx[OF assms(3,1) this] this] show ?thesis .
qed

lemma mem0_empty: "mem_view mem0 = empty_tables"
  by (simp add: mem0_def mem_view_def mem_empty_def empty_tables_def map_of.simps(1)[abs_def] fun_eq_iff)

theorem store_invariant_witness:
  "store_inv (mem_view (snd (RecordOutboxFailure M ''x'' ''boom'' second minute 20 1 mem1)))"
proof -
  have "full_step (mem_session False) mem_view mem0 mem1"
    unfolding mem1_def by (intro fs_step st_append)
  moreover have "full_step (mem_session False) mem_view mem1
      (snd (RecordOutboxFailure M ''x'' ''boom'' second minute 20 1 mem1))"
    by (intro fs_step st_failure)
  ultimately show ?thesis
    by (intro store_invariant[OF mem_session_ok[of False] mem0_empty])
      (rule converse_rtranclp_into_rtranclp[OF _ r_into_rtranclp])
qed

section \<open>Appending\<close>

lemma appendBatch_success:
  assumes ok: "cql_ok S view" and "appendBatch S ev i w = (Inr r, w')"
  shows "r = \<lparr>arEvent = ev\<lparr>evID := UUIDString S i\<rparr>, arDuplicate = False, arPublished = False\<rparr> \<and>
    view w' = fold apply_cql (append_stmts ev i) (view w)"
proof -
  obtain q w1 where b: "qBatch S (append_stmts ev i) w = (q, w1)" by fastforce
  from assms(2) b cql_batch[OF ok b] show ?thesis
    by (cases q) (simp_all add: appendBatch_def)
qed

text \<open>A keyed append whose key is new.\<close>

lemma appendKeyed_new:
  assumes ok: "cql_ok S view" and "idempotency_keys (view w) (evStream ev, evIdempotencyKey ev) = None"
    and "appendKeyed S ev i w = (Inr r, w')"
  shows "\<exists>h t t2. r = \<lparr>arEvent = ev\<lparr>evID := UUIDString S i\<rparr>, arDuplicate = False, arPublished = False\<rparr> \<and>
    view w' = fold apply_cql (append_stmts ev i)
      (apply_cql (InsIdemByCreated allBucket t2 (evStream ev) (evIdempotencyKey ev) i)
        (put_idem (evStream ev) (evIdempotencyKey ev) i h t (view w)))"
proof -
  obtain t w1 where n: "time_Now S w = (t, w1)" by fastforce
  obtain c w2 where c: "casIdem S (evStream ev) (evIdempotencyKey ev) i (sha256Hex S (evPayload ev)) t 1 w1 = (c, w2)"
    by fastforce
  obtain t2 w3 where n2: "time_Now S w2 = (t2, w3)" by fastforce
  let ?c = "InsIdemByCreated allBucket t2 (evStream ev) (evIdempotencyKey ev) i"
  obtain q w4 where e: "qExec S ?c w3 = (q, w4)" by fastforce
  have v1: "view w1 = view w" by (rule cql_now[OF ok n])
  from assms(3) n c obtain a j where x: "c = Inr (a, j)"
    by (cases c) (auto simp: appendKeyed_def)
  with cql_cas_idem[OF ok c] v1 assms(2) have a: "a" and
    v2: "view w2 = put_idem (evStream ev) (evIdempotencyKey ev) i (sha256Hex S (evPayload ev)) t (view w)"
    by auto
  from assms(3) n c x a n2 e obtain u where q: "q = Inr u" and b: "appendBatch S ev i w4 = (Inr r, w')"
    by (cases q) (auto simp: appendKeyed_def)
  have "view w4 = apply_cql ?c (view w2)" using cql_exec[OF ok e] q cql_now[OF ok n2] by simp
  with appendBatch_success[OF ok b] v2 show ?thesis by metis
qed

text \<open>A keyed append whose key is taken.\<close>

lemma appendKeyed_taken:
  assumes ok: "cql_ok S view" and "idempotency_keys (view w) (evStream ev, evIdempotencyKey ev) = Some (i, q)"
    and "appendKeyed S ev n w = (res, w')"
  shows "view w' = view w \<and> (\<forall>r. res = Inr r \<longrightarrow>
    (\<exists>w2. view w2 = view w \<and> appendDuplicate S ev i w2 = (Inr r, w')))"
proof -
  obtain t w1 where n: "time_Now S w = (t, w1)" by fastforce
  obtain c w2 where c: "casIdem S (evStream ev) (evIdempotencyKey ev) n (sha256Hex S (evPayload ev)) t 1 w1 = (c, w2)"
    by fastforce
  have v: "view w2 = view w" using cql_cas_idem[OF ok c] cql_now[OF ok n] assms(2) by auto
  show ?thesis
  proof (cases c)
    case (Inl e)
    with n c v assms(3) show ?thesis by (auto simp: appendKeyed_def)
  next
    case (Inr x)
    obtain a j where x: "x = (a, j)" by fastforce
    have "\<not> a \<and> j = i" using cql_cas_idem[OF ok c] Inr x cql_now[OF ok n] assms(2) by auto
    then have "appendDuplicate S ev i w2 = (res, w')" using n c Inr x assms(3) by (simp add: appendKeyed_def)
    with v view_appendDuplicate[OF ok, of ev i w2] show ?thesis by auto
  qed
qed

lemma appendDefaults_result:
  "fst (appendDefaults S ev w) = ev\<lparr>evStream := stream_of ev, evOccurredAt := evOccurredAt (fst (appendDefaults S ev w))\<rparr> \<and>
   (\<not> isZero (evOccurredAt ev) \<longrightarrow> evOccurredAt (fst (appendDefaults S ev w)) = evOccurredAt ev)"
  by (simp add: appendDefaults_def stream_of_def Let_def split_beta)

text \<open>Every append goes through its defaults and a fresh identifier.\<close>

lemma append_start:
  assumes ok: "cql_ok S view" and "AppendEventExactlyOnce (Some S) ev w = (res, w')"
  shows "\<exists>ev1 i w2. view w2 = view w \<and> i \<notin> used_ids (view w) \<and>
    ev1 = ev\<lparr>evStream := stream_of ev, evOccurredAt := evOccurredAt ev1\<rparr> \<and>
    (\<not> isZero (evOccurredAt ev) \<longrightarrow> evOccurredAt ev1 = evOccurredAt ev) \<and>
    (res, w') = (if evIdempotencyKey ev \<noteq> [] then appendKeyed S ev1 i w2 else appendBatch S ev1 i w2)"
proof -
  obtain ev1 w1 where d: "appendDefaults S ev w = (ev1, w1)" by fastforce
  obtain i w2 where u: "TimeUUID S w1 = (i, w2)" by fastforce
  have e: "ev1 = ev\<lparr>evStream := stream_of ev, evOccurredAt := evOccurredAt ev1\<rparr> \<and>
      (\<not> isZero (evOccurredAt ev) \<longrightarrow> evOccurredAt ev1 = evOccurredAt ev)"
    using appendDefaults_result[of S ev w] d by simp
  from arg_cong[OF conjunct1[OF e], of evIdempotencyKey]
  have "evIdempotencyKey ev1 = evIdempotencyKey ev" by simp
  with assms(2) d u have "(res, w') =
      (if evIdempotencyKey ev \<noteq> [] then appendKeyed S ev1 i w2 else appendBatch S ev1 i w2)"
    by (simp add: AppendEventExactlyOnce_def split: if_splits)
  moreover have "view w2 = view w" "i \<notin> used_ids (view w)"
    using view_appendDefaults[OF ok, of ev w] d cql_uuid[OF ok u] by auto
  ultimately show ?thesis using e by blast
qed

text \<open>An append that does not meet its key again.\<close>

lemma append_new:
  assumes ok: "cql_ok S view"
    and k: "evIdempotencyKey ev = [] \<or> idempotency_keys (view w) (stream_of ev, evIdempotencyKey ev) = None"
    and a: "AppendEventExactlyOnce (Some S) ev w = (Inr r, w')"
  obtains ev1 i v0 where "i \<notin> used_ids (view w)"
    and "ev1 = ev\<lparr>evStream := stream_of ev, evOccurredAt := evOccurredAt ev1\<rparr>"
    and "\<not> isZero (evOccurredAt ev) \<Longrightarrow> evOccurredAt ev1 = evOccurredAt ev"
    and "r = \<lparr>arEvent = ev1\<lparr>evID := UUIDString S i\<rparr>, arDuplicate = False, arPublished = False\<rparr>"
    and "view w' = fold apply_cql (append_stmts ev1 i) v0"
    and "events_by_id v0 = events_by_id (view w)" and "outbox_events v0 = outbox_events (view w)"
    and "evIdempotencyKey ev \<noteq> [] \<Longrightarrow>
      map_option fst (idempotency_keys v0 (stream_of ev, evIdempotencyKey ev)) = Some i"
proof -
  from append_start[OF ok a] obtain ev1 i w2 where v: "view w2 = view w" and fr: "i \<notin> used_ids (view w)"
    and e1: "ev1 = ev\<lparr>evStream := stream_of ev, evOccurredAt := evOccurredAt ev1\<rparr>"
    and t: "\<not> isZero (evOccurredAt ev) \<longrightarrow> evOccurredAt ev1 = evOccurredAt ev"
    and res: "(Inr r, w') = (if evIdempotencyKey ev \<noteq> [] then appendKeyed S ev1 i w2 else appendBatch S ev1 i w2)"
    by blast
  have f: "evStream ev1 = stream_of ev" "evIdempotencyKey ev1 = evIdempotencyKey ev"
    by (subst e1, simp)+
  show thesis
  proof (cases "evIdempotencyKey ev = []")
    case True
    with res have "appendBatch S ev1 i w2 = (Inr r, w')" by simp
    from appendBatch_success[OF ok this] v fr e1 t True show thesis by (intro that[of i ev1 "view w2"]) simp_all
  next
    case False
    with res have b: "appendKeyed S ev1 i w2 = (Inr r, w')" by simp
    have "idempotency_keys (view w2) (evStream ev1, evIdempotencyKey ev1) = None" using False k v f by simp
    from appendKeyed_new[OF ok this b] obtain h t1 t2 where n:
      "r = \<lparr>arEvent = ev1\<lparr>evID := UUIDString S i\<rparr>, arDuplicate = False, arPublished = False\<rparr>"
      "view w' = fold apply_cql (append_stmts ev1 i)
        (apply_cql (InsIdemByCreated allBucket t2 (evStream ev1) (evIdempotencyKey ev1) i)
          (put_idem (evStream ev1) (evIdempotencyKey ev1) i h t1 (view w2)))" by blast
    show thesis by (rule that[OF fr e1 _ n]) (use v f t in \<open>simp_all add: put_idem_def\<close>)
  qed
qed

text \<open>C15: A successful append without an idempotency key, or with one that the stream has not seen,
  creates one new event: under an identifier not in use before, with the defaults for stream and
  time, in both event tables, in the outbox as pending, in the pending index, with a clean retry row;
  the key, if any, is bound to it, and no other event is touched. The result says that it is
  neither a duplicate nor published.\<close>

theorem append_creates:
  assumes "cql_ok S view"
    and "evIdempotencyKey ev = [] \<or> idempotency_keys (view w) (stream_of ev, evIdempotencyKey ev) = None"
    and "AppendEventExactlyOnce (Some S) ev w = (Inr r, w')"
  shows "\<exists>i. i \<notin> used_ids (view w) \<and>
    arEvent r = ev\<lparr>evStream := stream_of ev, evOccurredAt := evOccurredAt (arEvent r), evID := UUIDString S i\<rparr> \<and>
    (\<not> isZero (evOccurredAt ev) \<longrightarrow> evOccurredAt (arEvent r) = evOccurredAt ev) \<and>
    \<not> arDuplicate r \<and> \<not> arPublished r \<and> stored_pending (view w') i (arEvent r) \<and>
    (evIdempotencyKey ev \<noteq> [] \<longrightarrow>
       map_option fst (idempotency_keys (view w') (stream_of ev, evIdempotencyKey ev)) = Some i) \<and>
    (\<forall>j. j \<noteq> i \<longrightarrow> events_by_id (view w') j = events_by_id (view w) j \<and>
       outbox_events (view w') j = outbox_events (view w) j)"
proof (rule append_new[OF assms])
  fix ev1 i v0
  assume fr: "i \<notin> used_ids (view w)"
    and e1: "ev1 = ev\<lparr>evStream := stream_of ev, evOccurredAt := evOccurredAt ev1\<rparr>"
    and s: "\<not> isZero (evOccurredAt ev) \<Longrightarrow> evOccurredAt ev1 = evOccurredAt ev"
      "r = \<lparr>arEvent = ev1\<lparr>evID := UUIDString S i\<rparr>, arDuplicate = False, arPublished = False\<rparr>"
      "view w' = fold apply_cql (append_stmts ev1 i) v0"
      "events_by_id v0 = events_by_id (view w)" "outbox_events v0 = outbox_events (view w)"
      "evIdempotencyKey ev \<noteq> [] \<Longrightarrow>
         map_option fst (idempotency_keys v0 (stream_of ev, evIdempotencyKey ev)) = Some i"
  show ?thesis
  proof (intro exI[of _ i] conjI)
    show "stored_pending (view w') i (arEvent r)"
      by (simp add: s stored_pending_def append_stmts_def event_msg_def)
    show "arEvent r = ev\<lparr>evStream := stream_of ev, evOccurredAt := evOccurredAt (arEvent r), evID := UUIDString S i\<rparr>"
      unfolding s by (subst e1) simp
  qed (use s fr in \<open>simp_all add: append_stmts_def\<close>)
qed

lemma mem1_append: "AppendEventExactlyOnce M ev0 mem0 =
    (Inr \<lparr>arEvent = ev0\<lparr>evStream := ''default'', evOccurredAt := 5 * second, evID := ''x''\<rparr>,
       arDuplicate = False, arPublished = False\<rparr>, mem1)"
proof (rule prod_eqI)
  show "fst (AppendEventExactlyOnce M ev0 mem0) = fst (Inr \<lparr>arEvent = ev0\<lparr>evStream := ''default'',
      evOccurredAt := 5 * second, evID := ''x''\<rparr>, arDuplicate = False, arPublished = False\<rparr>, mem1)"
    by code_simp
qed (simp add: mem1_def)

theorem append_creates_witness:
  "\<exists>i. i \<notin> used_ids (mem_view mem0) \<and> stored_pending (mem_view mem1) i
     (ev0\<lparr>evStream := ''default'', evOccurredAt := 5 * second, evID := ''x''\<rparr>)"
  using append_creates[OF mem_session_ok _ mem1_append] by (auto simp: mem0_empty empty_tables_def)

text \<open>An append that meets its key again comes down to the duplicate branch.\<close>

lemma append_taken:
  assumes ok: "cql_ok S view" and k: "evIdempotencyKey ev \<noteq> []"
    and i: "idempotency_keys (view w) (stream_of ev, evIdempotencyKey ev) = Some (i, q)"
    and a: "AppendEventExactlyOnce (Some S) ev w = (res, w')"
  shows "view w' = view w \<and> (\<forall>r. res = Inr r \<longrightarrow>
    (\<exists>ev1 w3. view w3 = view w \<and> appendDuplicate S ev1 i w3 = (Inr r, w')))"
proof -
  from append_start[OF ok a] obtain ev1 n w2 where v: "view w2 = view w"
    and e1: "ev1 = ev\<lparr>evStream := stream_of ev, evOccurredAt := evOccurredAt ev1\<rparr>"
    and "(res, w') = (if evIdempotencyKey ev \<noteq> [] then appendKeyed S ev1 n w2 else appendBatch S ev1 n w2)"
    by blast
  with k have res: "appendKeyed S ev1 n w2 = (res, w')" by simp
  have "idempotency_keys (view w2) (evStream ev1, evIdempotencyKey ev1) = Some (i, q)"
    unfolding v by (subst (1 2) e1) (simp add: i)
  from appendKeyed_taken[OF ok this res] v show ?thesis by auto
qed

text \<open>The duplicate branch reads the stored event and its state.\<close>

lemma appendDuplicate_result:
  assumes ok: "cql_ok S view" and d: "appendDuplicate S ev i w = (Inr r, w')"
  shows "arDuplicate r \<and> evID (arEvent r) = UUIDString S i \<and>
    events_by_id (view w) i = Some (evOccurredAt (arEvent r), event_msg (arEvent r)) \<and>
    (arPublished r \<longleftrightarrow> outbox_published (view w) i)"
proof -
  obtain e w4 where s: "selEventById S i w = (e, w4)" by fastforce
  note s' = selectsD[OF cql_sel_event[OF ok] s]
  with d s obtain t m where e: "e = Inr (t, m)" by (cases e) (auto simp: appendDuplicate_def)
  obtain p w5 where p: "isOutboxPublished S i w4 = (p, w5)" by fastforce
  from d s e p obtain b where b: "p = Inr b" by (cases p) (auto simp: appendDuplicate_def Let_def)
  obtain row w6 where o: "selOutbox S i w4 = (row, w6)" by fastforce
  have "b \<longleftrightarrow> outbox_published (view w) i"
    using p b o selectsD[OF cql_sel_outbox[OF ok] o] s'
    by (cases row) (auto simp: isOutboxPublished_def outbox_published_def scan_text_def split: option.splits)
  with d s e p b s' show ?thesis by (auto simp: appendDuplicate_def Let_def event_msg_def)
qed

text \<open>C16: Appending again under an idempotency key the stream already has writes nothing at all. If
  the call succeeds, it reports a duplicate, with the identifier bound to the key and the columns of the event
  stored first, and says that it is published exactly when the outbox row of that event is.\<close>

theorem append_duplicate:
  assumes "cql_ok S view" and "evIdempotencyKey ev \<noteq> []"
    and "idempotency_keys (view w) (stream_of ev, evIdempotencyKey ev) = Some (i, q)"
    and "AppendEventExactlyOnce (Some S) ev w = (res, w')"
  shows "view w' = view w \<and> (\<forall>r. res = Inr r \<longrightarrow>
    arDuplicate r \<and> evID (arEvent r) = UUIDString S i \<and>
    events_by_id (view w) i = Some (evOccurredAt (arEvent r), event_msg (arEvent r)) \<and>
    (arPublished r \<longleftrightarrow> outbox_published (view w) i))"
  using append_taken[OF assms] appendDuplicate_result[OF assms(1)] by metis

theorem append_duplicate_witness:
  "mem_view (snd (AppendEventExactlyOnce M (ev0\<lparr>evPayload := ''other''\<rparr>) mem1)) = mem_view mem1 \<and>
   map_option (\<lambda>r. evPayload (arEvent r)) (case fst (AppendEventExactlyOnce M (ev0\<lparr>evPayload := ''other''\<rparr>) mem1)
     of Inr r \<Rightarrow> Some r | Inl _ \<Rightarrow> None) = Some ''{}''"
proof -
  let ?e = "ev0\<lparr>evPayload := ''other''\<rparr>"
  have k: "idempotency_keys (mem_view mem1) (stream_of ?e, evIdempotencyKey ?e) = Some (1, ''{}'', 5 * second + millisecond)"
    unfolding mem_view_def tables.simps by code_simp
  have n: "evIdempotencyKey ?e \<noteq> []" by code_simp
  have "mem_view (snd (AppendEventExactlyOnce M ?e mem1)) = mem_view mem1"
    using append_duplicate[OF mem_session_ok n k] by (metis surj_pair snd_conv)
  moreover have "map_option (\<lambda>r. evPayload (arEvent r)) (case fst (AppendEventExactlyOnce M ?e mem1)
     of Inr r \<Rightarrow> Some r | Inl _ \<Rightarrow> None) = Some ''{}''"
    by code_simp
  ultimately show ?thesis ..
qed

lemma txs_keep_key: "tx\<^sup>*\<^sup>* v v' \<Longrightarrow> idempotency_keys v k = Some x \<Longrightarrow> idempotency_keys v' k = Some x"
  by (induction rule: rtranclp_induct) (auto intro: tx_keeps_key)

lemma full_txs_keep_inbox:
  "(sup tx tx_gc)\<^sup>*\<^sup>* v v' \<Longrightarrow> inbox_consumed v k = Some x \<Longrightarrow> inbox_consumed v' k = Some x"
  by (induction rule: rtranclp_induct) (auto intro: tx_keeps_inbox simp: tx_gc_keeps)

text \<open>The key of a successful append.\<close>

lemma append_binds_key:
  assumes "cql_ok S view" and "evIdempotencyKey ev \<noteq> []"
    and "AppendEventExactlyOnce (Some S) ev w = (Inr r, w')"
  shows "\<exists>i q. idempotency_keys (view w') (stream_of ev, evIdempotencyKey ev) = Some (i, q) \<and>
    evID (arEvent r) = UUIDString S i"
proof (cases "idempotency_keys (view w) (stream_of ev, evIdempotencyKey ev)")
  case None
  show ?thesis
  proof (rule append_new[OF assms(1) disjI2[OF None] assms(3)])
    fix ev1 i v0
    assume "r = \<lparr>arEvent = ev1\<lparr>evID := UUIDString S i\<rparr>, arDuplicate = False, arPublished = False\<rparr>"
      and "view w' = fold apply_cql (append_stmts ev1 i) v0"
      and "evIdempotencyKey ev \<noteq> [] \<Longrightarrow>
         map_option fst (idempotency_keys v0 (stream_of ev, evIdempotencyKey ev)) = Some i"
    with assms(2) show ?thesis by (auto simp: append_stmts_def)
  qed
next
  case (Some x)
  obtain i q where x: "x = (i, q)" by (cases x)
  from append_taken[OF assms(1,2) Some[unfolded x] assms(3)] Some x appendDuplicate_result[OF assms(1)]
  show ?thesis by auto
qed

text \<open>C5: Exactly once. After a successful append under an idempotency key, and after any further
  operations of the service short of the retention cleanup, appending again under the same key
  writes nothing, and if it succeeds it reports a duplicate with the identifier of the first append.\<close>

theorem append_exactly_once:
  assumes "cql_ok S view" and "store_inv (view w)" and "evIdempotencyKey ev \<noteq> []"
    and "AppendEventExactlyOnce (Some S) ev w = (Inr r, w1)"
    and "(store_step S view)\<^sup>*\<^sup>* w1 w2"
    and "stream_of ev' = stream_of ev" and "evIdempotencyKey ev' = evIdempotencyKey ev"
    and "AppendEventExactlyOnce (Some S) ev' w2 = (res, w3)"
  shows "view w3 = view w2 \<and>
    (\<forall>r'. res = Inr r' \<longrightarrow> arDuplicate r' \<and> evID (arEvent r') = evID (arEvent r))"
proof -
  have "store_inv (view w1)"
    using txs_inv[OF refines_Append[OF assms(1)] assms(2), of ev] assms(4) by simp
  from store_run_tx[OF assms(5,1) this] have t: "tx\<^sup>*\<^sup>* (view w1) (view w2)" .
  from append_binds_key[OF assms(1,3,4)] obtain i q where
    k: "idempotency_keys (view w1) (stream_of ev, evIdempotencyKey ev) = Some (i, q)"
    and e: "evID (arEvent r) = UUIDString S i" by blast
  have k': "evIdempotencyKey ev' \<noteq> []" "idempotency_keys (view w2) (stream_of ev', evIdempotencyKey ev') = Some (i, q)"
    using txs_keep_key[OF t k] assms(3,6,7) by simp_all
  from append_taken[OF assms(1) k' assms(8)] appendDuplicate_result[OF assms(1)] e show ?thesis by metis
qed

theorem append_exactly_once_witness:
  "\<exists>res w3. AppendEventExactlyOnce M ev0 (snd (MarkOutboxPublished M ''x'' ''b7'' mem1)) = (Inr res, w3) \<and>
     mem_view w3 = mem_view (snd (MarkOutboxPublished M ''x'' ''b7'' mem1)) \<and> arDuplicate res \<and> evID (arEvent res) = ''x''"
proof -
  let ?w2 = "snd (MarkOutboxPublished M ''x'' ''b7'' mem1)"
  obtain res w3 where a: "AppendEventExactlyOnce M ev0 ?w2 = (res, w3)" by fastforce
  have "isl (fst (AppendEventExactlyOnce M ev0 ?w2)) = False" by code_simp
  with a obtain r' where r: "res = Inr r'" by (cases res) auto
  have k: "evIdempotencyKey ev0 \<noteq> []" by code_simp
  have i: "store_inv (mem_view mem0)" using store_inv_empty mem0_empty by simp
  have "(store_step (mem_session False) mem_view)\<^sup>*\<^sup>* mem1 ?w2" by (rule r_into_rtranclp, rule st_mark)
  from append_exactly_once[OF mem_session_ok i k mem1_append this refl refl a] a r show ?thesis by auto
qed

section \<open>Consuming\<close>

lemma claimInbox_result:
  assumes ok: "cql_ok S view" and c: "ClaimInboxMessage (Some S) c m w = (res, w')"
  shows "(\<forall>b. res = Inr b \<longrightarrow> b = (inbox_consumed (view w) (c, m) = None) \<and> (b \<longrightarrow> inbox_consumed (view w') (c, m) \<noteq> None)) \<and>
    (inbox_consumed (view w) (c, m) \<noteq> None \<longrightarrow> view w' = view w)"
proof -
  obtain t w1 where n: "time_Now S w = (t, w1)" by fastforce
  obtain r w2 where i: "casInbox S c m t 1 w1 = (r, w2)" by fastforce
  from cql_cas_inbox[OF ok i] cql_now[OF ok n] n i c show ?thesis
    by (auto simp: ClaimInboxMessage_def put_inbox_def)
qed

text \<open>C17: A message is claimed once per consumer. A first claim that answers is granted; after a granted claim no later
  claim by the same consumer is granted again, whatever the service did in between, cleanup
  included, and such a claim changes nothing.\<close>

theorem inbox_claim_once:
  assumes "cql_ok S view" and "store_inv (view w)"
    and "ClaimInboxMessage (Some S) c m w = (Inr b, w1)"
    and "(full_step S view)\<^sup>*\<^sup>* w1 w2"
    and "ClaimInboxMessage (Some S) c m w2 = (res, w3)"
  shows "(inbox_consumed (view w) (c, m) = None \<longrightarrow> b) \<and> res \<noteq> Inr True \<and> view w3 = view w2"
proof -
  have "store_inv (view w1)"
    using txs_inv[OF refines_ClaimInbox[OF assms(1)] assms(2), of c m] assms(3) by simp
  from full_run_tx[OF assms(4,1) this] have t: "(sup tx tx_gc)\<^sup>*\<^sup>* (view w1) (view w2)" .
  have "inbox_consumed (view w1) (c, m) \<noteq> None"
    using claimInbox_result[OF assms(1,3)] by (cases b) auto
  then obtain x where "inbox_consumed (view w1) (c, m) = Some x" by blast
  from full_txs_keep_inbox[OF t this] claimInbox_result[OF assms(1,5)] claimInbox_result[OF assms(1,3)]
  show ?thesis by auto
qed

theorem inbox_claim_once_witness:
  "fst (ClaimInboxMessage M ''stream-api'' ''m1'' mem0) = Inr True \<and>
   fst (ClaimInboxMessage M ''stream-api'' ''m1'' (snd (ClaimInboxMessage M ''stream-api'' ''m1'' mem0))) \<noteq> Inr True"
proof -
  obtain w1 where c: "ClaimInboxMessage M ''stream-api'' ''m1'' mem0 = (Inr True, w1)"
  proof
    have "fst (ClaimInboxMessage M ''stream-api'' ''m1'' mem0) = Inr True" by code_simp
    then show "ClaimInboxMessage M ''stream-api'' ''m1'' mem0 = (Inr True, snd (ClaimInboxMessage M ''stream-api'' ''m1'' mem0))"
      by (metis prod.collapse)
  qed
  obtain res w3 where d: "ClaimInboxMessage M ''stream-api'' ''m1'' w1 = (res, w3)" by fastforce
  have i: "store_inv (mem_view mem0)" using store_inv_empty mem0_empty by simp
  from inbox_claim_once[OF mem_session_ok i c rtranclp.rtrancl_refl d] c d show ?thesis by simp
qed

section \<open>Publishing\<close>

text \<open>C6: A successful \<open>MarkOutboxPublished\<close> turns exactly one event from pending to published: its
  outbox row, which existed, keeps its columns and gains the state and the broker's message id, it is gone
  from the pending index and from the retry table, and no other event is touched.\<close>

theorem mark_publishes:
  assumes "cql_ok S view" and "store_inv (view w)" and "ParseUUID S eid = Inr i"
    and "MarkOutboxPublished (Some S) eid b w = (Inr u, w')"
  shows "\<exists>row t. outbox_events (view w) i = Some row \<and>
    outbox_events (view w') i =
      Some (row\<lparr>ob_state := Some ''published'', ob_published_at := Some t, ob_broker := Some b\<rparr>) \<and>
    (\<forall>st t. outbox_by_state (view w') (st, t, i) = None) \<and> outbox_retry_state (view w') i = None \<and>
    events_by_id (view w') = events_by_id (view w) \<and>
    (\<forall>j. j \<noteq> i \<longrightarrow> outbox_events (view w') j = outbox_events (view w) j \<and>
       outbox_retry_state (view w') j = outbox_retry_state (view w) j \<and>
       (\<forall>st t. outbox_by_state (view w') (st, t, j) = outbox_by_state (view w) (st, t, j)))"
proof -
  obtain r w1 where s: "selOutbox S i w = (r, w1)" by fastforce
  note s' = selectsD[OF cql_sel_outbox[OF assms(1)] s]
  from assms(3,4) s obtain row where r: "r = Inr row" by (cases r) (auto simp: MarkOutboxPublished_def)
  obtain t w2 where n: "time_Now S w1 = (t, w2)" by fastforce
  have q: "qBatch S (mark_stmts i (scan_time (ob_occurred row)) t b) w2 = (Inr u, w')"
    using assms(3,4) s r n by (simp add: MarkOutboxPublished_def)
  have v': "view w' = fold apply_cql (mark_stmts i (scan_time (ob_occurred row)) t b) (view w)"
    using cql_batch[OF assms(1) q] cql_now[OF assms(1) n] s' by simp
  have o: "outbox_events (view w) i = Some row" using s' r by simp
  have inv': "store_inv (view w')" unfolding v' by (rule store_inv_mark[OF assms(2) o])
  have o': "outbox_events (view w') i =
      Some (row\<lparr>ob_state := Some ''published'', ob_published_at := Some (cql_ts t), ob_broker := Some b\<rparr>)"
    by (simp add: v' mark_stmts_def o)
  have "outbox_by_state (view w') (st, t', i) = None" for st t'
    using inv_index[OF inv', of st t' i] o' by (cases "outbox_by_state (view w') (st, t', i)") auto
  with o o' show ?thesis by (intro exI[of _ row] exI[of _ "cql_ts t"]) (simp add: v' mark_stmts_def)
qed

theorem mark_publishes_witness:
  "outbox_published (mem_view (snd (MarkOutboxPublished M ''x'' ''b7'' mem1))) 1"
proof -
  let ?w = "snd (MarkOutboxPublished M ''x'' ''b7'' mem1)"
  have "fst (MarkOutboxPublished M ''x'' ''b7'' mem1) = Inr ()" by code_simp
  then have m: "MarkOutboxPublished M ''x'' ''b7'' mem1 = (Inr (), ?w)" by (metis prod.collapse)
  have i: "store_inv (mem_view mem1)"
    using txs_inv[OF refines_Append[OF mem_session_ok], of mem0 False ev0] store_inv_empty mem0_empty
    by (simp add: mem1_def)
  have p: "ParseUUID (mem_session False) ''x'' = Inr 1" by code_simp
  from mark_publishes[OF mem_session_ok i p m] show ?thesis by (auto simp: outbox_published_def)
qed

section \<open>The pending list\<close>

text \<open>Whether a row may be relayed, by its retry state and a reading of the clock.\<close>

definition eligible :: "tables \<Rightarrow> uuid \<Rightarrow> time \<Rightarrow> bool" where
  "eligible v i now = (case outbox_retry_state v i of
     None \<Rightarrow> 0 \<le> now
   | Some r \<Rightarrow> \<not> scan_bool (rt_quarantined r) \<and> scan_time (rt_next r) \<le> now \<and> scan_time (rt_lease r) \<le> now)"

definition retry_count :: "tables \<Rightarrow> uuid \<Rightarrow> int" where
  "retry_count v i = (case outbox_retry_state v i of None \<Rightarrow> 0 | Some r \<Rightarrow> scan_int (rt_count r))"

text \<open>A value of the clock while the tables are \<open>v\<close>.\<close>

definition clock_reads :: "'w session \<Rightarrow> ('w \<Rightarrow> tables) \<Rightarrow> tables \<Rightarrow> time \<Rightarrow> bool" where
  "clock_reads S view v now \<longleftrightarrow> (\<exists>w. view w = v \<and> fst (time_Now S w) = now)"

text \<open>Retry rows can be read: only a missing one is an error.\<close>

definition retry_readable :: "'w session \<Rightarrow> bool" where
  "retry_readable S \<longleftrightarrow> (\<forall>i w e. fst (selRetry S i w) = Inl e \<longrightarrow> e = ErrNotFound)"

lemma loadRetryState_result:
  assumes ok: "cql_ok S view" and l: "loadRetryState S i w = (Inr (n, nx, q, le), w1)"
  shows "n = retry_count (view w) i \<and> (eligible (view w) i now \<longleftrightarrow> \<not> (q \<or> nx > now \<or> le > now))"
proof -
  obtain r w2 where s: "selRetry S i w = (r, w2)" by fastforce
  note s' = selectsD[OF cql_sel_retry[OF ok] s]
  show ?thesis
  proof (cases r)
    case (Inl e)
    with s l s' show ?thesis by (auto simp: loadRetryState_def retry_count_def eligible_def split: if_splits)
  next
    case (Inr x)
    with s l s' show ?thesis by (auto simp: loadRetryState_def retry_count_def eligible_def)
  qed
qed

lemma loadRetryState_total:
  "retry_readable S \<Longrightarrow> fst (loadRetryState S i w) \<noteq> Inl e"
  by (cases "selRetry S i w"; cases "fst (selRetry S i w)")
    (auto simp: loadRetryState_def retry_readable_def split: sum.splits if_splits, metis fst_conv)

text \<open>How a selection \<open>sel\<close> of \<open>rows\<close> is right: it is a subsequence, each row in it was eligible when it was
  looked at, and, where \<open>all\<close> holds, each row left out was not.\<close>

definition selection :: "'w session \<Rightarrow> ('w \<Rightarrow> tables) \<Rightarrow> tables \<Rightarrow> bool \<Rightarrow> (time \<times> uuid \<times> msg) list \<Rightarrow>
    (time \<times> uuid \<times> msg) list \<Rightarrow> bool" where
  "selection S view v all rows sel \<longleftrightarrow> subseq sel rows \<and>
     (\<forall>row \<in> set sel. \<exists>now. clock_reads S view v now \<and> eligible v (fst (snd row)) now) \<and>
     (all \<longrightarrow> (\<forall>row \<in> set rows - set sel. \<exists>now. clock_reads S view v now \<and> \<not> eligible v (fst (snd row)) now))"

lemma selection_skip:
  assumes "selection S view v all rows sel"
    and "all \<Longrightarrow> \<exists>now. clock_reads S view v now \<and> \<not> eligible v (fst (snd row)) now"
  shows "selection S view v all (row # rows) sel"
  using assms by (auto simp: selection_def intro: list_emb_Cons)

lemma selection_take:
  assumes "selection S view v all rows sel" and "clock_reads S view v now" and "eligible v (fst (snd row)) now"
  shows "selection S view v all (row # rows) (row # sel)"
  using assms by (auto simp: selection_def)

lemma selection_stop: "selection S view v False rows []"
  by (simp add: selection_def)

lemma pendingLoop_result:
  assumes ok: "cql_ok S view" and "int (length out) < lim"
    and "pendingLoop S lim rows out w = ((broke, out'), w')"
  shows "\<exists>sel. selection S view (view w) (retry_readable S \<and> \<not> broke) rows sel \<and>
    out' = out @ map (\<lambda>row. pending_event S row (retry_count (view w) (fst (snd row)))) sel \<and>
    int (length out') \<le> lim \<and> (broke \<longrightarrow> int (length out') = lim)"
  using assms(2,3)
proof (induction rows arbitrary: out w)
  case Nil
  then show ?case by (intro exI[of _ "[]"]) (auto simp: selection_def)
next
  case (Cons row rows)
  let ?i = "fst (snd row)"
  obtain r w1 where l: "loadRetryState S ?i w = (r, w1)" by fastforce
  have v1: "view w1 = view w" using view_loadRetryState[OF ok, of ?i w] l by simp
  show ?case
  proof (cases r)
    case (Inl e)
    with Cons.prems l have "pendingLoop S lim rows out w1 = ((broke, out'), w')" by simp
    moreover have "\<not> retry_readable S" using loadRetryState_total[of S ?i w e] l Inl by auto
    ultimately show ?thesis using Cons.IH[OF Cons.prems(1)] unfolding v1[symmetric] by (blast intro: selection_skip)
  next
    case (Inr x)
    obtain n nx q le where x: "x = (n, nx, q, le)" by (cases x)
    obtain now w2 where t: "time_Now S w1 = (now, w2)" by fastforce
    have v2: "view w2 = view w" using cql_now[OF ok t] v1 by simp
    have cr: "clock_reads S view (view w) now" unfolding clock_reads_def using v1 t by (metis fst_conv)
    have el: "n = retry_count (view w) ?i" "eligible (view w) ?i now \<longleftrightarrow> \<not> (q \<or> nx > now \<or> le > now)"
      using loadRetryState_result[OF ok] l Inr x by blast+
    let ?o = "out @ [pending_event S row n]"
    consider (skip) "\<not> eligible (view w) ?i now" "pendingLoop S lim rows out w2 = ((broke, out'), w')"
      | (stop) "eligible (view w) ?i now" "int (length ?o) \<ge> lim" "out' = ?o" "broke"
      | (take) "eligible (view w) ?i now" "int (length ?o) < lim" "pendingLoop S lim rows ?o w2 = ((broke, out'), w')"
      using Cons.prems(2) l Inr x t el(2) by (auto simp: Let_def split: if_splits)
    then show ?thesis
    proof cases
      case skip
      with Cons.IH[OF Cons.prems(1)] cr show ?thesis unfolding v2[symmetric] by (blast intro: selection_skip)
    next
      case stop
      then show ?thesis using Cons.prems(1) el cr
        by (intro exI[of _ "[row]"]) (auto intro: selection_take selection_stop)
    next
      case take
      from Cons.IH[OF take(2,3)] obtain sel where
        "selection S view (view w) (retry_readable S \<and> \<not> broke) rows sel"
        "out' = ?o @ map (\<lambda>row. pending_event S row (retry_count (view w) (fst (snd row)))) sel"
        "int (length out') \<le> lim" "broke \<longrightarrow> int (length out') = lim" unfolding v2 by blast
      with selection_take[OF _ cr take(1)] el show ?thesis by (intro exI[of _ "row # sel"]) auto
    qed
  qed
qed

lemma pending_limit_bounds: "1 \<le> pending_limit n \<and> pending_limit n \<le> 2000 \<and> (1 \<le> n \<and> n \<le> 2000 \<longrightarrow> pending_limit n = n)"
  by (simp add: pending_limit_def Let_def)

lemma pending_fetch_bounds: "pending_limit n \<le> pending_fetch (pending_limit n)"
  using pending_limit_bounds[of n] by (simp add: pending_fetch_def Let_def)

lemma subseq_subset: "subseq xs ys \<Longrightarrow> set xs \<subseteq> set ys"
  by (induction rule: list_emb.induct) auto

lemma distinct_subseq: "subseq xs ys \<Longrightarrow> distinct ys \<Longrightarrow> distinct xs"
  by (induction rule: list_emb.induct) (auto dest: subseq_subset)

lemma sorted_wrt_subseq: "subseq xs ys \<Longrightarrow> sorted_wrt P ys \<Longrightarrow> sorted_wrt P xs"
  by (induction rule: list_emb.induct) (auto dest: subseq_subset)

text \<open>C8: What \<open>PendingOutboxEvents\<close> returns: at most the clamped limit of events, each of them the copy of a
  distinct row of the pending index, oldest first, whose event is pending in the outbox and which was eligible
  (not quarantined, due, not leased) at a reading of the clock; nothing is changed. The list is complete in this sense:
  when it is shorter than the limit, the rows fit into the fetch window of five times the limit (at least 100), and
  the retry rows could be read, then every pending row that is not in it was not eligible
  at a reading of the clock.\<close>

theorem pending_outbox_events:
  assumes "cql_ok S view" and "store_inv (view w)"
    and "PendingOutboxEvents (Some S) n w = (Inr evs, w')"
  shows "view w' = view w \<and> int (length evs) \<le> pending_limit n \<and>
    (\<exists>sel. evs = map (\<lambda>row. pending_event S row (retry_count (view w) (fst (snd row)))) sel \<and>
       distinct (map (fst \<circ> snd) sel) \<and> sorted_wrt (\<lambda>a b. fst a \<le> fst b) sel \<and> set sel \<subseteq> pending_rows ''pending'' (view w) \<and>
       (\<forall>(t, i, m) \<in> set sel. map_option ob_state (outbox_events (view w) i) = Some (Some ''pending'') \<and>
          (\<exists>now. clock_reads S view (view w) now \<and> eligible (view w) i now)) \<and>
       (retry_readable S \<and> int (length evs) < pending_limit n \<and>
        card (pending_rows ''pending'' (view w)) \<le> nat (pending_fetch (pending_limit n)) \<longrightarrow>
        (\<forall>(t, i, m) \<in> pending_rows ''pending'' (view w) - set sel.
           \<exists>now. clock_reads S view (view w) now \<and> \<not> eligible (view w) i now)))"
proof -
  let ?l = "pending_limit n" and ?v = "view w"
  obtain rows err w1 where it: "iterPending S ''pending'' (pending_fetch ?l) w = ((rows, err), w1)" by (metis surj_pair)
  from scansD[OF cql_iter_pending[OF assms(1)] it] obtain L k where v1: "view w1 = ?v"
    and L: "distinct L" "set L = pending_rows ''pending'' ?v" "sorted_wrt (\<lambda>a b. fst a \<le> fst b) L"
    and k: "rows = take k L" "err = None \<Longrightarrow> k = nat (pending_fetch ?l)" by blast
  obtain broke out w2 where p: "pendingLoop S ?l rows [] w1 = ((broke, out), w2)" by (metis surj_pair)
  have e: "evs = out" "w' = w2" "\<not> broke \<Longrightarrow> err = None"
    using assms(3) it p by (auto simp: PendingOutboxEvents_def Let_def split: if_splits option.splits)
  have "int (length ([] :: EventRecord list)) < ?l" using pending_limit_bounds[of n] by simp
  from pendingLoop_result[OF assms(1) this p] obtain sel where
    s: "selection S view ?v (retry_readable S \<and> \<not> broke) rows sel"
    and o: "out = map (\<lambda>row. pending_event S row (retry_count ?v (fst (snd row)))) sel"
      "int (length out) \<le> ?l" "broke \<longrightarrow> int (length out) = ?l" unfolding v1 by auto
  have sub: "subseq sel L"
    using s prefix_imp_subseq[OF take_is_prefix, of k L] unfolding selection_def k(1)
    by (blast intro: subseq_order.order_trans)
  have pend: "set sel \<subseteq> pending_rows ''pending'' ?v" using subseq_subset[OF sub] L(2) by simp
  have st: "map_option ob_state (outbox_events ?v i) = Some (Some ''pending'')" if "(t, i, m) \<in> set sel" for t i m
    using pend that inv_index[OF assms(2)] by (auto simp: pending_rows_def)
  have "inj_on (fst \<circ> snd) (pending_rows ''pending'' ?v)"
    by (auto simp: inj_on_def pending_rows_def inv_index[OF assms(2)])
  then have d: "distinct (map (fst \<circ> snd) sel)"
    using distinct_subseq[OF sub L(1)] pend by (simp add: distinct_map inj_on_subset)
  have full: "set rows = pending_rows ''pending'' ?v"
    if "\<not> broke" "card (pending_rows ''pending'' ?v) \<le> nat (pending_fetch ?l)"
    using that L k e(3) distinct_card[of L] by simp
  have compl: "\<exists>now. clock_reads S view ?v now \<and> \<not> eligible ?v i now"
    if "retry_readable S" "int (length out) < ?l" "card (pending_rows ''pending'' ?v) \<le> nat (pending_fetch ?l)"
      "(t, i, m) \<in> pending_rows ''pending'' ?v - set sel" for t i m
  proof -
    have "\<not> broke" using that(2) o(3) by auto
    with that s full show ?thesis unfolding selection_def by force
  qed
  have "view w2 = ?v" using view_pendingLoop[OF assms(1), of ?l rows "[]" w1] p v1 by simp
  moreover have "\<forall>(t, i, m) \<in> set sel. \<exists>now. clock_reads S view ?v now \<and> eligible ?v i now"
    using s unfolding selection_def by fastforce
  ultimately show ?thesis unfolding e(1,2)
    by (intro conjI exI[of _ sel]) (use o d pend st compl sorted_wrt_subseq[OF sub L(3)] in blast)+
qed

lemma mem1_inv: "store_inv (mem_view mem1)"
  using txs_inv[OF refines_Append[OF mem_session_ok], of mem0 False ev0] store_inv_empty mem0_empty
  by (simp add: mem1_def)

theorem pending_outbox_events_witness:
  "\<exists>evs w'. PendingOutboxEvents M 10 mem1 = (Inr evs, w') \<and> mem_view w' = mem_view mem1 \<and>
     int (length evs) \<le> pending_limit 10 \<and> map evID evs = [''x'']"
proof -
  let ?p = "PendingOutboxEvents M 10 mem1"
  have f: "map_sum (\<lambda>_. ()) (map evID) (fst ?p) = Inr [''x'']" by code_simp
  then obtain evs where e: "fst ?p = Inr evs" "map evID evs = [''x'']" by (cases "fst ?p") auto
  then have p: "?p = (Inr evs, snd ?p)" by (metis prod.collapse)
  show ?thesis
    by (rule exI[of _ evs], rule exI[of _ "snd ?p"])
      (use pending_outbox_events[OF mem_session_ok mem1_inv p] e(2) p in simp)
qed

end
