(* ===== verification/Cass_Lifecycle.thy ===== *)
theory Cass_Lifecycle
  imports Cass_Properties
begin

text \<open>
  The life of an outbox event that is not published at once: leases, the backoff between attempts,
  quarantine, replay and cleanup, and two situations the code cannot get out of.
\<close>

section \<open>Leases\<close>

text \<open>C7: Leases exclude each other. After a granted claim, as long as nobody touched the retry row
  of the event, another claim, by anyone, is granted exactly when the lease has run out to the
  millisecond, and until then it changes nothing.\<close>

theorem lease_excludes:
  assumes "cql_ok S view" and "ParseUUID S eid = Inr i"
    and "ClaimOutboxLease (Some S) eid ow d w = (Inr True, w1)"
    and "outbox_retry_state (view w2) i = outbox_retry_state (view w1) i"
    and "ClaimOutboxLease (Some S) eid ow' d' w2 = (res, w3)"
  shows "let until = cql_ts (fst (time_Now S w) + d); now = cql_ts (fst (time_Now S w2)) in
    (\<forall>b. res = Inr b \<longrightarrow> b = (until < now)) \<and> (now \<le> until \<longrightarrow> view w3 = view w2)"
proof -
  obtain t u where n: "time_Now S w = (t, u)" by fastforce
  have c: "casLease S ow (t + d) i t 1 u = (Inr True, w1)"
    using assms(2,3) n by (simp add: ClaimOutboxLease_def)
  have v1: "view w1 = put_lease ow (t + d) i (view w)"
    using cql_cas_lease[OF assms(1) c] cql_now[OF assms(1) n] by auto
  obtain t2 u2 where n2: "time_Now S w2 = (t2, u2)" by fastforce
  have c2: "casLease S ow' (t2 + d') i t2 1 u2 = (res, w3)"
    using assms(2,5) n2 by (simp add: ClaimOutboxLease_def)
  have "lease_before (view w2) i t2 \<longleftrightarrow> cql_ts (t + d) < cql_ts t2"
    by (simp add: lease_before_def assms(4) v1 put_lease_def)
  with cql_cas_lease[OF assms(1) c2] cql_now[OF assms(1) n2] n n2 show ?thesis
    by (auto simp: Let_def)
qed

theorem lease_excludes_witness:
  "fst (ClaimOutboxLease M ''x'' ''node-b'' second (snd (ClaimOutboxLease M ''x'' ''node-a'' minute mem1))) = Inr False"
proof -
  let ?w1 = "snd (ClaimOutboxLease M ''x'' ''node-a'' minute mem1)"
  have "fst (ClaimOutboxLease M ''x'' ''node-a'' minute mem1) = Inr True" by code_simp
  then have a: "ClaimOutboxLease M ''x'' ''node-a'' minute mem1 = (Inr True, ?w1)" by (metis prod.collapse)
  obtain res w3 where b: "ClaimOutboxLease M ''x'' ''node-b'' second ?w1 = (res, w3)" by fastforce
  have p: "ParseUUID (mem_session False) ''x'' = Inr 1" by code_simp
  have t: "\<not> cql_ts (fst (time_Now (mem_session False) mem1) + minute) < cql_ts (fst (time_Now (mem_session False) ?w1))"
    by code_simp
  have "isl (fst (ClaimOutboxLease M ''x'' ''node-b'' second ?w1)) = False" by code_simp
  with b obtain g where g: "res = Inr g" by (cases res) auto
  from lease_excludes[OF mem_session_ok p a refl b] t g b show ?thesis by (simp add: Let_def)
qed

section \<open>Backoff\<close>

text \<open>The loop computes a capped power of two.\<close>

lemma backoffLoop_min:
  assumes "0 < base" and "base \<le> maxB" and "maxB < 2 ^ 62"
  shows "backoffLoop n base maxB = min maxB (base * 2 ^ n)"
  using assms(1,2)
proof (induction n arbitrary: base)
  case 0
  then show ?case by simp
next
  case (Suc n)
  have "i64 (base * 2) = base * 2" using Suc.prems assms(3) by (intro i64_id) auto
  moreover have "maxB \<le> base * 2 ^ Suc n" if "maxB \<le> base * 2"
  proof -
    have "base * 2 * 1 \<le> base * 2 * 2 ^ n" using Suc.prems by (intro mult_left_mono) auto
    with that show ?thesis by (simp add: mult.assoc)
  qed
  ultimately show ?case using Suc.IH[of "base * 2"] Suc.prems by (auto simp: Let_def min_def mult.assoc)
qed

text \<open>The jitter moves a delay by at most its percentage, in whole milliseconds, and keeps it at ten
  milliseconds or more when it applies.\<close>

lemma backoffJitter_bounds:
  assumes ok: "cql_ok S view" and "0 \<le> wait" and "wait < 2 ^ 55" and "0 \<le> p" and "p \<le> 100"
    and j: "backoffJitter S p wait w = (d, w')"
  shows "d \<le> max (10 * millisecond) (wait + wait * p div 100) \<and>
    (wait - wait * p div 100 \<le> d) \<and> (d = wait \<or> 10 * millisecond \<le> d)"
proof -
  let ?q = "wait div millisecond" and ?r = "wait div millisecond * p div 100"
  have q: "0 \<le> ?q" "?q * millisecond \<le> wait"
    using assms(2) by (simp_all add: pos_imp_zdiv_nonneg_iff minus_mod_eq_div_mult[symmetric])
  then have qp: "0 \<le> ?q * p" "?q * p \<le> ?q * 100" using assms(4,5) by (auto intro: mult_left_mono)
  then have r0: "0 \<le> ?r" "?r \<le> ?q" by auto
  have "?r * 100 \<le> ?q * p" by (simp add: minus_mod_eq_div_mult[symmetric] qp)
  then have "?r * 100 * millisecond \<le> ?q * millisecond * p" by (simp add: algebra_simps)
  also have "\<dots> \<le> wait * p" using q(2) assms(4) by (intro mult_right_mono)
  finally have rm: "?r * millisecond \<le> wait * p div 100"
    using zdiv_mono1[of "?r * millisecond * 100" "wait * p" 100] by (simp add: mult.commute mult.left_commute)
  have jr: "quot (i64 (quot wait millisecond * p)) 100 = ?r"
    using assms(2,3) q qp by (simp add: quot_nonneg i64_id)
  have ir: "i64 (?r * 2 + 1) = ?r * 2 + 1" using r0 q assms(3) by (intro i64_id) auto
  have w: "wait * p div 100 \<le> wait"
    using mult_left_mono[OF assms(5,2)] zdiv_mono1[of "wait * p" "wait * 100" 100] by simp
  have w0: "0 \<le> wait * p div 100" using assms(2,4) by (simp add: pos_imp_zdiv_nonneg_iff)
  show ?thesis
  proof (cases "0 < p \<and> 0 < ?r")
    case False
    then have "d = wait" using j jr by (auto simp: backoffJitter_def Let_def split: if_splits)
    with w0 show ?thesis by simp
  next
    case True
    obtain x w1 where x: "rand_Intn S (?r * 2 + 1) w = (x, w1)" by fastforce
    have x': "0 \<le> x" "x < ?r * 2 + 1" using cql_rand[OF ok x] True by auto
    have "\<bar>(x - ?r) * millisecond\<bar> \<le> ?r * millisecond" using x' by (auto simp: abs_le_iff)
    with rm have m: "\<bar>(x - ?r) * millisecond\<bar> \<le> wait * p div 100" by linarith
    have i1: "i64 ((x - ?r) * millisecond) = (x - ?r) * millisecond"
      using m w assms(3) by (intro i64_id) auto
    have i2: "i64 (wait + (x - ?r) * millisecond) = wait + (x - ?r) * millisecond"
      using m w assms(2,3) by (intro i64_id) auto
    have "d = (if wait + (x - ?r) * millisecond < 10 * millisecond then 10 * millisecond else wait + (x - ?r) * millisecond)"
      using j True by (simp add: backoffJitter_def Let_def jr ir x i1 i2 del: left_diff_distrib_numeral split: if_splits)
    moreover define y z where "y = (x - ?r) * millisecond" and "z = wait * p div 100"
    ultimately have "d = (if wait + y < 10 * millisecond then 10 * millisecond else wait + y)" "\<bar>y\<bar> \<le> z" "0 \<le> z"
      using m w0 by simp_all
    then show ?thesis unfolding z_def[symmetric] max_def by (simp split: if_splits) linarith+
  qed
qed

text \<open>C10: The delay before the next attempt doubles with every failure, is capped, and is jittered:
  \<open>n\<close> doublings of the base give \<open>min max (base * 2 ^ n)\<close> with no overflow on the way, the jitter
  moves it by at most its percentage, and a jittered delay is never below ten milliseconds.\<close>

theorem backoff_delay:
  assumes "cql_ok S view" and "0 < base" and "base \<le> maxB" and "maxB < 2 ^ 55" and "0 \<le> p" and "p \<le> 100"
    and "backoffJitter S p (backoffLoop n base maxB) w = (d, w')"
  shows "let wait = min maxB (base * 2 ^ n) in
    backoffLoop n base maxB = wait \<and>
    wait - wait * p div 100 \<le> d \<and> d \<le> max (10 * millisecond) (wait + wait * p div 100) \<and>
    (d = wait \<or> 10 * millisecond \<le> d)"
proof -
  have b: "backoffLoop n base maxB = min maxB (base * 2 ^ n)" using assms(2-4) by (intro backoffLoop_min) auto
  have "0 \<le> min maxB (base * 2 ^ n)" "min maxB (base * 2 ^ n) < 2 ^ 55" using assms(2-4) by auto
  from backoffJitter_bounds[OF assms(1) this assms(5,6)] b assms(7) show ?thesis by (simp add: Let_def)
qed

theorem backoff_delay_witness:
  "8 * second - 8 * second * 20 div 100 \<le> fst (backoffJitter (mem_session False) 20 (backoffLoop 3 second minute) mem0)"
  using backoff_delay[OF mem_session_ok[of False] _ _ _ _ _ surjective_pairing, of second minute 20 3 mem0]
  by (auto simp: Let_def)

section \<open>Failures and quarantine\<close>

text \<open>The delay computed for the failure that brings the counter to \<open>n\<close>.\<close>

definition delay_bounds :: "duration \<Rightarrow> duration \<Rightarrow> int \<Rightarrow> int \<Rightarrow> duration \<Rightarrow> bool" where
  "delay_bounds base maxB p n d \<longleftrightarrow>
     (let b = min maxB (base * 2 ^ nat (n - 1)) in
      b - b * p div 100 \<le> d \<and> d \<le> max (10 * millisecond) (b + b * p div 100))"

text \<open>The retry row after a failure.\<close>

definition failure_row :: "tables \<Rightarrow> uuid \<Rightarrow> int \<Rightarrow> time \<Rightarrow> string \<Rightarrow> bool \<Rightarrow> bool" where
  "failure_row v i n nx e q \<longleftrightarrow>
     (\<exists>r. outbox_retry_state v i = Some r \<and> rt_count r = Some n \<and> rt_next r = Some (cql_ts nx) \<and>
        rt_error r = Some e \<and> rt_lease r = Some 0 \<and> rt_quarantined r = Some q)"

lemma scanFailures_count:
  assumes ok: "cql_ok S view" and s: "selRetry S i w = (r, w1)" and f: "scanFailures r = Inr (n, ff)"
  shows "n = retry_count (view w) i"
proof (cases r)
  case (Inl e)
  with f selectsD[OF cql_sel_retry[OF ok] s] show ?thesis
    by (auto simp: scanFailures_def retry_count_def split: if_splits)
next
  case (Inr x)
  with f selectsD[OF cql_sel_retry[OF ok] s] show ?thesis by (auto simp: scanFailures_def retry_count_def)
qed

lemma quarantineEvent_success:
  assumes ok: "cql_ok S view" and o: "outbox_events (view w) i = Some row" and m: "ob_msg row = Some m"
    and q: "quarantineEvent S i t n e w = ((b, k, None), w')"
  shows "b \<and> k = n \<and> view w' = fold apply_cql [InsDLByTime allBucket t i m n e, InsDLById i t m n e] (view w)"
proof -
  obtain r w1 where s: "selOutbox S i w = (r, w1)" by fastforce
  note s' = selectsD[OF cql_sel_outbox[OF ok] s]
  from q s s' o have r: "r = Inr row" by (cases r) (auto simp: quarantineEvent_def)
  obtain r2 w2 where b: "qBatch S [InsDLByTime allBucket t i m n e, InsDLById i t m n e] w1 = (r2, w2)" by fastforce
  from q s r m b cql_batch[OF ok b] s' show ?thesis by (cases r2) (auto simp: quarantineEvent_def)
qed



section \<open>Replay\<close>


definition mem_dead :: mem where
  "mem_dead = snd (RecordOutboxFailure M ''x'' ''boom'' second minute 20 1 mem1)"

lemma mem_dead_inv: "store_inv (mem_view mem_dead)"
  using txs_inv[OF refines_RecordFailure[OF mem_session_ok] mem1_inv] by (simp add: mem_dead_def)


section \<open>Cleanup\<close>

text \<open>One round of each loop.\<close>

lemma cleanupIdem_Cons:
  assumes ok: "cql_ok S view"
  obtains n1 w1 where "cleanupIdem S ((t, s, k) # rows) n w = cleanupIdem S rows n1 w1" and "n1 \<le> n + 1"
    and "view w1 = view w \<or> view w1 = fold apply_cql [DelIdemKey s k, DelIdemByCreated allBucket t s k] (view w)"
proof -
  obtain r w1 where b: "qBatch S [DelIdemKey s k, DelIdemByCreated allBucket t s k] w = (r, w1)" by fastforce
  show thesis
    by (rule that[of "if isl r then n else n + 1" w1]) (use b cql_batch[OF ok b] in \<open>simp_all split: sum.splits\<close>)
qed

lemma cleanupDead_Cons:
  assumes ok: "cql_ok S view"
  obtains n1 w1 where "cleanupDead S ((t, i) # rows) n w = cleanupDead S rows n1 w1" and "n1 \<le> n + 1"
    and "view w1 = view w \<or> view w1 = fold apply_cql [DelDLByTime allBucket t i, DelDLById i] (view w)"
proof -
  obtain r w1 where b: "qBatch S [DelDLByTime allBucket t i, DelDLById i] w = (r, w1)" by fastforce
  show thesis
    by (rule that[of "if isl r then n else n + 1" w1]) (use b cql_batch[OF ok b] in \<open>simp_all split: sum.splits\<close>)
qed

lemma cleanupIdem_effect:
  assumes ok: "cql_ok S view" and "cleanupIdem S rows n w = (n', w')"
  shows "n' \<le> n + int (length rows) \<and>
    (idempotency_keys (view w') x = idempotency_keys (view w) x \<or> x \<in> snd ` set rows) \<and>
    dead_letters_by_id (view w') = dead_letters_by_id (view w) \<and>
    dead_letters_by_time (view w') = dead_letters_by_time (view w)"
  using assms(2)
proof (induction rows arbitrary: n w)
  case Nil
  then show ?case by simp
next
  case (Cons row rows)
  obtain t s k where row: "row = (t, s, k)" by (cases row)
  obtain n1 w1 where c: "cleanupIdem S (row # rows) n w = cleanupIdem S rows n1 w1" "n1 \<le> n + 1"
    and v: "view w1 = view w \<or> view w1 = fold apply_cql [DelIdemKey s k, DelIdemByCreated allBucket t s k] (view w)"
    unfolding row by (rule cleanupIdem_Cons[OF ok])
  from Cons.IH[of n1 w1] Cons.prems c v row show ?case by (auto split: if_splits)
qed

lemma cleanupDead_effect:
  assumes ok: "cql_ok S view" and "cleanupDead S rows n w = (n', w')"
  shows "n' \<le> n + int (length rows) \<and> idempotency_keys (view w') = idempotency_keys (view w) \<and>
    (dead_letters_by_id (view w') i = dead_letters_by_id (view w) i \<or> i \<in> snd ` set rows)"
  using assms(2)
proof (induction rows arbitrary: n w)
  case Nil
  then show ?case by simp
next
  case (Cons row rows)
  obtain t j where row: "row = (t, j)" by (cases row)
  obtain n1 w1 where c: "cleanupDead S (row # rows) n w = cleanupDead S rows n1 w1" "n1 \<le> n + 1"
    and v: "view w1 = view w \<or> view w1 = fold apply_cql [DelDLByTime allBucket t j, DelDLById j] (view w)"
    unfolding row by (rule cleanupDead_Cons[OF ok])
  from Cons.IH[of n1 w1] Cons.prems c v row show ?case by (auto split: if_splits)
qed

lemma gcs_keep:
  "tx_gc\<^sup>*\<^sup>* v v' \<Longrightarrow> events_by_id v' = events_by_id v \<and> outbox_events v' = outbox_events v \<and>
     outbox_by_state v' = outbox_by_state v \<and> outbox_retry_state v' = outbox_retry_state v"
  by (induction rule: rtranclp_induct) (auto simp: tx_gc_keeps)

text \<open>The two phases of a cleanup.\<close>

lemma idem_phase:
  assumes ok: "cql_ok S view" and it: "iterIdem S b l w = ((rows, e), w1)"
    and c: "cleanupIdem S (filter (\<lambda>(t, _, _). t < ib) rows) 0 w1 = (n, w2)" and "0 \<le> l"
  shows "view w1 = view w \<and> n \<le> l \<and>
    (idempotency_keys (view w2) (s, k) \<noteq> idempotency_keys (view w) (s, k) \<longrightarrow>
       (\<exists>t < ib. idempotency_by_created (view w) (b, t, s, k) \<noteq> None)) \<and>
    dead_letters_by_id (view w2) = dead_letters_by_id (view w) \<and>
    dead_letters_by_time (view w2) = dead_letters_by_time (view w)"
proof -
  from scansD[OF cql_iter_idem[OF ok] it] have v1: "view w1 = view w"
    and r: "set rows \<subseteq> idem_rows b (view w)" "length rows \<le> nat l" by (auto dest: in_set_takeD)
  have "length (filter (\<lambda>(t, _, _). t < ib) rows) \<le> nat l" by (rule order_trans[OF length_filter_le r(2)])
  moreover have "\<exists>t < ib. idempotency_by_created (view w) (b, t, s, k) \<noteq> None"
    if "(s, k) \<in> snd ` set (filter (\<lambda>(t, _, _). t < ib) rows)" for s k
    using that r(1) by (force simp: idem_rows_def)
  ultimately show ?thesis using cleanupIdem_effect[OF ok c, of "(s, k)"] v1 assms(4)
    by (intro conjI impI) (linarith | blast | simp)+
qed

lemma dead_phase:
  assumes ok: "cql_ok S view" and it: "iterDead S b l w = ((rows, e), w1)"
    and c: "cleanupDead S (map (\<lambda>(t, i, _). (t, i)) (filter (\<lambda>(t, _). t < db) rows)) 0 w1 = (n, w2)" and "0 \<le> l"
  shows "view w1 = view w \<and> n \<le> l \<and> idempotency_keys (view w2) = idempotency_keys (view w) \<and>
    (dead_letters_by_id (view w2) i \<noteq> dead_letters_by_id (view w) i \<longrightarrow>
       (\<exists>t < db. dead_letters_by_time (view w) (b, t, i) \<noteq> None))"
proof -
  from scansD[OF cql_iter_dead[OF ok] it] have v1: "view w1 = view w"
    and r: "set rows \<subseteq> dead_rows b (view w)" "length rows \<le> nat l" by (auto dest: in_set_takeD)
  have "length (filter (\<lambda>(t, _). t < db) rows) \<le> nat l" by (rule order_trans[OF length_filter_le r(2)])
  moreover have "\<exists>t < db. dead_letters_by_time (view w) (b, t, i) \<noteq> None"
    if "i \<in> snd ` set (map (\<lambda>(t, i, _). (t, i)) (filter (\<lambda>(t, _). t < db) rows))"
    using that r(1) by (fastforce simp: dead_rows_def)
  moreover note f = cleanupDead_effect[OF ok c, of i]
  moreover from f have "n \<le> int (length (filter (\<lambda>(t, _). t < db) rows))" by simp
  ultimately show ?thesis using v1 assms(4) by (intro conjI impI) (linarith | metis)+
qed



section \<open>Situations without a way out\<close>


definition mem_orphan :: mem where
  "mem_orphan = snd (AppendEventExactlyOnce M ev0 (mem0\<lparr>ml_faults := [False, False, True]\<rparr>))"


text \<open>The loop returns nothing when every row it sees is quarantined.\<close>

definition quarantined :: "tables \<Rightarrow> uuid \<Rightarrow> bool" where
  "quarantined v i = (case outbox_retry_state v i of None \<Rightarrow> False | Some r \<Rightarrow> scan_bool (rt_quarantined r))"

lemma quarantined_not_eligible: "quarantined v i \<Longrightarrow> \<not> eligible v i now"
  by (simp add: quarantined_def eligible_def split: option.splits)

text \<open>The oldest rows of a sorted list come first.\<close>

lemma oldest_first:
  assumes "distinct L" and "sorted_wrt (\<lambda>a b. f a \<le> f b) L" and "R \<subseteq> set L"
    and "\<And>x y. x \<in> R \<Longrightarrow> y \<in> set L - R \<Longrightarrow> f x < (f y :: int)" and "k \<le> card R"
  shows "set (take k L) \<subseteq> R"
proof
  fix y assume "y \<in> set (take k L)"
  then obtain j where j: "j < k" "j < length L" "y = L ! j" by (auto simp: in_set_conv_nth)
  show "y \<in> R"
  proof (rule ccontr)
    assume y: "y \<notin> R"
    have "x \<in> set (take j L)" if "x \<in> R" for x
    proof -
      from that assms(3) obtain p where p: "p < length L" "x = L ! p" by (metis in_set_conv_nth subsetD)
      have "f x < f y" using assms(4)[OF that] y j by auto
      then have "p < j" using sorted_wrt_nth_less[OF assms(2), of j p] p j
        by (metis leD linorder_cases order_less_irrefl)
      with p show ?thesis by (auto simp: in_set_conv_nth)
    qed
    then have "card R \<le> card (set (take j L))" by (intro card_mono) auto
    also have "\<dots> \<le> j" by (rule order_trans[OF card_length]) simp
    finally show False using assms(5) j by simp
  qed
qed

text \<open>C40: Quarantined events starve the relay. They stay in the pending index, so as soon as the oldest
  rows there that fill the fetch window are all quarantined, \<open>PendingOutboxEvents\<close> returns no event, however many
  eligible ones come after them.\<close>

theorem quarantined_rows_starve:
  assumes "cql_ok S view" and "R \<subseteq> pending_rows ''pending'' (view w)"
    and "nat (pending_fetch (pending_limit n)) \<le> card R"
    and "\<And>t i m. (t, i, m) \<in> R \<Longrightarrow> quarantined (view w) i"
    and "\<And>x y. x \<in> R \<Longrightarrow> y \<in> pending_rows ''pending'' (view w) - R \<Longrightarrow> fst x < fst y"
    and "PendingOutboxEvents (Some S) n w = (Inr evs, w')"
  shows "evs = []"
proof -
  let ?l = "pending_limit n"
  obtain rows err w1 where it: "iterPending S ''pending'' (pending_fetch ?l) w = ((rows, err), w1)" by (metis surj_pair)
  from scansD[OF cql_iter_pending[OF assms(1)] it] obtain L k where v1: "view w1 = view w"
    and L: "distinct L" "set L = pending_rows ''pending'' (view w)" "sorted_wrt (\<lambda>a b. fst a \<le> fst b) L"
    and k: "rows = take k L" "k \<le> nat (pending_fetch ?l)" by blast
  have rows: "set rows \<subseteq> R" unfolding k(1)
    using k(2) assms(2,3,5) L by (intro oldest_first[where f = fst]) auto
  obtain broke out w2 where p: "pendingLoop S ?l rows [] w1 = ((broke, out), w2)" by (metis surj_pair)
  have "int (length ([] :: EventRecord list)) < ?l" using pending_limit_bounds[of n] by simp
  from pendingLoop_result[OF assms(1) this p] obtain sel where
    s: "selection S view (view w) (retry_readable S \<and> \<not> broke) rows sel"
    and o: "out = map (\<lambda>row. pending_event S row (retry_count (view w) (fst (snd row)))) sel" unfolding v1 by auto
  have "sel = []"
  proof (rule ccontr)
    assume "sel \<noteq> []"
    then obtain t i m where h: "(t, i, m) \<in> set sel" by (metis list.set_intros(1) neq_Nil_conv prod_cases3)
    with s rows have "(t, i, m) \<in> R" unfolding selection_def using subseq_subset by blast
    from quarantined_not_eligible[OF assms(4)[OF this]] s h show False unfolding selection_def by fastforce
  qed
  with o assms(6) it p show ?thesis by (auto simp: PendingOutboxEvents_def Let_def split: if_splits option.splits)
qed

text \<open>A hundred quarantined rows in front of one that is not.\<close>

definition mem_full :: mem where
  "mem_full = mem0\<lparr>
     ml_outbox_by_state := map (\<lambda>k. ((''pending'', int k * millisecond, k), event_msg ev0)) [1..<102],
     ml_outbox_retry_state := map (\<lambda>k. (k, null_retry\<lparr>rt_quarantined := Some True\<rparr>)) [1..<101]\<rparr>"

lemma map_of_const: "map_of (map (\<lambda>k. (g k, v)) xs) y = (if y \<in> g ` set xs then Some v else None)"
  by (induction xs) auto

theorem quarantined_rows_starve_witness:
  "\<not> quarantined (mem_view mem_full) 101 \<and> (101 * millisecond, 101, event_msg ev0) \<in> pending_rows ''pending'' (mem_view mem_full) \<and>
   fst (PendingOutboxEvents M 1 mem_full) \<noteq> Inr [pending_event (mem_session False) (101 * millisecond, 101, event_msg ev0) 0]"
proof -
  let ?R = "(\<lambda>k. (int k * millisecond, k, event_msg ev0)) ` {1..<101}"
  have P: "pending_rows ''pending'' (mem_view mem_full) = (\<lambda>k. (int k * millisecond, k, event_msg ev0)) ` {1..<102}"
    by (auto simp: pending_rows_def mem_view_def mem_full_def map_of_const split: if_splits)
  have Q: "quarantined (mem_view mem_full) k \<longleftrightarrow> k \<in> {1..<101}" for k
    by (simp add: quarantined_def mem_view_def mem_full_def map_of_const[where g = "\<lambda>k. k"])
  have "card ?R = 100" by (subst card_image) (auto simp: inj_on_def)
  moreover have "nat (pending_fetch (pending_limit 1)) = 100" by code_simp
  ultimately have c: "nat (pending_fetch (pending_limit 1)) \<le> card ?R" by simp
  have r: "?R \<subseteq> pending_rows ''pending'' (mem_view mem_full)" unfolding P by (rule image_mono) auto
  have q: "quarantined (mem_view mem_full) i" if "(t, i, m) \<in> ?R" for t i m
    by (subst Q) (use that in blast)
  have o: "fst x < fst y" if "x \<in> ?R" "y \<in> pending_rows ''pending'' (mem_view mem_full) - ?R" for x y
  proof -
    from that(1) obtain k where k: "k < 101" "fst x = int k * millisecond" by fastforce
    from that(2) obtain l where l: "101 \<le> l" "fst y = int l * millisecond" unfolding P by fastforce
    from k l show ?thesis by simp
  qed
  have "fst (PendingOutboxEvents M 1 mem_full) \<noteq> Inr [e]" for e
  proof
    assume "fst (PendingOutboxEvents M 1 mem_full) = Inr [e]"
    then have "PendingOutboxEvents M 1 mem_full = (Inr [e], snd (PendingOutboxEvents M 1 mem_full))" by (metis prod.collapse)
    from quarantined_rows_starve[OF mem_session_ok r c q o this] show False by simp
  qed
  moreover have "(101 * millisecond, 101, event_msg ev0) \<in> pending_rows ''pending'' (mem_view mem_full)"
    unfolding P by (rule image_eqI[of _ _ 101]) auto
  ultimately show ?thesis using Q by simp
qed

end
