(* ===== verification/Outbox_Ledger.thy ===== *)
theory Outbox_Ledger
  imports Cass_Properties
begin

text \<open>
  What the event store promises, without tables: a ledger of the posted events and whether they have
  been sent, of the idempotency keys, of the consumed messages and of the events set aside as dead letters. Every
  operation of the store, with whatever failures, moves the ledger only by the acts that belong to it.
\<close>

section \<open>The ledger\<close>

record ledger =
  posted :: "uuid \<rightharpoonup> msg \<times> bool"
  bound :: "string \<times> string \<rightharpoonup> uuid"
  consumed :: "(string \<times> string) set"
  parked :: "uuid set"

inductive ledger_step :: "act set \<Rightarrow> ledger \<Rightarrow> ledger \<Rightarrow> bool" for A where
  ld_bind: "Bind \<in> A \<Longrightarrow> bound l k = None \<Longrightarrow> i \<notin> ran (bound l) \<Longrightarrow> posted l i = None \<Longrightarrow>
    ledger_step A l (l\<lparr>bound := (bound l)(k \<mapsto> i)\<rparr>)"
| ld_post: "Post \<in> A \<Longrightarrow> posted l i = None \<Longrightarrow> (\<And>s k. bound l (s, k) = Some i \<Longrightarrow> s = m_stream m) \<Longrightarrow>
    ledger_step A l (l\<lparr>posted := (posted l)(i \<mapsto> (m, False))\<rparr>)"
| ld_send: "Send i \<in> A \<Longrightarrow> posted l i = Some (m, b) \<Longrightarrow> ledger_step A l (l\<lparr>posted := (posted l)(i \<mapsto> (m, True))\<rparr>)"
| ld_consume: "Consume \<in> A \<Longrightarrow> x \<notin> consumed l \<Longrightarrow> ledger_step A l (l\<lparr>consumed := insert x (consumed l)\<rparr>)"
| ld_park: "Park \<in> A \<Longrightarrow> posted l i \<noteq> None \<Longrightarrow> ledger_step A l (l\<lparr>parked := insert i (parked l)\<rparr>)"
| ld_requeue: "Requeue \<in> A \<Longrightarrow> posted l i = Some (m, b) \<Longrightarrow>
    ledger_step A l (l\<lparr>posted := (posted l)(i \<mapsto> (m, False)), parked := parked l - {i}\<rparr>)"

inductive ledger_gc :: "ledger \<Rightarrow> ledger \<Rightarrow> bool" where
  ld_release: "ledger_gc l (l\<lparr>bound := (bound l)(k := None)\<rparr>)"
| ld_drop: "ledger_gc l (l\<lparr>parked := parked l - {i}\<rparr>)"

lemma ledger_step_retry: "ledger_step A l l' \<Longrightarrow> ledger_step (A - {Retry}) l l'"
  by (induction rule: ledger_step.induct) (auto intro: ledger_step.intros)

lemma ledger_steps_retry: "(ledger_step A)\<^sup>*\<^sup>* l l' \<Longrightarrow> (ledger_step (A - {Retry}))\<^sup>*\<^sup>* l l'"
  by (induction rule: rtranclp_induct) (auto intro: rtranclp.rtrancl_into_rtrancl ledger_step_retry)

lemma ledger_step_none: "(ledger_step {})\<^sup>*\<^sup>* l l' \<Longrightarrow> l' = l"
  by (induction rule: rtranclp_induct) (auto elim: ledger_step.cases)

section \<open>The tables refine it\<close>

definition ledger_of :: "tables \<Rightarrow> ledger" where
  "ledger_of v =
     \<lparr>posted = (\<lambda>i. map_option (\<lambda>(t, m). (m, i \<in> published_ids v)) (events_by_id v i)),
      bound = (\<lambda>k. map_option fst (idempotency_keys v k)),
      consumed = dom (inbox_consumed v), parked = dom (dead_letters_by_id v)\<rparr>"

lemmas ledger_simps = ledger_of_def published_ids_def

lemma ledger_eqI:
  assumes "events_by_id v' = events_by_id v" "published_ids v' = published_ids v" "idempotency_keys v' = idempotency_keys v"
    "inbox_consumed v' = inbox_consumed v" "dead_letters_by_id v' = dead_letters_by_id v"
  shows "ledger_of v' = ledger_of v"
  using assms by (simp add: ledger_of_def)

lemma ledger_sim:
  assumes "tx_on A v v'" and inv: "store_inv v"
  shows "ledger_of v' = ledger_of v \<or> ledger_step A (ledger_of v) (ledger_of v')"
  using assms(1)
proof cases
  case (tx_key i s k h t)
  have "ledger_of v' = (ledger_of v)\<lparr>bound := (bound (ledger_of v))((s, k) \<mapsto> i)\<rparr>"
    by (auto simp: tx_key(1) ledger_simps put_idem_def fun_eq_iff)
  moreover have "i \<notin> ran (bound (ledger_of v))" "posted (ledger_of v) i = None"
    using tx_key(3) by (auto simp: ledger_of_def used_ids_def ran_def)
  ultimately show ?thesis using ld_bind[of A "ledger_of v" "(s, k)" i] tx_key(2,4) by (simp add: ledger_of_def)
next
  case (tx_created b t s k i)
  then show ?thesis by (auto intro!: disjI1 ledger_eqI simp: published_ids_def)
next
  case (tx_append i ev)
  have o: "outbox_events v i = None" using tx_append(3) by (simp add: inv_outbox_dom[OF inv])
  have "ledger_of v' = (ledger_of v)\<lparr>posted := (posted (ledger_of v))(i \<mapsto> (event_msg ev, False))\<rparr>"
    using o by (auto simp: tx_append(1) ledger_simps append_stmts_def fun_eq_iff)
  with tx_append(2-4) ld_post[of A "ledger_of v" i "event_msg ev"] show ?thesis
    by (auto simp: ledger_of_def event_msg_def)
next
  case (tx_mark i row t b)
  from inv_outbox[OF inv tx_mark(3)] obtain t' m where e: "events_by_id v i = Some (t', m)" by blast
  have "ledger_of v' = (ledger_of v)\<lparr>posted := (posted (ledger_of v))(i \<mapsto> (m, True))\<rparr>"
    using e tx_mark(3) by (auto simp: tx_mark(1) ledger_simps mark_stmts_def fun_eq_iff)
  with e tx_mark(2) ld_send[of i A "ledger_of v" m] show ?thesis by (auto simp: ledger_of_def)
next
  case (tx_inbox c m t)
  have "ledger_of v' = (ledger_of v)\<lparr>consumed := insert (c, m) (consumed (ledger_of v))\<rparr>"
    by (auto simp: tx_inbox(1) ledger_simps put_inbox_def fun_eq_iff)
  with tx_inbox(2,3) ld_consume[of A "(c, m)" "ledger_of v"] show ?thesis by (auto simp: ledger_of_def)
next
  case (tx_lease i now ow t)
  then show ?thesis by (auto intro!: disjI1 ledger_eqI simp: published_ids_def put_lease_def)
next
  case (tx_failure n nx e ow le q qa ff i)
  then show ?thesis by (auto intro!: disjI1 ledger_eqI simp: published_ids_def)
next
  case (tx_quarantine i row t n e)
  have "ledger_of v' = (ledger_of v)\<lparr>parked := insert i (parked (ledger_of v))\<rparr>"
    by (auto simp: tx_quarantine(1) ledger_simps fun_eq_iff)
  moreover have "posted (ledger_of v) i \<noteq> None" using inv_outbox[OF inv tx_quarantine(3)] by (auto simp: ledger_of_def)
  ultimately show ?thesis using ld_park[of A "ledger_of v" i] tx_quarantine(2) by simp
next
  case (tx_replay i row m now n q)
  from inv_outbox[OF inv tx_replay(3)] tx_replay(4) obtain t' where e: "events_by_id v i = Some (t', m)" by auto
  have "ledger_of v' = (ledger_of v)\<lparr>posted := (posted (ledger_of v))(i \<mapsto> (m, False)), parked := parked (ledger_of v) - {i}\<rparr>"
    using e by (auto simp: tx_replay(1) ledger_simps replay_stmts_def fun_eq_iff)
  with e tx_replay(2) ld_requeue[of A "ledger_of v" i m] show ?thesis by (auto simp: ledger_of_def)
qed

lemma ledger_run:
  "(tx_on A)\<^sup>*\<^sup>* v v' \<Longrightarrow> store_inv v \<Longrightarrow> (ledger_step A)\<^sup>*\<^sup>* (ledger_of v) (ledger_of v')"
proof (induction rule: rtranclp_induct)
  case (step v1 v2)
  from ledger_sim[OF step(2) txs_inv[OF step(1,4)]] step(3)[OF step(4)] show ?case
    by (elim disjE) (simp, rule rtranclp.rtrancl_into_rtrancl)
qed simp

lemma ledger_gc_run: "tx_gc\<^sup>*\<^sup>* v v' \<Longrightarrow> ledger_gc\<^sup>*\<^sup>* (ledger_of v) (ledger_of v')"
proof (induction rule: rtranclp_induct)
  case (step v1 v2)
  from step(2) have "ledger_gc (ledger_of v1) (ledger_of v2)"
  proof cases
    case (gc_key s k t)
    have "ledger_of v2 = (ledger_of v1)\<lparr>bound := (bound (ledger_of v1))((s, k) := None)\<rparr>"
      by (auto simp: gc_key ledger_simps fun_eq_iff)
    then show ?thesis using ld_release[of "ledger_of v1" "(s, k)"] by simp
  next
    case (gc_dead t i)
    have "ledger_of v2 = (ledger_of v1)\<lparr>parked := parked (ledger_of v1) - {i}\<rparr>"
      by (auto simp: gc_dead ledger_simps fun_eq_iff)
    then show ?thesis using ld_drop[of "ledger_of v1" i] by simp
  qed
  with step(3) show ?case by (rule rtranclp.rtrancl_into_rtrancl)
qed simp

text \<open>C3: The store refines the ledger. Whatever fails on the way, an append only binds a fresh key and posts a new event, marking sends
  the event with the given identifier and no other, an inbox claim only consumes, recording a failure
  only parks, a replay only requeues, the cleanup only releases keys and drops dead letters, and the queries and the lease leave the ledger
  as it is. So no operation changes or removes a posted event, only marking sends one, and only a replay takes that back.\<close>

theorem store_refines_ledger:
  assumes "cql_ok S view" and "store_inv (view w)"
  shows "(ledger_step {Bind, Post})\<^sup>*\<^sup>* (ledger_of (view w)) (ledger_of (view (snd (AppendEventExactlyOnce (Some S) ev w)))) \<and>
    (ledger_step (Send ` {i. ParseUUID S eid = Inr i}))\<^sup>*\<^sup>* (ledger_of (view w)) (ledger_of (view (snd (MarkOutboxPublished (Some S) eid b w)))) \<and>
    (ledger_step {Consume})\<^sup>*\<^sup>* (ledger_of (view w)) (ledger_of (view (snd (ClaimInboxMessage (Some S) c m w)))) \<and>
    (ledger_step {Park})\<^sup>*\<^sup>* (ledger_of (view w)) (ledger_of (view (snd (RecordOutboxFailure (Some S) eid le bb mb jp qa w)))) \<and>
    (ledger_step {Requeue})\<^sup>*\<^sup>* (ledger_of (view w)) (ledger_of (view (snd (ReplayDeadLetter (Some S) eid w)))) \<and>
    ledger_gc\<^sup>*\<^sup>* (ledger_of (view w)) (ledger_of (view (snd (CleanupExpired (Some S) ib db n w)))) \<and>
    (\<forall>f \<in> {snd \<circ> PendingOutboxEvents (Some S) n, snd \<circ> RecentEvents (Some S) st n, snd \<circ> ListDeadLetters (Some S) n,
       snd \<circ> ClaimOutboxLease (Some S) eid ow d}. ledger_of (view (f w)) = ledger_of (view w))"
proof -
  note ok = assms(1)
  have m: "(tx_on (Send ` {i. ParseUUID S eid = Inr i}))\<^sup>*\<^sup>* (view w) (view (snd (MarkOutboxPublished (Some S) eid b w)))"
    by (rule refines_Mark[OF ok]) simp
  have f: "(ledger_step ({Retry, Park} - {Retry}))\<^sup>*\<^sup>* (ledger_of (view w))
      (ledger_of (view (snd (RecordOutboxFailure (Some S) eid le bb mb jp qa w))))"
    by (rule ledger_steps_retry[OF ledger_run[OF refines_RecordFailure[OF ok] assms(2)]])
  have "(ledger_step ({Retry} - {Retry}))\<^sup>*\<^sup>* (ledger_of (view w)) (ledger_of (view (snd (ClaimOutboxLease (Some S) eid ow d w))))"
    by (rule ledger_steps_retry[OF ledger_run[OF refines_ClaimLease[OF ok] assms(2)]])
  then have l: "ledger_of (view (snd (ClaimOutboxLease (Some S) eid ow d w))) = ledger_of (view w)" by (simp add: ledger_step_none)
  have "{Retry, Park} - {Retry} = {Park}" by auto
  with f l ledger_run[OF m assms(2)] ledger_run[OF refines_Append[OF ok] assms(2), of ev] ledger_run[OF refines_ClaimInbox[OF ok] assms(2), of c m]
    ledger_run[OF refines_Replay[OF ok assms(2)] assms(2), of eid] ledger_gc_run[OF refines_Cleanup[OF ok], of w ib db n]
  show ?thesis by (simp add: view_Pending[OF ok] view_Recent[OF ok] view_ListDL[OF ok])
qed

theorem store_refines_ledger_witness:
  "(ledger_step {Send 1})\<^sup>*\<^sup>* (ledger_of (mem_view mem1)) (ledger_of (mem_view (snd (MarkOutboxPublished M ''x'' ''b7'' mem1)))) \<and>
   posted (ledger_of (mem_view mem1)) 1 \<noteq> posted (ledger_of (mem_view (snd (MarkOutboxPublished M ''x'' ''b7'' mem1)))) 1"
proof -
  have i: "store_inv (mem_view mem1)"
    using txs_inv[OF refines_Append[OF mem_session_ok], of mem0 False ev0] store_inv_empty mem0_empty by (simp add: mem1_def)
  have p: "ParseUUID (mem_session False) ''x'' = Inr 1" by code_simp
  let ?w = "snd (MarkOutboxPublished M ''x'' ''b7'' mem1)"
  have "map (\<lambda>(i, r). (i, ob_state r)) (ml_outbox_events mem1) = [(1, Some ''pending'')]"
    "map (\<lambda>(i, r). (i, ob_state r)) (ml_outbox_events ?w) = [(1, Some ''published'')]"
    "map fst (ml_events_by_id mem1) = [1]" "map fst (ml_events_by_id ?w) = [1]" by code_simp+
  then have "posted (ledger_of (mem_view mem1)) 1 \<noteq> posted (ledger_of (mem_view ?w)) 1"
    by (auto simp: ledger_simps mem_view_def)
  with conjunct1[OF conjunct2[OF store_refines_ledger[OF mem_session_ok[of False] i, where eid = "''x''" and b = "''b7''"]]] p show ?thesis by simp
qed

end
