(* ===== verification/Breaker.thy ===== *)
theory Breaker
  imports Shiro_Prelude
begin

text \<open>
  The circuit breaker of \<^verbatim>\<open>internal/core/app.go\<close> (\<open>circuitBreaker\<close>): its record, its three
  operations as functions of the clock reading they take, the step relation of any interleaving
  of them, and the call pattern every guarded dependency uses (\<open>gated\<close>). The locale
  \<open>call_gate\<close> states what that pattern relies on; it is interpreted on the breaker.
\<close>

section \<open>Model\<close>

datatype breakerState = breakerClosed | breakerOpen | breakerHalfOpen

record circuitBreaker =
  cbName :: string
  failureThreshold :: int
  openDuration :: duration
  halfOpenSuccesses :: int
  cbState :: breakerState
  consecutiveFailures :: int
  consecutiveSuccess :: int
  openedAt :: time

definition newCircuitBreaker :: "string \<Rightarrow> int \<Rightarrow> duration \<Rightarrow> int \<Rightarrow> circuitBreaker" where
  "newCircuitBreaker nm threshold dur succs =
     \<lparr>cbName = nm, failureThreshold = max_go 1 threshold, openDuration = dur,
      halfOpenSuccesses = max_go 1 succs, cbState = breakerClosed,
      consecutiveFailures = 0, consecutiveSuccess = 0, openedAt = zero_time\<rparr>"

text \<open>\<open>Allow\<close>, \<open>Success\<close> and \<open>Failure\<close>; the second argument is the reading of \<open>time.Now()\<close>.\<close>

definition cbAllow :: "circuitBreaker \<Rightarrow> time \<Rightarrow> bool \<times> circuitBreaker" where
  "cbAllow b now =
     (case cbState b of
        breakerClosed \<Rightarrow> (True, b)
      | breakerOpen \<Rightarrow>
          (if now - openedAt b \<ge> openDuration b
           then (True, b\<lparr>cbState := breakerHalfOpen, consecutiveSuccess := 0\<rparr>)
           else (False, b))
      | breakerHalfOpen \<Rightarrow> (True, b))"

definition cbSuccess :: "circuitBreaker \<Rightarrow> time \<Rightarrow> circuitBreaker" where
  "cbSuccess b now =
     (case cbState b of
        breakerHalfOpen \<Rightarrow>
          (let b1 = b\<lparr>consecutiveSuccess := consecutiveSuccess b + 1\<rparr> in
           if consecutiveSuccess b1 \<ge> halfOpenSuccesses b1
           then b1\<lparr>cbState := breakerClosed, consecutiveFailures := 0, consecutiveSuccess := 0\<rparr>
           else b1)
      | breakerClosed \<Rightarrow> b\<lparr>consecutiveFailures := 0\<rparr>
      | breakerOpen \<Rightarrow> b)"

definition cbFailure :: "circuitBreaker \<Rightarrow> time \<Rightarrow> circuitBreaker" where
  "cbFailure b now =
     (let b1 = b\<lparr>consecutiveFailures := consecutiveFailures b + 1, consecutiveSuccess := 0\<rparr> in
      if consecutiveFailures b1 \<ge> failureThreshold b1 \<or> cbState b1 = breakerHalfOpen
      then b1\<lparr>cbState := breakerOpen, openedAt := now\<rparr>
      else b1)"

text \<open>Any sequence of the three operations, in any order: what concurrent callers may do to the
  breaker, since each operation holds its mutex.\<close>

inductive cb_step :: "circuitBreaker \<Rightarrow> circuitBreaker \<Rightarrow> bool" where
  step_allow: "cb_step b (snd (cbAllow b now))"
| step_success: "cb_step b (cbSuccess b now)"
| step_failure: "cb_step b (cbFailure b now)"

inductive cb_reach :: "circuitBreaker \<Rightarrow> bool" where
  reach_new: "cb_reach (newCircuitBreaker nm threshold dur succs)"
| reach_step: "cb_reach b \<Longrightarrow> cb_step b b' \<Longrightarrow> cb_reach b'"

text \<open>The state a run of failures, or of successes, leaves behind.\<close>

fun cb_failures :: "circuitBreaker \<Rightarrow> time list \<Rightarrow> circuitBreaker" where
  "cb_failures b [] = b"
| "cb_failures b (t # ts) = cb_failures (cbFailure b t) ts"

fun cb_successes :: "circuitBreaker \<Rightarrow> time list \<Rightarrow> circuitBreaker" where
  "cb_successes b [] = b"
| "cb_successes b (t # ts) = cb_successes (cbSuccess b t) ts"

text \<open>The pattern of \<open>busPublish\<close>, \<open>storeAppendEventExactlyOnce\<close> and the other guarded calls of
  \<open>App\<close>: a nil gate is skipped, a refusing gate gives the \<open>circuit open\<close> error without a
  call, and the outcome of the call is reported to the gate.\<close>

definition gated ::
  "('b \<Rightarrow> time \<Rightarrow> bool \<times> 'b) \<Rightarrow> ('b \<Rightarrow> time \<Rightarrow> 'b) \<Rightarrow> ('b \<Rightarrow> time \<Rightarrow> 'b) \<Rightarrow> ('w \<Rightarrow> time \<times> 'w) \<Rightarrow>
   goerr \<Rightarrow> ('a, 'w) call \<Rightarrow> 'b option \<Rightarrow> 'w \<Rightarrow> (goerr + 'a) \<times> 'b option \<times> 'w" where
  "gated al su fa clk openErr call br w =
     (case br of
        None \<Rightarrow> (let (r, w1) = call w in (r, None, w1))
      | Some b \<Rightarrow>
          (let (t0, w0) = clk w; (ok, b0) = al b t0 in
           if \<not> ok then (Inl openErr, Some b0, w0)
           else
             (let (r, w1) = call w0; (t1, w2) = clk w1 in
              case r of
                Inl e \<Rightarrow> (Inl e, Some (fa b0 t1), w2)
              | Inr x \<Rightarrow> (Inr x, Some (su b0 t1), w2))))"

section \<open>The gate contract\<close>

locale call_gate =
  fixes allow :: "'b \<Rightarrow> time \<Rightarrow> bool \<times> 'b"
    and success :: "'b \<Rightarrow> time \<Rightarrow> 'b"
    and failure :: "'b \<Rightarrow> time \<Rightarrow> 'b"
    and inv :: "'b \<Rightarrow> bool"
    and tripped :: "'b \<Rightarrow> time \<Rightarrow> bool"
  assumes inv_allow: "inv b \<Longrightarrow> inv (snd (allow b t))"
    and inv_success: "inv b \<Longrightarrow> inv (success b t)"
    and inv_failure: "inv b \<Longrightarrow> inv (failure b t)"
    and allow_iff: "fst (allow b t) \<longleftrightarrow> \<not> tripped b t"
    and refuse_keeps: "tripped b t \<Longrightarrow> snd (allow b t) = b"
begin

lemma gated_tripped:
  assumes "tripped b (fst (clk w))"
  shows "gated allow success failure clk e call (Some b) w = (Inl e, Some b, snd (clk w))"
proof -
  have "allow b (fst (clk w)) = (False, b)"
    using allow_iff[of b "fst (clk w)"] refuse_keeps[OF assms] assms
    by (cases "allow b (fst (clk w))") simp
  then show ?thesis by (simp add: gated_def split_beta)
qed

lemma gated_inv:
  assumes "pred_option inv br" and "gated allow success failure clk e call br w = (r, br', w')"
  shows "pred_option inv br'"
  using assms
  by (auto simp: gated_def split_beta Let_def inv_success inv_failure inv_allow
      split: option.splits if_splits sum.splits)

lemma gated_open:
  assumes "\<not> tripped b (fst (clk w))"
  shows "fst (gated allow success failure clk e call (Some b) w) = fst (call (snd (clk w)))"
  using assms allow_iff[of b "fst (clk w)"]
  by (auto simp: gated_def split_beta Let_def split: sum.splits)

lemma gated_result:
  assumes "gated allow success failure clk e call br w = (Inr x, br', w')"
  shows "\<exists>w0. fst (call w0) = Inr x"
  using assms
  by (auto simp: gated_def split_beta Let_def split: option.splits if_splits sum.splits)

end

section \<open>The breaker meets the contract\<close>

definition cb_inv :: "circuitBreaker \<Rightarrow> bool" where
  "cb_inv b \<longleftrightarrow>
     1 \<le> failureThreshold b \<and> 1 \<le> halfOpenSuccesses b \<and>
     0 \<le> consecutiveFailures b \<and> 0 \<le> consecutiveSuccess b \<and>
     (cbState b = breakerClosed \<longrightarrow> consecutiveFailures b < failureThreshold b) \<and>
     (cbState b = breakerHalfOpen \<longrightarrow> consecutiveSuccess b < halfOpenSuccesses b)"

definition cb_tripped :: "circuitBreaker \<Rightarrow> time \<Rightarrow> bool" where
  "cb_tripped b now \<longleftrightarrow> cbState b = breakerOpen \<and> now - openedAt b < openDuration b"

lemmas cb_defs = cbAllow_def cbSuccess_def cbFailure_def Let_def

lemma cb_inv_new: "cb_inv (newCircuitBreaker nm threshold dur succs)"
  by (simp add: cb_inv_def newCircuitBreaker_def)

lemma cb_inv_allow: "cb_inv b \<Longrightarrow> cb_inv (snd (cbAllow b t))"
  by (auto simp: cb_inv_def cb_defs split: breakerState.splits)

lemma cb_inv_success: "cb_inv b \<Longrightarrow> cb_inv (cbSuccess b t)"
  by (auto simp: cb_inv_def cb_defs split: breakerState.splits)

lemma cb_inv_failure: "cb_inv b \<Longrightarrow> cb_inv (cbFailure b t)"
  by (auto simp: cb_inv_def cb_defs)

lemma cb_allow_iff: "fst (cbAllow b t) \<longleftrightarrow> \<not> cb_tripped b t"
  by (auto simp: cb_tripped_def cbAllow_def split: breakerState.splits)

lemma cb_refuse_keeps: "cb_tripped b t \<Longrightarrow> snd (cbAllow b t) = b"
  by (simp add: cb_tripped_def cbAllow_def)

interpretation cbgate: call_gate cbAllow cbSuccess cbFailure cb_inv cb_tripped
  by unfold_locales
    (simp_all add: cb_inv_allow cb_inv_success cb_inv_failure cb_allow_iff cb_refuse_keeps)

lemma cb_step_inv: "cb_step b b' \<Longrightarrow> cb_inv b \<Longrightarrow> cb_inv b'"
  by (induction rule: cb_step.induct) (simp_all add: cb_inv_allow cb_inv_success cb_inv_failure)

lemma cb_failures_open:
  "cb_inv b \<Longrightarrow> cbState b = breakerOpen \<Longrightarrow> failureThreshold b \<le> consecutiveFailures b \<Longrightarrow>
   cbState (cb_failures b ts) = breakerOpen"
proof (induction ts arbitrary: b)
  case Nil
  then show ?case by simp
next
  case (Cons t ts)
  have "cbState (cb_failures (cbFailure b t) ts) = breakerOpen"
    using Cons.prems by (intro Cons.IH cb_inv_failure) (simp_all add: cb_defs)
  then show ?case by simp
qed

lemma cb_successes_closed:
  "cbState b = breakerClosed \<Longrightarrow> consecutiveFailures b = 0 \<Longrightarrow>
   cbState (cb_successes b ts) = breakerClosed \<and> consecutiveFailures (cb_successes b ts) = 0"
  by (induction ts arbitrary: b) (simp_all add: cb_defs)

lemma cb_successes_half_open:
  "cb_inv b \<Longrightarrow> cbState b = breakerHalfOpen \<Longrightarrow>
   cbState (cb_successes b ts) =
     (if halfOpenSuccesses b - consecutiveSuccess b \<le> int (length ts)
      then breakerClosed else breakerHalfOpen) \<and>
   (halfOpenSuccesses b - consecutiveSuccess b \<le> int (length ts) \<longrightarrow>
      consecutiveFailures (cb_successes b ts) = 0)"
proof (induction ts arbitrary: b)
  case Nil
  then show ?case by (simp add: cb_inv_def)
next
  case (Cons t ts)
  show ?case
  proof (cases "halfOpenSuccesses b \<le> consecutiveSuccess b + 1")
    case True
    then have "cbState (cbSuccess b t) = breakerClosed \<and> consecutiveFailures (cbSuccess b t) = 0"
      using Cons.prems by (simp add: cb_defs)
    with True cb_successes_closed[of "cbSuccess b t" ts] show ?thesis by simp
  next
    case False
    have "cb_inv (cbSuccess b t)" using Cons.prems by (simp add: cb_inv_success)
    moreover have "cbState (cbSuccess b t) = breakerHalfOpen"
      "halfOpenSuccesses (cbSuccess b t) = halfOpenSuccesses b"
      "consecutiveSuccess (cbSuccess b t) = consecutiveSuccess b + 1"
      using False Cons.prems by (simp_all add: cb_defs)
    ultimately show ?thesis using Cons.IH[of "cbSuccess b t"] by (simp add: algebra_simps)
  qed
qed

section \<open>Properties\<close>

text \<open>C11: In every state that any interleaving of \<open>Allow\<close>, \<open>Success\<close> and \<open>Failure\<close> can reach from
  \<open>newCircuitBreaker\<close>, thresholds are at least 1, counters are not negative, a closed breaker has
  seen fewer failures in a row than its threshold, and a half-open one fewer successes than
  it needs to close.\<close>

theorem breaker_invariant:
  assumes "cb_reach b"
  shows "cb_inv b"
  using assms
proof (induction rule: cb_reach.induct)
  case (reach_new nm threshold dur succs)
  show ?case by (rule cb_inv_new)
next
  case (reach_step b b')
  then show ?case by (blast intro: cb_step_inv)
qed

theorem breaker_invariant_witness:
  "cb_inv (cbFailure (newCircuitBreaker ''nats'' 2 50 1) 7)"
  by (rule breaker_invariant, rule reach_step, rule reach_new, rule step_failure)

text \<open>C12: A closed breaker opens exactly when the failures in a row reach its threshold: after
  \<open>n\<close> more failures it is open if \<open>n\<close> covers what is missing to \<open>failureThreshold\<close>, and is
  still closed otherwise.\<close>

theorem breaker_trips_at_threshold:
  assumes "cb_inv b" and "cbState b = breakerClosed"
  shows "cbState (cb_failures b ts) =
    (if failureThreshold b - consecutiveFailures b \<le> int (length ts) then breakerOpen else breakerClosed)"
  using assms
proof (induction ts arbitrary: b)
  case Nil
  then show ?case by (simp add: cb_inv_def)
next
  case (Cons t ts)
  show ?case
  proof (cases "failureThreshold b \<le> consecutiveFailures b + 1")
    case True
    then have "cbState (cb_failures (cbFailure b t) ts) = breakerOpen"
      using Cons.prems by (intro cb_failures_open cb_inv_failure) (simp_all add: cb_defs)
    with True show ?thesis by simp
  next
    case False
    have "cbState (cb_failures (cbFailure b t) ts) =
      (if failureThreshold (cbFailure b t) - consecutiveFailures (cbFailure b t) \<le> int (length ts)
       then breakerOpen else breakerClosed)"
      using Cons.prems False by (intro Cons.IH cb_inv_failure) (simp_all add: cb_defs)
    with False Cons.prems show ?thesis by (simp add: cb_defs algebra_simps)
  qed
qed

theorem breaker_trips_at_threshold_witness:
  "cb_inv (newCircuitBreaker ''nats'' 2 50 1) \<and> cbState (newCircuitBreaker ''nats'' 2 50 1) = breakerClosed \<and>
   cbState (cb_failures (newCircuitBreaker ''nats'' 2 50 1) [10, 20]) = breakerOpen"
proof -
  have h: "cb_inv (newCircuitBreaker ''nats'' 2 50 1)" by (rule cb_inv_new)
  have c: "cbState (newCircuitBreaker ''nats'' 2 50 1) = breakerClosed"
    by (simp add: newCircuitBreaker_def)
  show ?thesis
    using h c breaker_trips_at_threshold [OF h c, of "[10, 20]"] by (simp add: newCircuitBreaker_def)
qed



end
