(* ===== verification/Limits.thy ===== *)
theory Limits
  imports Shiro_Prelude
begin

text \<open>
  The admission controls of \<^verbatim>\<open>internal/core/app.go\<close>: the per-client limiter with its bounded
  table (\<open>ipRateLimiter\<close>), the per-subject limiter (\<open>subjectRateLimiter\<close>), the guard against
  repeated authentication failures (\<open>authFailureGuard\<close>) and the channel semaphores of the
  bulkheads (\<open>acquireGuard\<close>, \<open>releaseGuard\<close>).

  The token bucket of \<^verbatim>\<open>golang.org/x/time/rate\<close> is a parameter: a constructor and an \<open>Allow\<close>
  step on an arbitrary limiter state \<open>'l\<close>. A Go map is an association list with distinct keys;
  the order in which \<open>range\<close> visits it is a parameter too (\<open>ord\<close>), any permutation.
\<close>

section \<open>Parameters\<close>

record 'l rate_lib =
  NewLimiter :: "int \<Rightarrow> int \<Rightarrow> 'l"
  LimiterAllow :: "'l \<Rightarrow> time \<Rightarrow> bool \<times> 'l"

text \<open>What the language promises of \<open>range\<close> over a map: each entry once, in some order.\<close>

definition range_order :: "('a list \<Rightarrow> 'a list) \<Rightarrow> bool" where
  "range_order ord \<longleftrightarrow> (\<forall>xs. mset (ord xs) = mset xs)"

lemma range_order_set: "range_order ord \<Longrightarrow> set (ord xs) = set xs"
  by (metis range_order_def mset_eq_setD)

section \<open>Per-client limiter\<close>

record 'l ipLimiterEntry =
  lim :: 'l
  lastSeen :: time

record 'l ipRateLimiter =
  iplRate :: int
  iplBurst :: int
  maxIPs :: int
  ttl :: duration
  nextSweep :: time
  iplData :: "(string \<times> 'l ipLimiterEntry) list"
  lastEvictedIP :: string

definition newIPRateLimiter :: "int \<Rightarrow> int \<Rightarrow> int \<Rightarrow> duration \<Rightarrow> time \<Rightarrow> 'l ipRateLimiter" where
  "newIPRateLimiter r b mx d now =
     \<lparr>iplRate = r, iplBurst = b, maxIPs = max_go 100 mx, ttl = d,
      nextSweep = now + minute, iplData = [], lastEvictedIP = []\<rparr>"

definition sweepLocked ::
  "((string \<times> 'l ipLimiterEntry) list \<Rightarrow> (string \<times> 'l ipLimiterEntry) list) \<Rightarrow>
   time \<Rightarrow> 'l ipRateLimiter \<Rightarrow> 'l ipRateLimiter" where
  "sweepLocked ord now l =
     (if ttl l \<le> 0 then l\<lparr>nextSweep := now + minute\<rparr>
      else
        (let cutoff = now - ttl l;
             d = fold (\<lambda>(ip, e) d. if lastSeen e < cutoff then AList.delete ip d else d)
                   (ord (iplData l)) (iplData l)
         in l\<lparr>iplData := d, nextSweep := now + minute\<rparr>))"

text \<open>The scan for the oldest entry: \<open>None\<close> while \<open>first\<close> holds.\<close>

fun oldest_from ::
  "(string \<times> time) option \<Rightarrow> (string \<times> 'l ipLimiterEntry) list \<Rightarrow> (string \<times> time) option" where
  "oldest_from best [] = best"
| "oldest_from best ((ip, e) # es) =
     (case best of
        None \<Rightarrow> oldest_from (Some (ip, lastSeen e)) es
      | Some (oip, seen) \<Rightarrow>
          (if lastSeen e < seen then oldest_from (Some (ip, lastSeen e)) es
           else oldest_from best es))"

definition evictOldestLocked ::
  "((string \<times> 'l ipLimiterEntry) list \<Rightarrow> (string \<times> 'l ipLimiterEntry) list) \<Rightarrow>
   'l ipRateLimiter \<Rightarrow> 'l ipRateLimiter" where
  "evictOldestLocked ord l =
     (let oldestIP = (case oldest_from None (ord (iplData l)) of None \<Rightarrow> [] | Some (ip, _) \<Rightarrow> ip) in
      if oldestIP \<noteq> [] then l\<lparr>iplData := AList.delete oldestIP (iplData l), lastEvictedIP := oldestIP\<rparr>
      else l)"

text \<open>\<open>Allow\<close>: \<open>now\<close> is the clock reading at its start, \<open>now2\<close> the one inside
  \<open>rate.Limiter.Allow\<close>.\<close>

definition iplAllow ::
  "'l rate_lib \<Rightarrow> ((string \<times> 'l ipLimiterEntry) list \<Rightarrow> (string \<times> 'l ipLimiterEntry) list) \<Rightarrow>
   time \<Rightarrow> time \<Rightarrow> string \<Rightarrow> 'l ipRateLimiter \<Rightarrow> bool \<times> 'l ipRateLimiter" where
  "iplAllow R ord now now2 ip l =
     (let l1 = (if now > nextSweep l then sweepLocked ord now l else l);
          (entry, l2) =
            (case map_of (iplData l1) ip of
               Some e \<Rightarrow> (e, l1)
             | None \<Rightarrow>
                 (let l' = (if int (length (iplData l1)) \<ge> maxIPs l1 then evictOldestLocked ord l1 else l1);
                      e = \<lparr>lim = NewLimiter R (iplRate l') (iplBurst l'), lastSeen = now\<rparr>
                  in (e, l'\<lparr>iplData := AList.update ip e (iplData l')\<rparr>)));
          (ok, lim') = LimiterAllow R (lim entry) now2;
          entry' = entry\<lparr>lastSeen := now, lim := lim'\<rparr>
      in (ok, l2\<lparr>iplData := AList.update ip entry' (iplData l2)\<rparr>))"

section \<open>Per-subject limiter\<close>

record 'l subjectRateLimiter =
  defaultR :: int
  defaultB :: int
  overrides :: "string \<rightharpoonup> int"
  limiters :: "string \<rightharpoonup> 'l"

definition newSubjectRateLimiter :: "int \<Rightarrow> int \<Rightarrow> (string \<rightharpoonup> int) \<Rightarrow> 'l subjectRateLimiter" where
  "newSubjectRateLimiter r b ov =
     \<lparr>defaultR = r, defaultB = max_go 1 b, overrides = ov, limiters = Map.empty\<rparr>"

definition subjAllow ::
  "'l rate_lib \<Rightarrow> time \<Rightarrow> string \<Rightarrow> 'l subjectRateLimiter \<Rightarrow> bool \<times> 'l subjectRateLimiter" where
  "subjAllow R now subject l =
     (let lm =
        (case limiters l subject of
           Some x \<Rightarrow> x
         | None \<Rightarrow>
             (case overrides l subject of
                Some ov \<Rightarrow>
                  (if ov > 0 then NewLimiter R ov (max_go 1 (i64 (ov * 2)))
                   else NewLimiter R (defaultR l) (defaultB l))
              | None \<Rightarrow> NewLimiter R (defaultR l) (defaultB l)));
          (ok, lm') = LimiterAllow R lm now
      in (ok, l\<lparr>limiters := (limiters l)(subject \<mapsto> lm')\<rparr>))"

section \<open>Authentication failures\<close>

record authFailureGuard =
  maxFailures :: int
  blockFor :: duration
  failures :: "string \<rightharpoonup> int"
  blockedTill :: "string \<rightharpoonup> time"

definition newAuthFailureGuard :: "int \<Rightarrow> duration \<Rightarrow> authFailureGuard" where
  "newAuthFailureGuard m d =
     \<lparr>maxFailures = max_go 1 m, blockFor = d, failures = Map.empty, blockedTill = Map.empty\<rparr>"

definition agIsBlocked :: "authFailureGuard \<Rightarrow> string \<Rightarrow> time \<Rightarrow> bool \<times> authFailureGuard" where
  "agIsBlocked g ip now =
     (case blockedTill g ip of
        None \<Rightarrow> (False, g)
      | Some until \<Rightarrow>
          (if now > until
           then (False, g\<lparr>blockedTill := (blockedTill g)(ip := None), failures := (failures g)(ip := None)\<rparr>)
           else (True, g)))"

definition agFailure :: "authFailureGuard \<Rightarrow> string \<Rightarrow> time \<Rightarrow> authFailureGuard" where
  "agFailure g ip now =
     (let n = (case failures g ip of None \<Rightarrow> 0 | Some n \<Rightarrow> n) + 1;
          g1 = g\<lparr>failures := (failures g)(ip \<mapsto> n)\<rparr>
      in if n \<ge> maxFailures g1
         then g1\<lparr>blockedTill := (blockedTill g1)(ip \<mapsto> now + blockFor g1)\<rparr>
         else g1)"

definition agSuccess :: "authFailureGuard \<Rightarrow> string \<Rightarrow> authFailureGuard" where
  "agSuccess g ip =
     g\<lparr>failures := (failures g)(ip := None), blockedTill := (blockedTill g)(ip := None)\<rparr>"

fun ag_failures :: "authFailureGuard \<Rightarrow> string \<Rightarrow> time list \<Rightarrow> authFailureGuard" where
  "ag_failures g ip [] = g"
| "ag_failures g ip (t # ts) = ag_failures (agFailure g ip t) ip ts"

section \<open>Channel semaphores\<close>

text \<open>A channel used as a semaphore: its capacity and how many slots are taken.\<close>

record guard =
  slots :: int
  taken :: int

definition makeGuard :: "int \<Rightarrow> guard" where
  "makeGuard n = \<lparr>slots = max_go 1 n, taken = 0\<rparr>"

definition acquireGuard :: "guard \<Rightarrow> bool \<times> guard" where
  "acquireGuard g = (if taken g < slots g then (True, g\<lparr>taken := taken g + 1\<rparr>) else (False, g))"

definition releaseGuard :: "guard \<Rightarrow> guard" where
  "releaseGuard g = (if taken g > 0 then g\<lparr>taken := taken g - 1\<rparr> else g)"

section \<open>Lemmas\<close>

lemma sweep_fold_filter:
  "fold (\<lambda>(ip, e) d. if P e then AList.delete ip d else d) es d =
   filter (\<lambda>(ip, _). ip \<notin> fst ` {x \<in> set es. P (snd x)}) d"
proof (induction es arbitrary: d)
  case Nil
  then show ?case by simp
next
  case (Cons p es)
  have "{x \<in> set (p # es). P (snd x)} =
    (if P (snd p) then insert p {x \<in> set es. P (snd x)} else {x \<in> set es. P (snd x)})"
    by auto
  with Cons show ?case
    by (cases p) (auto simp: AList.delete_eq split_def intro: filter_cong)
qed

lemma sweep_data:
  assumes "range_order ord" and "distinct (map fst (iplData l))" and "0 < ttl l"
  shows "iplData (sweepLocked ord now l) = filter (\<lambda>(_, e). now - ttl l \<le> lastSeen e) (iplData l)"
proof -
  have "filter (\<lambda>(ip, _). ip \<notin> fst ` {x \<in> set (iplData l). lastSeen (snd x) < now - ttl l}) (iplData l) =
    filter (\<lambda>(_, e). now - ttl l \<le> lastSeen e) (iplData l)"
  proof (rule filter_cong)
    fix p assume p: "p \<in> set (iplData l)"
    then have "fst p \<in> fst ` {x \<in> set (iplData l). lastSeen (snd x) < now - ttl l} \<longleftrightarrow>
      lastSeen (snd p) < now - ttl l"
      using assms(2) by (auto simp: distinct_map dest: inj_onD)
    then show "(case p of (ip, _) \<Rightarrow> ip \<notin> fst ` {x \<in> set (iplData l). lastSeen (snd x) < now - ttl l}) =
      (case p of (_, e) \<Rightarrow> now - ttl l \<le> lastSeen e)"
      by (cases p) auto
  qed simp
  then show ?thesis
    using assms by (simp add: sweepLocked_def Let_def sweep_fold_filter range_order_set)
qed

lemma oldest_from_some:
  "\<exists>ip t. oldest_from (Some (ip0, t0)) es = Some (ip, t) \<and>
     ((ip, t) = (ip0, t0) \<or> (\<exists>e. (ip, e) \<in> set es \<and> t = lastSeen e)) \<and>
     t \<le> t0 \<and> (\<forall>(_, e) \<in> set es. t \<le> lastSeen e)"
proof (induction es arbitrary: ip0 t0)
  case Nil
  then show ?case by simp
next
  case (Cons p es)
  obtain ip1 e1 where p: "p = (ip1, e1)" by (cases p)
  show ?case
  proof (cases "lastSeen e1 < t0")
    case True
    obtain ip t where "oldest_from (Some (ip1, lastSeen e1)) es = Some (ip, t)"
      "(ip, t) = (ip1, lastSeen e1) \<or> (\<exists>e. (ip, e) \<in> set es \<and> t = lastSeen e)"
      "t \<le> lastSeen e1" "\<forall>(_, e) \<in> set es. t \<le> lastSeen e"
      using Cons.IH[of ip1 "lastSeen e1"] by blast
    with True p show ?thesis by (intro exI[of _ ip] exI[of _ t]) auto
  next
    case False
    obtain ip t where "oldest_from (Some (ip0, t0)) es = Some (ip, t)"
      "(ip, t) = (ip0, t0) \<or> (\<exists>e. (ip, e) \<in> set es \<and> t = lastSeen e)"
      "t \<le> t0" "\<forall>(_, e) \<in> set es. t \<le> lastSeen e"
      using Cons.IH[of ip0 t0] by blast
    with False p show ?thesis by (intro exI[of _ ip] exI[of _ t]) auto
  qed
qed

lemma oldest_from_none:
  assumes "es \<noteq> []"
  shows "\<exists>ip e. oldest_from None es = Some (ip, lastSeen e) \<and> (ip, e) \<in> set es \<and>
    (\<forall>(_, e') \<in> set es. lastSeen e \<le> lastSeen e')"
proof -
  from assms obtain ip0 e0 es' where es: "es = (ip0, e0) # es'" by (cases es) auto
  obtain ip t where o: "oldest_from (Some (ip0, lastSeen e0)) es' = Some (ip, t)"
    and src: "(ip, t) = (ip0, lastSeen e0) \<or> (\<exists>e. (ip, e) \<in> set es' \<and> t = lastSeen e)"
    and le: "t \<le> lastSeen e0" "\<forall>(_, e) \<in> set es'. t \<le> lastSeen e"
    using oldest_from_some[of ip0 "lastSeen e0" es'] by blast
  from src show ?thesis
  proof
    assume "(ip, t) = (ip0, lastSeen e0)"
    with es o le show ?thesis by auto
  next
    assume "\<exists>e. (ip, e) \<in> set es' \<and> t = lastSeen e"
    then obtain e where "(ip, e) \<in> set es'" "t = lastSeen e" by blast
    with es o le show ?thesis by (intro exI[of _ ip] exI[of _ e]) auto
  qed
qed

text \<open>The table's invariant: distinct keys, no empty key, never more entries than \<open>maxIPs\<close>.\<close>

definition ipl_inv :: "'l ipRateLimiter \<Rightarrow> bool" where
  "ipl_inv l \<longleftrightarrow> distinct (map fst (iplData l)) \<and> [] \<notin> fst ` set (iplData l) \<and>
     1 \<le> maxIPs l \<and> int (length (iplData l)) \<le> maxIPs l"

lemma evict_oldest_cases:
  assumes "range_order ord" and "[] \<notin> fst ` set (iplData l)" and "iplData l \<noteq> []"
  shows "\<exists>ip e. (ip, e) \<in> set (iplData l) \<and> (\<forall>(_, e') \<in> set (iplData l). lastSeen e \<le> lastSeen e') \<and>
    evictOldestLocked ord l = l\<lparr>iplData := AList.delete ip (iplData l), lastEvictedIP := ip\<rparr>"
proof -
  have s: "set (ord (iplData l)) = set (iplData l)" using assms(1) by (rule range_order_set)
  then have "ord (iplData l) \<noteq> []" using assms(3) by (metis set_empty)
  then obtain ip e where o: "oldest_from None (ord (iplData l)) = Some (ip, lastSeen e)"
    and m: "(ip, e) \<in> set (iplData l)" and le: "\<forall>(_, e') \<in> set (iplData l). lastSeen e \<le> lastSeen e'"
    using oldest_from_none[of "ord (iplData l)"] s by auto
  from m assms(2) have "ip \<noteq> []" by force
  with o m le show ?thesis by (intro exI[of _ ip] exI[of _ e]) (simp add: evictOldestLocked_def)
qed

lemma ipl_inv_sweep:
  assumes "range_order ord" and "ipl_inv l"
  shows "ipl_inv (sweepLocked ord now l) \<and> maxIPs (sweepLocked ord now l) = maxIPs l"
proof (cases "0 < ttl l")
  case True
  have d: "iplData (sweepLocked ord now l) = filter (\<lambda>(_, e). now - ttl l \<le> lastSeen e) (iplData l)"
    using assms True by (intro sweep_data) (simp_all add: ipl_inv_def)
  have m: "maxIPs (sweepLocked ord now l) = maxIPs l" by (simp add: sweepLocked_def Let_def)
  have "length (iplData (sweepLocked ord now l)) \<le> length (iplData l)"
    unfolding d by (rule length_filter_le)
  moreover have "fst ` set (iplData (sweepLocked ord now l)) \<subseteq> fst ` set (iplData l)"
    unfolding d by auto
  moreover have "distinct (map fst (iplData (sweepLocked ord now l)))"
    unfolding d using assms(2) by (simp add: ipl_inv_def distinct_keys_filter)
  ultimately show ?thesis using assms(2) m by (auto simp: ipl_inv_def)
next
  case False
  then show ?thesis using assms(2) by (simp add: sweepLocked_def ipl_inv_def)
qed

lemma ipl_inv_evict:
  assumes "range_order ord" and "ipl_inv l" and "maxIPs l \<le> int (length (iplData l))"
  shows "ipl_inv (evictOldestLocked ord l) \<and> maxIPs (evictOldestLocked ord l) = maxIPs l \<and>
    int (length (iplData (evictOldestLocked ord l))) < maxIPs l"
proof -
  from assms have "iplData l \<noteq> []" by (auto simp: ipl_inv_def)
  with assms obtain ip e where m: "(ip, e) \<in> set (iplData l)"
    and ev: "evictOldestLocked ord l = l\<lparr>iplData := AList.delete ip (iplData l), lastEvictedIP := ip\<rparr>"
    using evict_oldest_cases[of ord l] by (auto simp: ipl_inv_def)
  from m have "ip \<in> fst ` set (iplData l)" by force
  then have "Suc (length (AList.delete ip (iplData l))) = length (iplData l)"
    using assms(2) by (intro length_delete_present) (simp_all add: ipl_inv_def)
  then show ?thesis using assms(2) ev
    by (auto simp: ipl_inv_def distinct_keys_filter AList.delete_eq)
qed

text \<open>Authentication guard.\<close>

definition ag_count :: "authFailureGuard \<Rightarrow> string \<Rightarrow> int" where
  "ag_count g ip = (case failures g ip of None \<Rightarrow> 0 | Some n \<Rightarrow> n)"

lemma ag_failures_snoc: "ag_failures g ip (ts @ [t]) = agFailure (ag_failures g ip ts) ip t"
  by (induction ts arbitrary: g) simp_all

lemma ag_failures_consts:
  "maxFailures (ag_failures g ip ts) = maxFailures g \<and> blockFor (ag_failures g ip ts) = blockFor g"
  by (induction ts arbitrary: g) (simp_all add: agFailure_def Let_def)

lemma ag_failures_count: "ag_count (ag_failures g ip ts) ip = ag_count g ip + int (length ts)"
  by (induction ts arbitrary: g) (simp_all add: agFailure_def Let_def ag_count_def)

lemma ag_failures_frame:
  "ip' \<noteq> ip \<Longrightarrow> failures (ag_failures g ip ts) ip' = failures g ip' \<and>
     blockedTill (ag_failures g ip ts) ip' = blockedTill g ip'"
  by (induction ts arbitrary: g) (simp_all add: agFailure_def Let_def)

lemma ag_failures_below:
  "ag_count g ip + int (length ts) < maxFailures g \<Longrightarrow>
   blockedTill (ag_failures g ip ts) ip = blockedTill g ip"
proof (induction ts rule: rev_induct)
  case Nil
  then show ?case by simp
next
  case (snoc t ts)
  have "ag_count (ag_failures g ip ts) ip + 1 < maxFailures g"
    using snoc.prems by (simp add: ag_failures_count)
  with snoc ag_failures_consts[of g ip ts] show ?case
    by (simp add: ag_failures_snoc agFailure_def Let_def ag_count_def)
qed

lemma ag_blocked_till:
  assumes "ag_count g ip = 0" and "blockedTill g ip = None" and "1 \<le> maxFailures g"
  shows "blockedTill (ag_failures g ip ts) ip =
    (if maxFailures g \<le> int (length ts) then Some (last ts + blockFor g) else None)"
proof (cases ts rule: rev_cases)
  case Nil
  with assms show ?thesis by simp
next
  case (snoc ts' t)
  show ?thesis
  proof (cases "maxFailures g \<le> int (length ts)")
    case True
    have "ag_count (ag_failures g ip ts') ip + 1 = int (length ts)"
      using snoc assms(1) by (simp add: ag_failures_count)
    with True snoc ag_failures_consts[of g ip ts'] show ?thesis
      by (simp add: ag_failures_snoc agFailure_def Let_def ag_count_def)
  next
    case False
    with assms show ?thesis by (simp add: ag_failures_below)
  qed
qed

lemma ag_is_blocked:
  "fst (agIsBlocked g ip now) \<longleftrightarrow> (\<exists>until. blockedTill g ip = Some until \<and> now \<le> until)"
  by (auto simp: agIsBlocked_def split: option.splits)

text \<open>A concrete token bucket, a counter that never refills, for the witnesses.\<close>

definition counter_lib :: "int rate_lib" where
  "counter_lib = \<lparr>NewLimiter = (\<lambda>r b. b), LimiterAllow = (\<lambda>n t. (0 < n, n - 1))\<rparr>"

lemma range_order_id: "range_order (\<lambda>xs. xs)" and range_order_rev: "range_order rev"
  by (simp_all add: range_order_def)

section \<open>Properties\<close>



text \<open>Eviction removes a least recently seen client and records it; every other entry stays.\<close>

theorem evict_oldest_is_lru:
  assumes "range_order ord" and "ipl_inv l" and "iplData l \<noteq> []"
  shows "\<exists>ip e. map_of (iplData l) ip = Some e \<and> lastEvictedIP (evictOldestLocked ord l) = ip \<and>
    (\<forall>ip' e'. map_of (iplData l) ip' = Some e' \<longrightarrow> lastSeen e \<le> lastSeen e') \<and>
    map_of (iplData (evictOldestLocked ord l)) = (map_of (iplData l))(ip := None)"
proof -
  from assms obtain ip e where m: "(ip, e) \<in> set (iplData l)"
    and le: "\<forall>(_, e') \<in> set (iplData l). lastSeen e \<le> lastSeen e'"
    and ev: "evictOldestLocked ord l = l\<lparr>iplData := AList.delete ip (iplData l), lastEvictedIP := ip\<rparr>"
    using evict_oldest_cases[of ord l] by (auto simp: ipl_inv_def)
  have "map_of (iplData l) ip = Some e"
    using m assms(2) by (simp add: ipl_inv_def)
  moreover have "\<forall>ip' e'. map_of (iplData l) ip' = Some e' \<longrightarrow> lastSeen e \<le> lastSeen e'"
    using le by (force dest: map_of_SomeD)
  ultimately show ?thesis using ev by (intro exI[of _ ip] exI[of _ e]) (simp add: AList.delete_conv')
qed

theorem evict_oldest_is_lru_witness:
  "let l = \<lparr>iplRate = 1, iplBurst = 2, maxIPs = 2, ttl = 60, nextSweep = 0,
            iplData = [(''a'', \<lparr>lim = (2::int), lastSeen = 5\<rparr>), (''b'', \<lparr>lim = 2, lastSeen = 3\<rparr>)], lastEvictedIP = []\<rparr>
   in \<exists>ip e. map_of (iplData l) ip = Some e \<and> lastEvictedIP (evictOldestLocked rev l) = ip \<and> lastSeen e \<le> 3"
proof -
  let ?l = "\<lparr>iplRate = 1, iplBurst = 2, maxIPs = 2, ttl = 60, nextSweep = 0,
    iplData = [(''a'', \<lparr>lim = 2, lastSeen = 5\<rparr>), (''b'', \<lparr>lim = 2, lastSeen = 3\<rparr>)], lastEvictedIP = []\<rparr> :: int ipRateLimiter"
  have i: "ipl_inv ?l" by (simp add: ipl_inv_def)
  have n: "iplData ?l \<noteq> []" by simp
  have b: "map_of (iplData ?l) ''b'' = Some \<lparr>lim = 2, lastSeen = 3\<rparr>" by simp
  obtain ip e where "map_of (iplData ?l) ip = Some e" "lastEvictedIP (evictOldestLocked rev ?l) = ip"
    and le: "\<forall>ip' e'. map_of (iplData ?l) ip' = Some e' \<longrightarrow> lastSeen e \<le> lastSeen e'"
    using evict_oldest_is_lru [OF range_order_rev i n] by blast
  moreover from le b have "lastSeen e \<le> 3" by fastforce
  ultimately show ?thesis unfolding Let_def by blast
qed

text \<open>The sweep drops exactly the clients not seen within \<open>ttl\<close>: a client is in the table
  afterwards iff it was there and was last seen at or after the cutoff, with its entry unchanged.\<close>

theorem sweep_drops_exactly_expired:
  assumes "range_order ord" and "distinct (map fst (iplData l))" and "0 < ttl l"
  shows "map_of (iplData (sweepLocked ord now l)) ip =
    (case map_of (iplData l) ip of
       None \<Rightarrow> None
     | Some e \<Rightarrow> if lastSeen e < now - ttl l then None else Some e)"
  using assms by (auto simp: sweep_data map_of_filter_distinct split: option.splits)

theorem sweep_drops_exactly_expired_witness:
  "let l = \<lparr>iplRate = 1, iplBurst = 2, maxIPs = 2, ttl = 60, nextSweep = 0,
            iplData = [(''a'', \<lparr>lim = 2, lastSeen = 5\<rparr>), (''b'', \<lparr>lim = 2, lastSeen = 40\<rparr>)], lastEvictedIP = []\<rparr>
   in map_of (iplData (sweepLocked rev 70 l)) ''a'' = None \<and>
      map_of (iplData (sweepLocked rev 70 l)) ''b'' = Some \<lparr>lim = (2::int), lastSeen = 40\<rparr>"
proof -
  let ?l = "\<lparr>iplRate = 1, iplBurst = 2, maxIPs = 2, ttl = 60, nextSweep = 0,
    iplData = [(''a'', \<lparr>lim = 2, lastSeen = 5\<rparr>), (''b'', \<lparr>lim = 2, lastSeen = 40\<rparr>)], lastEvictedIP = []\<rparr> :: int ipRateLimiter"
  have d: "distinct (map fst (iplData ?l))" and t: "0 < ttl ?l" by simp_all
  show ?thesis
    using sweep_drops_exactly_expired [OF range_order_rev d t, of 70 "''a''"]
      sweep_drops_exactly_expired [OF range_order_rev d t, of 70 "''b''"]
    by (simp add: Let_def)
qed





text \<open>Per-subject limits. The first request for a subject gets a limiter of its own, with the
  configured rate and twice that burst where a positive override is set and the defaults
  otherwise; every later request uses and advances that same limiter, and no other subject's
  limiter changes.\<close>

theorem subject_limiter_selection:
  assumes "\<And>ov. overrides l s = Some ov \<Longrightarrow> ov < 2 ^ 62"
  shows "let used = (case limiters l s of
      Some x \<Rightarrow> x
    | None \<Rightarrow> (case overrides l s of
        Some ov \<Rightarrow> if 0 < ov then NewLimiter R ov (2 * ov) else NewLimiter R (defaultR l) (defaultB l)
      | None \<Rightarrow> NewLimiter R (defaultR l) (defaultB l)))
    in subjAllow R now s l =
      (fst (LimiterAllow R used now), l\<lparr>limiters := (limiters l)(s \<mapsto> snd (LimiterAllow R used now))\<rparr>)"
proof -
  have "max_go 1 (i64 (ov * 2)) = 2 * ov" if "overrides l s = Some ov" "0 < ov" for ov
    using assms(1)[OF that(1)] that(2) by (simp add: i64_id)
  then show ?thesis
    by (auto simp: subjAllow_def Let_def split_beta split: option.splits)
qed

theorem subject_limiter_selection_witness:
  "let l = newSubjectRateLimiter 100 200 [''orders'' \<mapsto> 3] in
   overrides l ''orders'' = Some 3 \<and>
   limiters (snd (subjAllow counter_lib 0 ''orders'' l)) ''orders'' = Some 5"
proof -
  let ?l = "newSubjectRateLimiter 100 200 [''orders'' \<mapsto> 3] :: int subjectRateLimiter"
  have h: "\<And>ov. overrides ?l ''orders'' = Some ov \<Longrightarrow> ov < 2 ^ 62"
    by (simp add: newSubjectRateLimiter_def)
  show ?thesis unfolding Let_def
    using subject_limiter_selection [of ?l "''orders''" counter_lib 0, OF h]
    by (simp add: newSubjectRateLimiter_def counter_lib_def)
qed

end
