(* ===== verification/Go_Strings.thy ===== *)
theory Go_Strings
  imports Shiro_Prelude "HOL-Library.Sublist"
begin

text \<open>
  What the sources use of Go's \<^verbatim>\<open>strings\<close>, \<^verbatim>\<open>strconv\<close> and \<^verbatim>\<open>net\<close>, on strings as
  lists of bytes: trimming of Unicode white space in its UTF-8 encodings, splitting at a byte,
  lower case (of ASCII, which decides the comparisons the code makes), decimal numbers in the range of \<open>int64\<close>,
  and host-port pairs.
\<close>

section \<open>White space\<close>

definition ascii_space :: "char \<Rightarrow> bool" where
  "ascii_space c \<longleftrightarrow> c \<in> {CHR 0x09, CHR 0x0A, CHR 0x0B, CHR 0x0C, CHR 0x0D, CHR '' ''}"

text \<open>The two-byte and three-byte encodings of the other characters of \<open>unicode.IsSpace\<close>: U+0085,
  U+00A0, U+1680, U+2000 to U+200A, U+2028, U+2029, U+202F, U+205F and U+3000.\<close>

definition space2 :: "char \<Rightarrow> char \<Rightarrow> bool" where
  "space2 c d \<longleftrightarrow> c = CHR 0xC2 \<and> (d = CHR 0x85 \<or> d = CHR 0xA0)"

definition space3 :: "char \<Rightarrow> char \<Rightarrow> char \<Rightarrow> bool" where
  "space3 c d e \<longleftrightarrow>
     c = CHR 0xE1 \<and> d = CHR 0x9A \<and> e = CHR 0x80 \<or>
     c = CHR 0xE2 \<and> d = CHR 0x80 \<and>
       (0x80 \<le> (of_char e :: nat) \<and> (of_char e :: nat) \<le> 0x8A \<or> e \<in> {CHR 0xA8, CHR 0xA9, CHR 0xAF}) \<or>
     c = CHR 0xE2 \<and> d = CHR 0x81 \<and> e = CHR 0x9F \<or>
     c = CHR 0xE3 \<and> d = CHR 0x80 \<and> e = CHR 0x80"

fun trimLeft :: "string \<Rightarrow> string" where
  "trimLeft (c # d # e # s) =
     (if ascii_space c then trimLeft (d # e # s)
      else if space2 c d then trimLeft (e # s)
      else if space3 c d e then trimLeft s
      else c # d # e # s)"
| "trimLeft [c, d] =
     (if ascii_space c then trimLeft [d] else if space2 c d then [] else [c, d])"
| "trimLeft [c] = (if ascii_space c then [] else [c])"
| "trimLeft [] = []"

text \<open>The same from the right, on the reversed string.\<close>

fun trimRight_rev :: "string \<Rightarrow> string" where
  "trimRight_rev (e # d # c # s) =
     (if ascii_space e then trimRight_rev (d # c # s)
      else if space2 d e then trimRight_rev (c # s)
      else if space3 c d e then trimRight_rev s
      else e # d # c # s)"
| "trimRight_rev [d, c] =
     (if ascii_space d then trimRight_rev [c] else if space2 c d then [] else [d, c])"
| "trimRight_rev [c] = (if ascii_space c then [] else [c])"
| "trimRight_rev [] = []"

definition TrimSpace :: "string \<Rightarrow> string" where
  "TrimSpace s = rev (trimRight_rev (rev (trimLeft s)))"

text \<open>Whether a string starts, or ends, with white space.\<close>

definition leads_space :: "string \<Rightarrow> bool" where
  "leads_space s \<longleftrightarrow> (\<exists>c r. s = c # r \<and> ascii_space c) \<or> (\<exists>c d r. s = c # d # r \<and> space2 c d) \<or>
     (\<exists>c d e r. s = c # d # e # r \<and> space3 c d e)"

definition ends_space :: "string \<Rightarrow> bool" where
  "ends_space s \<longleftrightarrow> (\<exists>c r. s = r @ [c] \<and> ascii_space c) \<or> (\<exists>c d r. s = r @ [c, d] \<and> space2 c d) \<or>
     (\<exists>c d e r. s = r @ [c, d, e] \<and> space3 c d e)"

lemma trimLeft_suffix: "suffix (trimLeft s) s"
  by (induction s rule: trimLeft.induct) (auto intro: suffix_ConsI)

lemma trimRight_suffix: "suffix (trimRight_rev s) s"
  by (induction s rule: trimRight_rev.induct) (auto intro: suffix_ConsI)

lemma trimLeft_clean: "\<not> leads_space (trimLeft s)"
  by (induction s rule: trimLeft.induct) (auto simp: leads_space_def)

lemma trimLeft_id: "\<not> leads_space s \<Longrightarrow> trimLeft s = s"
  by (cases s rule: trimLeft.cases) (auto simp: leads_space_def)

lemma trimRight_clean: "\<not> ends_space (rev (trimRight_rev s))"
  by (induction s rule: trimRight_rev.induct) (auto simp: ends_space_def append_eq_Cons_conv)

lemma trimRight_id: "\<not> ends_space s \<Longrightarrow> trimRight_rev (rev s) = rev s"
  by (cases "rev s" rule: trimRight_rev.cases) (auto simp: ends_space_def rev_swap, metis rev_rev_ident)

lemma leads_space_prefix: "\<not> leads_space (s @ t) \<Longrightarrow> \<not> leads_space s"
  by (auto simp: leads_space_def)

lemma TrimSpace_clean: "\<not> leads_space (TrimSpace s) \<and> \<not> ends_space (TrimSpace s)"
proof -
  obtain zs where "rev (trimLeft s) = zs @ trimRight_rev (rev (trimLeft s))"
    using trimRight_suffix[of "rev (trimLeft s)"] by (auto simp: suffix_def)
  then have "trimLeft s = rev (trimRight_rev (rev (trimLeft s))) @ rev zs" by (metis rev_append rev_rev_ident)
  with trimLeft_clean[of s] have "\<not> leads_space (rev (trimRight_rev (rev (trimLeft s))))"
    by (metis leads_space_prefix)
  then show ?thesis by (simp add: TrimSpace_def trimRight_clean)
qed

lemma TrimSpace_id: "\<not> leads_space s \<Longrightarrow> \<not> ends_space s \<Longrightarrow> TrimSpace s = s"
  by (simp add: TrimSpace_def trimLeft_id trimRight_id)

lemma TrimSpace_idem [simp]: "TrimSpace (TrimSpace s) = TrimSpace s"
  by (simp add: TrimSpace_id TrimSpace_clean)

lemma TrimSpace_Nil [simp]: "TrimSpace [] = []"
  by (simp add: TrimSpace_def)

lemma TrimSpace_set: "set (TrimSpace s) \<subseteq> set s"
  using set_mono_suffix[OF trimRight_suffix[of "rev (trimLeft s)"]] set_mono_suffix[OF trimLeft_suffix[of s]]
  by (auto simp: TrimSpace_def)

section \<open>Splitting\<close>

text \<open>\<open>strings.Split\<close> and \<open>strings.SplitN(s, sep, 2)\<close> with a separator of one byte.\<close>

fun Split :: "char \<Rightarrow> string \<Rightarrow> string list" where
  "Split c [] = [[]]"
| "Split c (x # xs) =
     (if x = c then [] # Split c xs
      else (case Split c xs of [] \<Rightarrow> [[x]] | p # ps \<Rightarrow> (x # p) # ps))"

definition SplitN2 :: "char \<Rightarrow> string \<Rightarrow> string list" where
  "SplitN2 c s =
     (if c \<in> set s then [takeWhile (\<lambda>x. x \<noteq> c) s, tl (dropWhile (\<lambda>x. x \<noteq> c) s)] else [s])"

text \<open>\<open>strings.Join\<close>.\<close>

fun Join :: "string list \<Rightarrow> string \<Rightarrow> string" where
  "Join [] sep = []"
| "Join [x] sep = x"
| "Join (x # y # ys) sep = x @ sep @ Join (y # ys) sep"

lemma Split_not_Nil [simp]: "Split c s \<noteq> []"
  by (cases s) (auto split: list.splits)

lemma Split_plain: "c \<notin> set s \<Longrightarrow> Split c s = [s]"
  by (induction s) auto

lemma Split_append: "c \<notin> set s \<Longrightarrow> Split c (s @ c # t) = s # Split c t"
  by (induction s) auto

lemma Split_Join: "ps \<noteq> [] \<Longrightarrow> \<forall>p \<in> set ps. c \<notin> set p \<Longrightarrow> Split c (Join ps [c]) = ps"
  by (induction ps "[c]" rule: Join.induct) (auto simp: Split_plain Split_append)

lemma SplitN2_append: "c \<notin> set k \<Longrightarrow> SplitN2 c (k @ c # v) = [k, v]"
  by (simp add: SplitN2_def takeWhile_append takeWhile_eq_all_conv dropWhile_append dropWhile_eq_Nil_conv)

section \<open>Lower case\<close>

definition lower :: "char \<Rightarrow> char" where
  "lower c = (if 65 \<le> (of_char c :: nat) \<and> (of_char c :: nat) \<le> 90 then char_of ((of_char c :: nat) + 32) else c)"

definition ToLower :: "string \<Rightarrow> string" where
  "ToLower s = map lower s"

section \<open>Decimal numbers\<close>

definition is_digit :: "char \<Rightarrow> bool" where
  "is_digit c \<longleftrightarrow> 48 \<le> (of_char c :: nat) \<and> (of_char c :: nat) \<le> 57"

definition digit_val :: "char \<Rightarrow> int" where
  "digit_val c = int (of_char c) - 48"

definition parse_digits :: "string \<Rightarrow> int option" where
  "parse_digits s =
     (if s = [] \<or> \<not> list_all is_digit s then None
      else Some (foldl (\<lambda>n c. n * 10 + digit_val c) 0 s))"

text \<open>\<open>strconv.ParseInt(s, 10, 64)\<close>, and \<open>strconv.Atoi\<close> where \<open>int\<close> has 64 bits; \<open>None\<close> for
  a syntax or range error.\<close>

definition ParseInt :: "string \<Rightarrow> int option" where
  "ParseInt s =
     (case s of
        [] \<Rightarrow> None
      | c # r \<Rightarrow>
          (let (neg, ds) = (if c = CHR ''-'' then (True, r) else if c = CHR ''+'' then (False, r) else (False, s)) in
           case parse_digits ds of
             None \<Rightarrow> None
           | Some n \<Rightarrow>
               if neg then (if n \<le> 2 ^ 63 then Some (- n) else None)
               else if n < 2 ^ 63 then Some n else None))"

abbreviation Atoi :: "string \<Rightarrow> int option" where "Atoi \<equiv> ParseInt"

text \<open>\<open>strconv.Itoa\<close>.\<close>

definition digit_char :: "nat \<Rightarrow> char" where
  "digit_char d = char_of (48 + d)"

fun nat_digits :: "nat \<Rightarrow> string" where
  "nat_digits n = (if n < 10 then [digit_char n] else nat_digits (n div 10) @ [digit_char (n mod 10)])"

definition Itoa :: "int \<Rightarrow> string" where
  "Itoa n = (if n < 0 then CHR ''-'' # nat_digits (nat (- n)) else nat_digits (nat n))"

declare nat_digits.simps [simp del]

lemma digit_char_val: "d < 10 \<Longrightarrow> is_digit (digit_char d) \<and> digit_val (digit_char d) = int d"
  by (simp add: is_digit_def digit_val_def digit_char_def)

lemma nat_digits_parse:
  "nat_digits n \<noteq> [] \<and> list_all is_digit (nat_digits n) \<and>
   foldl (\<lambda>n c. n * 10 + digit_val c) 0 (nat_digits n) = int n"
proof (induction n rule: nat_digits.induct)
  case (1 n)
  show ?case
  proof (cases "n < 10")
    case True
    then show ?thesis by (simp add: nat_digits.simps[of n] digit_char_val)
  next
    case False
    with 1 have "nat_digits (n div 10) \<noteq> [] \<and> list_all is_digit (nat_digits (n div 10)) \<and>
      foldl (\<lambda>n c. n * 10 + digit_val c) 0 (nat_digits (n div 10)) = int (n div 10)" by simp
    with False show ?thesis by (simp add: nat_digits.simps[of n] digit_char_val zdiv_int zmod_int)
  qed
qed

lemma nat_digits_head: "nat_digits n = c # r \<Longrightarrow> is_digit c"
  using nat_digits_parse[of n] by auto

lemma nat_digits_zero: "nat_digits n = CHR ''0'' # r \<Longrightarrow> r = []"
proof (induction n arbitrary: r rule: nat_digits.induct)
  case (1 n)
  show ?case
  proof (cases "n < 10")
    case True
    with 1(2) show ?thesis by (simp add: nat_digits.simps[of n])
  next
    case False
    with 1(2) have "nat_digits (n div 10) @ [digit_char (n mod 10)] = CHR ''0'' # r" by (simp add: nat_digits.simps[of n])
    then obtain q where q: "nat_digits (n div 10) = CHR ''0'' # q"
      using nat_digits_parse[of "n div 10"] by (cases "nat_digits (n div 10)") auto
    with 1(1)[OF False] have "q = []" by blast
    with q nat_digits_parse[of "n div 10"] have "n div 10 = 0" by (simp add: digit_val_def)
    with False show ?thesis by simp
  qed
qed

lemma ParseInt_Itoa:
  assumes "- (2 ^ 63) \<le> n" and "n < 2 ^ 63"
  shows "ParseInt (Itoa n) = Some n"
proof (cases "n < 0")
  case True
  with assms show ?thesis using nat_digits_parse[of "nat (- n)"]
    by (simp add: Itoa_def ParseInt_def parse_digits_def)
next
  case False
  obtain c r where d: "nat_digits (nat n) = c # r" using nat_digits_parse[of "nat n"] by (cases "nat_digits (nat n)") auto
  have "is_digit c" by (rule nat_digits_head[OF d])
  then have "c \<noteq> CHR ''-''" "c \<noteq> CHR ''+''" by (auto simp: is_digit_def)
  with False assms nat_digits_parse[of "nat n"] show ?thesis
    unfolding d by (simp add: Itoa_def d ParseInt_def parse_digits_def)
qed

lemma ParseInt_range: "ParseInt s = Some n \<Longrightarrow> - (2 ^ 63) \<le> n \<and> n < 2 ^ 63"
proof -
  have d: "parse_digits t = Some m \<Longrightarrow> 0 \<le> m" for t m
  proof -
    have "list_all is_digit t \<Longrightarrow> 0 \<le> a \<Longrightarrow> 0 \<le> foldl (\<lambda>n c. n * 10 + digit_val c) a t" for a
      by (induction t arbitrary: a) (auto simp: is_digit_def digit_val_def)
    then show "parse_digits t = Some m \<Longrightarrow> 0 \<le> m" by (auto simp: parse_digits_def split: if_splits)
  qed
  show "ParseInt s = Some n \<Longrightarrow> - (2 ^ 63) \<le> n \<and> n < 2 ^ 63"
    by (auto simp: ParseInt_def split: list.splits if_splits option.splits dest!: d)
qed

lemma Itoa_chars: "c \<in> set (Itoa n) \<Longrightarrow> is_digit c \<or> c = CHR ''-''"
  using nat_digits_parse by (auto simp: Itoa_def list_all_iff split: if_splits)

section \<open>Host and port\<close>

text \<open>\<open>net.SplitHostPort\<close>: the host, without the brackets of an IPv6 literal, and the port after the last colon.\<close>

definition SplitHostPort :: "string \<Rightarrow> (string \<times> string) option" where
  "SplitHostPort s =
     (if CHR '':'' \<notin> set s then None
      else
        (let r = rev s;
             port = rev (takeWhile (\<lambda>c. c \<noteq> CHR '':'') r);
             before = rev (tl (dropWhile (\<lambda>c. c \<noteq> CHR '':'') r))
         in if hd s = CHR ''['' then
              (let inner = takeWhile (\<lambda>c. c \<noteq> CHR '']'') (tl s) in
               if before = CHR ''['' # inner @ '']'' \<and> CHR ''['' \<notin> set inner \<and>
                  CHR ''['' \<notin> set port \<and> CHR '']'' \<notin> set port
               then Some (inner, port) else None)
            else if CHR '':'' \<in> set before \<or> CHR ''['' \<in> set s \<or> CHR '']'' \<in> set s then None
            else Some (before, port)))"

lemma SplitHostPort_plain:
  assumes "CHR '':'' \<notin> set h" "CHR '':'' \<notin> set p" "set h \<inter> {CHR ''['', CHR '']''} = {}" "set p \<inter> {CHR ''['', CHR '']''} = {}"
  shows "SplitHostPort (h @ CHR '':'' # p) = Some (h, p)"
proof -
  have "takeWhile (\<lambda>c. c \<noteq> CHR '':'') (rev p @ CHR '':'' # rev h) = rev p"
    "dropWhile (\<lambda>c. c \<noteq> CHR '':'') (rev p @ CHR '':'' # rev h) = CHR '':'' # rev h"
    using assms(2) by (simp_all add: takeWhile_append takeWhile_eq_all_conv dropWhile_append dropWhile_eq_Nil_conv)
  with assms show ?thesis by (cases h) (auto simp: SplitHostPort_def Let_def)
qed

end
