(* ===== verification/Config_Env.thy ===== *)
theory Config_Env
  imports Go_Strings
begin

text \<open>
  The configuration of \<^verbatim>\<open>internal/config/config.go\<close>: the record, its reading from the environment
  with every default, and its validation. \<open>env\<close> is \<open>os.Getenv\<close> (the empty string for an unset
  variable), \<open>host\<close> the outcome of \<open>os.Hostname\<close>.
\<close>

section \<open>Model\<close>

record VersionRange =
  vrMin :: int
  vrMax :: int

record Config =
  HTTPAddr :: string
  HTTPReadTimeoutMs :: int
  HTTPReadHeaderTimeoutMs :: int
  HTTPWriteTimeoutMs :: int
  HTTPIdleTimeoutMs :: int
  HTTPShutdownTimeoutMs :: int
  HTTPRequestTimeoutMs :: int
  MaxConcurrentRequests :: int
  MaxConcurrentPublishes :: int
  MaxConcurrentQueries :: int
  CircuitFailureThreshold :: int
  CircuitOpenMs :: int
  CircuitHalfOpenSuccesses :: int
  PublishTimeoutMs :: int
  OutboxLeaseMs :: int
  OutboxBackoffBaseMs :: int
  OutboxBackoffMaxMs :: int
  OutboxBackoffJitterPct :: int
  OutboxQuarantineAfter :: int
  CleanupIntervalMs :: int
  CleanupBatchSize :: int
  IdempotencyTTLHours :: int
  DeadLetterTTLHours :: int
  SubjectRateLimitRPS :: int
  SubjectRateLimitBurst :: int
  SubjectRateLimitOverrides :: "string \<rightharpoonup> int"
  SchemaVersionRules :: "string \<rightharpoonup> VersionRange"
  SchemaRequiredFields :: "string \<rightharpoonup> string list"
  EventTypeRegistry :: "string list"
  RejectUnknownEventTypes :: bool
  ModuleStartRetryMax :: int
  ModuleStartRetryBackoffMs :: int
  NodeID :: string
  NATSURL :: string
  NATSStream :: string
  NATSUser :: string
  NATSPassword :: string
  NATSToken :: string
  EtcdEndpoints :: "string list"
  EtcdUser :: string
  EtcdPassword :: string
  LeaderElectionKey :: string
  CassandraHosts :: "string list"
  CassandraKeyspace :: string
  CassandraUser :: string
  CassandraPassword :: string
  TLSCAFile :: string
  TLSCertFile :: string
  TLSKeyFile :: string
  TLSServerName :: string
  TLSInsecureSkipVerify :: bool
  CORSEnabled :: bool
  CORSAllowedOrigins :: "string list"
  CORSAllowedMethods :: "string list"
  CORSAllowedHeaders :: "string list"
  HSTSEnabled :: bool
  CSPHeader :: string
  APIBearerToken :: string
  APIPublishTokens :: "string list"
  APIReadTokens :: "string list"
  APIAdminTokens :: "string list"
  APITokenExpirations :: "string \<rightharpoonup> int"
  DisableAPITokenAuth :: bool
  AuthFailureMaxAttempts :: int
  AuthFailureBlockSeconds :: int
  PublishRetryMax :: int
  PublishRetryBackoffMs :: int
  PublishRetryMaxBackoffMs :: int
  OutboxRelayIntervalMs :: int
  OutboxRelayBatchSize :: int
  RateLimitRPS :: int
  RateLimitBurst :: int
  RateLimitMaxIPs :: int
  RateLimitIPTTLSeconds :: int
  MaxRequestBodyBytes :: int
  SecurityHeadersEnabled :: bool
  AuditLogEnabled :: bool
  RequireLeaderForWrites :: bool
  OTELServiceName :: string
  OTELExporterOTLPEndpoint :: string

definition envOr :: "(string \<Rightarrow> string) \<Rightarrow> string \<Rightarrow> string \<Rightarrow> string" where
  "envOr env key fallback = (if env key \<noteq> [] then env key else fallback)"

definition splitOr :: "(string \<Rightarrow> string) \<Rightarrow> string \<Rightarrow> string \<Rightarrow> string list" where
  "splitOr env key fallback = filter (\<lambda>p. p \<noteq> []) (map TrimSpace (Split (CHR '','') (envOr env key fallback)))"

definition hostOr :: "goerr + string \<Rightarrow> string \<Rightarrow> string" where
  "hostOr host fallback = (case host of Inr h \<Rightarrow> if h \<noteq> [] then h else fallback | Inl _ \<Rightarrow> fallback)"

definition boolOr :: "(string \<Rightarrow> string) \<Rightarrow> string \<Rightarrow> bool \<Rightarrow> bool" where
  "boolOr env key fallback =
     (let v = TrimSpace (ToLower (env key)) in
      if v = [] then fallback else v = ''1'' \<or> v = ''true'' \<or> v = ''yes'' \<or> v = ''on'')"

definition intOr :: "(string \<Rightarrow> string) \<Rightarrow> string \<Rightarrow> int \<Rightarrow> int" where
  "intOr env key fallback =
     (let v = TrimSpace (env key) in
      if v = [] then fallback else case Atoi v of None \<Rightarrow> fallback | Some n \<Rightarrow> n)"

definition int64Or :: "(string \<Rightarrow> string) \<Rightarrow> string \<Rightarrow> int \<Rightarrow> int" where
  "int64Or env key fallback =
     (let v = TrimSpace (env key) in
      if v = [] then fallback else case ParseInt v of None \<Rightarrow> fallback | Some n \<Rightarrow> n)"

text \<open>One round of the loop over the pairs of \<open>parseIntMap\<close>; a round that ends in \<open>continue\<close> leaves
  the map as it is.\<close>

definition intMapEntry :: "(string \<rightharpoonup> int) \<Rightarrow> string \<Rightarrow> (string \<rightharpoonup> int)" where
  "intMapEntry out pair0 =
     (let pair = TrimSpace pair0 in
      if pair = [] then out
      else case SplitN2 (CHR ''='') pair of
        [k0, v0] \<Rightarrow>
          (let k = TrimSpace k0; v = TrimSpace v0 in
           if k = [] then out
           else case Atoi v of None \<Rightarrow> out | Some n \<Rightarrow> out(k \<mapsto> n))
      | _ \<Rightarrow> out)"

definition parseIntMap :: "(string \<Rightarrow> string) \<Rightarrow> string \<Rightarrow> (string \<rightharpoonup> int)" where
  "parseIntMap env key =
     (let raw = TrimSpace (env key) in
      if raw = [] then Map.empty else foldl intMapEntry Map.empty (Split (CHR '','') raw))"

definition int64MapEntry :: "(string \<rightharpoonup> int) \<Rightarrow> string \<Rightarrow> (string \<rightharpoonup> int)" where
  "int64MapEntry out pair0 =
     (let pair = TrimSpace pair0 in
      if pair = [] then out
      else case SplitN2 (CHR ''='') pair of
        [k0, v0] \<Rightarrow>
          (let k = TrimSpace k0; v = TrimSpace v0 in
           if k = [] then out
           else case ParseInt v of None \<Rightarrow> out | Some n \<Rightarrow> out(k \<mapsto> n))
      | _ \<Rightarrow> out)"

definition parseInt64Map :: "(string \<Rightarrow> string) \<Rightarrow> string \<Rightarrow> (string \<rightharpoonup> int)" where
  "parseInt64Map env key =
     (let raw = TrimSpace (env key) in
      if raw = [] then Map.empty else foldl int64MapEntry Map.empty (Split (CHR '','') raw))"

definition versionRuleEntry :: "(string \<rightharpoonup> VersionRange) \<Rightarrow> string \<Rightarrow> (string \<rightharpoonup> VersionRange)" where
  "versionRuleEntry out entry0 =
     (let entry = TrimSpace entry0 in
      if entry = [] then out
      else case SplitN2 (CHR '':'') entry of
        [e0, r0] \<Rightarrow>
          (let evt = TrimSpace e0; rng = TrimSpace r0 in
           case SplitN2 (CHR ''-'') rng of
             [b0, b1] \<Rightarrow>
               (case (Atoi (TrimSpace b0), Atoi (TrimSpace b1)) of
                  (Some minV, Some maxV) \<Rightarrow>
                    if minV \<le> 0 \<or> maxV < minV then out
                    else out(evt \<mapsto> \<lparr>vrMin = minV, vrMax = maxV\<rparr>)
                | _ \<Rightarrow> out)
           | _ \<Rightarrow> out)
      | _ \<Rightarrow> out)"

definition parseSchemaVersionRules :: "(string \<Rightarrow> string) \<Rightarrow> string \<Rightarrow> (string \<rightharpoonup> VersionRange)" where
  "parseSchemaVersionRules env key =
     (let raw = TrimSpace (env key) in
      if raw = [] then Map.empty else foldl versionRuleEntry Map.empty (Split (CHR '','') raw))"

definition fieldRuleEntry :: "(string \<rightharpoonup> string list) \<Rightarrow> string \<Rightarrow> (string \<rightharpoonup> string list)" where
  "fieldRuleEntry out entry0 =
     (let entry = TrimSpace entry0 in
      if entry = [] then out
      else case SplitN2 (CHR ''='') entry of
        [e0, f0] \<Rightarrow>
          (let evt = TrimSpace e0 in
           if evt = [] then out
           else
             (let fields = filter (\<lambda>f. f \<noteq> []) (map TrimSpace (Split (CHR ''|'') f0)) in
              if fields \<noteq> [] then out(evt \<mapsto> fields) else out))
      | _ \<Rightarrow> out)"

definition parseRequiredFieldRules :: "(string \<Rightarrow> string) \<Rightarrow> string \<Rightarrow> (string \<rightharpoonup> string list)" where
  "parseRequiredFieldRules env key =
     (let raw = TrimSpace (env key) in
      if raw = [] then Map.empty else foldl fieldRuleEntry Map.empty (Split (CHR '';'') raw))"

text \<open>The default of \<^verbatim>\<open>CSP_HEADER\<close>; the quote character is \<open>CHR 0x27\<close>.\<close>

definition csp_default :: string where
  "csp_default =
     (let none = CHR 0x27 # ''none'' @ [CHR 0x27] in
      ''default-src '' @ none @ ''; frame-ancestors '' @ none @ ''; base-uri '' @ none)"

definition FromEnv :: "(string \<Rightarrow> string) \<Rightarrow> goerr + string \<Rightarrow> Config" where
  "FromEnv env host = \<lparr>
     HTTPAddr = envOr env ''HTTP_ADDR'' '':8080'',
     HTTPReadTimeoutMs = intOr env ''HTTP_READ_TIMEOUT_MS'' 10000,
     HTTPReadHeaderTimeoutMs = intOr env ''HTTP_READ_HEADER_TIMEOUT_MS'' 3000,
     HTTPWriteTimeoutMs = intOr env ''HTTP_WRITE_TIMEOUT_MS'' 15000,
     HTTPIdleTimeoutMs = intOr env ''HTTP_IDLE_TIMEOUT_MS'' 60000,
     HTTPShutdownTimeoutMs = intOr env ''HTTP_SHUTDOWN_TIMEOUT_MS'' 10000,
     HTTPRequestTimeoutMs = intOr env ''HTTP_REQUEST_TIMEOUT_MS'' 8000,
     MaxConcurrentRequests = intOr env ''MAX_CONCURRENT_REQUESTS'' 500,
     MaxConcurrentPublishes = intOr env ''MAX_CONCURRENT_PUBLISHES'' 200,
     MaxConcurrentQueries = intOr env ''MAX_CONCURRENT_QUERIES'' 300,
     CircuitFailureThreshold = intOr env ''CIRCUIT_FAILURE_THRESHOLD'' 5,
     CircuitOpenMs = intOr env ''CIRCUIT_OPEN_MS'' 15000,
     CircuitHalfOpenSuccesses = intOr env ''CIRCUIT_HALF_OPEN_SUCCESSES'' 2,
     PublishTimeoutMs = intOr env ''PUBLISH_TIMEOUT_MS'' 5000,
     OutboxLeaseMs = intOr env ''OUTBOX_LEASE_MS'' 15000,
     OutboxBackoffBaseMs = intOr env ''OUTBOX_BACKOFF_BASE_MS'' 500,
     OutboxBackoffMaxMs = intOr env ''OUTBOX_BACKOFF_MAX_MS'' 30000,
     OutboxBackoffJitterPct = intOr env ''OUTBOX_BACKOFF_JITTER_PCT'' 25,
     OutboxQuarantineAfter = intOr env ''OUTBOX_QUARANTINE_AFTER'' 12,
     CleanupIntervalMs = intOr env ''CLEANUP_INTERVAL_MS'' 30000,
     CleanupBatchSize = intOr env ''CLEANUP_BATCH_SIZE'' 200,
     IdempotencyTTLHours = intOr env ''IDEMPOTENCY_TTL_HOURS'' (24*14),
     DeadLetterTTLHours = intOr env ''DEAD_LETTER_TTL_HOURS'' (24*30),
     SubjectRateLimitRPS = intOr env ''SUBJECT_RATE_LIMIT_RPS'' 100,
     SubjectRateLimitBurst = intOr env ''SUBJECT_RATE_LIMIT_BURST'' 200,
     SubjectRateLimitOverrides = parseIntMap env ''SUBJECT_RATE_LIMIT_RPS_OVERRIDES'',
     SchemaVersionRules = parseSchemaVersionRules env ''EVENT_SCHEMA_VERSION_RULES'',
     SchemaRequiredFields = parseRequiredFieldRules env ''EVENT_SCHEMA_REQUIRED_FIELDS'',
     EventTypeRegistry = splitOr env ''EVENT_TYPE_REGISTRY'' [],
     RejectUnknownEventTypes = boolOr env ''REJECT_UNKNOWN_EVENT_TYPES'' False,
     ModuleStartRetryMax = intOr env ''MODULE_START_RETRY_MAX'' 4,
     ModuleStartRetryBackoffMs = intOr env ''MODULE_START_RETRY_BACKOFF_MS'' 1000,
     NodeID = envOr env ''NODE_ID'' (hostOr host ''node-1''),
     NATSURL = envOr env ''NATS_URL'' ''nats://localhost:4222'',
     NATSStream = envOr env ''NATS_STREAM'' ''SHIRO_EVENTS'',
     NATSUser = envOr env ''NATS_USER'' [],
     NATSPassword = envOr env ''NATS_PASSWORD'' [],
     NATSToken = envOr env ''NATS_TOKEN'' [],
     EtcdEndpoints = splitOr env ''ETCD_ENDPOINTS'' ''localhost:2379'',
     EtcdUser = envOr env ''ETCD_USER'' [],
     EtcdPassword = envOr env ''ETCD_PASSWORD'' [],
     LeaderElectionKey = envOr env ''LEADER_ELECTION_KEY'' ''/shirods/controlplane/leader'',
     CassandraHosts = splitOr env ''CASSANDRA_HOSTS'' ''localhost:9042'',
     CassandraKeyspace = envOr env ''CASSANDRA_KEYSPACE'' ''shirods'',
     CassandraUser = envOr env ''CASSANDRA_USER'' [],
     CassandraPassword = envOr env ''CASSANDRA_PASSWORD'' [],
     TLSCAFile = envOr env ''TLS_CA_FILE'' [],
     TLSCertFile = envOr env ''TLS_CERT_FILE'' [],
     TLSKeyFile = envOr env ''TLS_KEY_FILE'' [],
     TLSServerName = envOr env ''TLS_SERVER_NAME'' [],
     TLSInsecureSkipVerify = boolOr env ''TLS_INSECURE_SKIP_VERIFY'' False,
     CORSEnabled = boolOr env ''CORS_ENABLED'' False,
     CORSAllowedOrigins = splitOr env ''CORS_ALLOWED_ORIGINS'' [],
     CORSAllowedMethods = splitOr env ''CORS_ALLOWED_METHODS'' ''GET,POST,OPTIONS'',
     CORSAllowedHeaders = splitOr env ''CORS_ALLOWED_HEADERS'' ''Authorization,Content-Type,Idempotency-Key,X-Request-Id'',
     HSTSEnabled = boolOr env ''HSTS_ENABLED'' False,
     CSPHeader = envOr env ''CSP_HEADER'' csp_default,
     APIBearerToken = envOr env ''API_BEARER_TOKEN'' [],
     APIPublishTokens = splitOr env ''API_ACL_PUBLISH_TOKENS'' [],
     APIReadTokens = splitOr env ''API_ACL_READ_TOKENS'' [],
     APIAdminTokens = splitOr env ''API_ACL_ADMIN_TOKENS'' [],
     APITokenExpirations = parseInt64Map env ''API_TOKEN_EXPIRATIONS'',
     DisableAPITokenAuth = boolOr env ''DISABLE_API_TOKEN_AUTH'' False,
     AuthFailureMaxAttempts = intOr env ''AUTH_FAILURE_MAX_ATTEMPTS'' 10,
     AuthFailureBlockSeconds = intOr env ''AUTH_FAILURE_BLOCK_SECONDS'' 300,
     PublishRetryMax = intOr env ''PUBLISH_RETRY_MAX'' 4,
     PublishRetryBackoffMs = intOr env ''PUBLISH_RETRY_BACKOFF_MS'' 150,
     PublishRetryMaxBackoffMs = intOr env ''PUBLISH_RETRY_MAX_BACKOFF_MS'' 3000,
     OutboxRelayIntervalMs = intOr env ''OUTBOX_RELAY_INTERVAL_MS'' 1500,
     OutboxRelayBatchSize = intOr env ''OUTBOX_RELAY_BATCH_SIZE'' 100,
     RateLimitRPS = intOr env ''RATE_LIMIT_RPS'' 60,
     RateLimitBurst = intOr env ''RATE_LIMIT_BURST'' 120,
     RateLimitMaxIPs = intOr env ''RATE_LIMIT_MAX_IPS'' 10000,
     RateLimitIPTTLSeconds = intOr env ''RATE_LIMIT_IP_TTL_SECONDS'' 900,
     MaxRequestBodyBytes = int64Or env ''MAX_REQUEST_BODY_BYTES'' (2 ^ 20),
     SecurityHeadersEnabled = boolOr env ''SECURITY_HEADERS_ENABLED'' True,
     AuditLogEnabled = boolOr env ''AUDIT_LOG_ENABLED'' True,
     RequireLeaderForWrites = boolOr env ''REQUIRE_LEADER_FOR_WRITES'' False,
     OTELServiceName = envOr env ''OTEL_SERVICE_NAME'' ''shiro-distributed-system'',
     OTELExporterOTLPEndpoint = envOr env ''OTEL_EXPORTER_OTLP_ENDPOINT'' []\<rparr>"

definition errIf :: "bool \<Rightarrow> string \<Rightarrow> string list" where
  "errIf b msg = (if b then [msg] else [])"

definition config_errs :: "Config \<Rightarrow> string list" where
  "config_errs c =
     concat
      [errIf (HTTPReadTimeoutMs c \<le> 0) ''HTTP_READ_TIMEOUT_MS must be > 0'',
       errIf (HTTPReadHeaderTimeoutMs c \<le> 0) ''HTTP_READ_HEADER_TIMEOUT_MS must be > 0'',
       errIf (HTTPWriteTimeoutMs c \<le> 0) ''HTTP_WRITE_TIMEOUT_MS must be > 0'',
       errIf (HTTPIdleTimeoutMs c \<le> 0) ''HTTP_IDLE_TIMEOUT_MS must be > 0'',
       errIf (HTTPRequestTimeoutMs c \<le> 0) ''HTTP_REQUEST_TIMEOUT_MS must be > 0'',
       errIf (HTTPShutdownTimeoutMs c \<le> 0) ''HTTP_SHUTDOWN_TIMEOUT_MS must be > 0'',
       errIf (MaxConcurrentRequests c \<le> 0) ''MAX_CONCURRENT_REQUESTS must be > 0'',
       errIf (MaxConcurrentPublishes c \<le> 0) ''MAX_CONCURRENT_PUBLISHES must be > 0'',
       errIf (MaxConcurrentQueries c \<le> 0) ''MAX_CONCURRENT_QUERIES must be > 0'',
       errIf (PublishRetryMax c \<le> 0) ''PUBLISH_RETRY_MAX must be > 0'',
       errIf (OutboxBackoffBaseMs c \<le> 0) ''OUTBOX_BACKOFF_BASE_MS must be > 0'',
       errIf (OutboxBackoffMaxMs c \<le> 0) ''OUTBOX_BACKOFF_MAX_MS must be > 0'',
       errIf (OutboxBackoffBaseMs c > OutboxBackoffMaxMs c) ''OUTBOX_BACKOFF_BASE_MS must be <= OUTBOX_BACKOFF_MAX_MS'',
       errIf (OutboxQuarantineAfter c \<le> 0) ''OUTBOX_QUARANTINE_AFTER must be > 0'',
       errIf (MaxRequestBodyBytes c \<le> 0) ''MAX_REQUEST_BODY_BYTES must be > 0'',
       errIf (RateLimitRPS c \<le> 0) ''RATE_LIMIT_RPS must be > 0'',
       errIf (RateLimitBurst c \<le> 0) ''RATE_LIMIT_BURST must be > 0'',
       errIf (RateLimitMaxIPs c \<le> 0) ''RATE_LIMIT_MAX_IPS must be > 0'',
       errIf (RateLimitIPTTLSeconds c \<le> 0) ''RATE_LIMIT_IP_TTL_SECONDS must be > 0'',
       errIf (CORSEnabled c \<and> CORSAllowedMethods c = []) ''CORS_ALLOWED_METHODS must be non-empty when CORS_ENABLED=true'',
       errIf (CORSEnabled c \<and> CORSAllowedHeaders c = []) ''CORS_ALLOWED_HEADERS must be non-empty when CORS_ENABLED=true'',
       errIf (RejectUnknownEventTypes c \<and> EventTypeRegistry c = []) ''EVENT_TYPE_REGISTRY must be set when REJECT_UNKNOWN_EVENT_TYPES=true'']"

definition Validate :: "Config \<Rightarrow> goerr option" where
  "Validate c =
     (let errs = config_errs c in
      if errs \<noteq> [] then Some (ErrMsg (''invalid configuration: '' @ Join errs ''; '')) else None)"

section \<open>Lemmas\<close>

text \<open>A key that survives trimming and splitting.\<close>

definition clean_key :: "string \<Rightarrow> bool" where
  "clean_key k \<longleftrightarrow> k \<noteq> [] \<and> \<not> leads_space k \<and> \<not> ends_space k \<and> set k \<inter> {CHR '','', CHR ''=''} = {}"

definition render_pair :: "string \<times> int \<Rightarrow> string" where
  "render_pair p = fst p @ CHR ''='' # Itoa (snd p)"

lemma space_bytes:
  "space2 c d \<Longrightarrow> 128 \<le> (of_char d :: nat)"
  "space3 c d e \<Longrightarrow> 128 \<le> (of_char d :: nat) \<and> 128 \<le> (of_char e :: nat)"
  by (auto simp: space2_def space3_def)

text \<open>An ASCII byte ends every encoding before it.\<close>

lemma leads_space_ascii:
  assumes "(of_char x :: nat) < 128" and "\<not> ascii_space x" and "k \<noteq> []" and "\<not> leads_space k"
  shows "\<not> leads_space (k @ x # r)"
proof
  assume "leads_space (k @ x # r)"
  then consider c r' where "k @ x # r = c # r'" "ascii_space c"
    | c d r' where "k @ x # r = c # d # r'" "space2 c d"
    | c d e r' where "k @ x # r = c # d # e # r'" "space3 c d e"
    unfolding leads_space_def by blast
  then show False
  proof cases
    case 1
    with assms show False by (cases k) (auto simp: leads_space_def)
  next
    case (2 c d)
    with assms space_bytes(1)[of c d] show False
      by (cases k; cases "tl k") (auto simp: leads_space_def)
  next
    case (3 c d e)
    with assms space_bytes(2)[of c d e] show False
      by (cases k; cases "tl k"; cases "tl (tl k)") (auto simp: leads_space_def)
  qed
qed

lemma ends_space_ascii: "(of_char x :: nat) < 128 \<Longrightarrow> \<not> ascii_space x \<Longrightarrow> \<not> ends_space (r @ [x])"
  using space_bytes by (fastforce simp: ends_space_def)

lemma digit_ascii: "is_digit c \<Longrightarrow> (of_char c :: nat) < 128 \<and> \<not> ascii_space c"
  by (auto simp: is_digit_def ascii_space_def)

lemma Itoa_last: "\<exists>r c. Itoa n = r @ [c] \<and> is_digit c"
proof -
  have "\<exists>r c. nat_digits m = r @ [c] \<and> is_digit c" for m
    using digit_char_val[of m] digit_char_val[of "m mod 10"] by (subst nat_digits.simps) auto
  then show ?thesis by (auto simp: Itoa_def) (metis append_Cons)
qed

lemma Itoa_clean: "TrimSpace (Itoa n) = Itoa n"
proof (rule TrimSpace_id)
  obtain r c where r: "Itoa n = r @ [c]" "is_digit c" using Itoa_last by blast
  show "\<not> ends_space (Itoa n)" unfolding r using ends_space_ascii digit_ascii[OF r(2)] by blast
  have a: "\<forall>x \<in> set (Itoa n). (of_char x :: nat) < 128 \<and> \<not> ascii_space x"
    using Itoa_chars[of _ n] digit_ascii by (force simp: ascii_space_def)
  then show "\<not> leads_space (Itoa n)" using space_bytes by (fastforce simp: leads_space_def)
qed

lemma render_pair_clean:
  assumes "clean_key k"
  shows "\<not> leads_space (render_pair (k, n) @ r) \<and> \<not> ends_space (r' @ render_pair (k, n))"
proof
  show "\<not> leads_space (render_pair (k, n) @ r)"
    using assms leads_space_ascii[of "CHR ''=''" k "Itoa n @ r"]
    by (simp add: render_pair_def clean_key_def ascii_space_def)
  obtain q c where "Itoa n = q @ [c]" "is_digit c" using Itoa_last by blast
  then show "\<not> ends_space (r' @ render_pair (k, n))"
    using ends_space_ascii[of c "r' @ k @ CHR ''='' # q"] digit_ascii by (simp add: render_pair_def)
qed

lemma intMapEntry_render:
  assumes "clean_key k" and "- (2 ^ 63) \<le> n" and "n < 2 ^ 63"
  shows "intMapEntry out (render_pair (k, n)) = out(k \<mapsto> n)"
proof -
  have t: "TrimSpace (render_pair (k, n)) = render_pair (k, n)"
    using render_pair_clean[OF assms(1), of n "[]" "[]"] by (intro TrimSpace_id) auto
  have k: "TrimSpace k = k" using assms(1) by (simp add: clean_key_def TrimSpace_id)
  have "CHR ''='' \<notin> set k" using assms(1) by (auto simp: clean_key_def)
  from SplitN2_append[OF this] t k assms show ?thesis
    by (simp add: intMapEntry_def render_pair_def Itoa_clean ParseInt_Itoa clean_key_def)
qed

lemma foldl_render:
  assumes "\<forall>(k, n) \<in> set kvs. clean_key k \<and> - (2 ^ 63) \<le> n \<and> n < 2 ^ 63"
  shows "foldl intMapEntry m (map render_pair kvs) = m ++ map_of (rev kvs)"
  using assms
proof (induction kvs arbitrary: m)
  case Nil
  then show ?case by simp
next
  case (Cons p kvs)
  obtain k n where p: "p = (k, n)" by (cases p)
  with Cons.prems have e: "intMapEntry m (render_pair p) = m(k \<mapsto> n)" using intMapEntry_render by auto
  have "foldl intMapEntry m (map render_pair (p # kvs)) = m(k \<mapsto> n) ++ map_of (rev kvs)"
    using Cons.prems unfolding list.map foldl_Cons e by (intro Cons.IH) simp
  also have "\<dots> = m ++ map_of (rev (p # kvs))" by (simp add: p map_add_def fun_eq_iff split: option.splits)
  finally show ?case .
qed

lemma Join_hd: "ps \<noteq> [] \<Longrightarrow> \<exists>r. Join ps sep = hd ps @ r"
  by (induction ps sep rule: Join.induct) auto

lemma Join_last: "ps \<noteq> [] \<Longrightarrow> \<exists>r. Join ps sep = r @ last ps"
proof (induction ps sep rule: Join.induct)
  case (3 x y ys sep)
  then obtain r where "Join (y # ys) sep = r @ last (y # ys)" by auto
  then show ?case by (intro exI[of _ "x @ sep @ r"]) simp
qed auto

text \<open>C26: Round trip of the map settings. Rendering bindings as \<^verbatim>\<open>k1=n1,k2=n2\<close>, with keys free of
  separators and of outer white space and numbers that fit into 64 bits, and reading the variable
  back gives the map of the bindings, a later one winning over an earlier one.\<close>

theorem int_map_roundtrip:
  assumes "\<forall>(k, n) \<in> set kvs. clean_key k \<and> - (2 ^ 63) \<le> n \<and> n < 2 ^ 63"
    and "env key = Join (map render_pair kvs) '',''"
  shows "parseIntMap env key = map_of (rev kvs)"
proof (cases "kvs = []")
  case True
  with assms(2) show ?thesis by (simp add: parseIntMap_def)
next
  case False
  let ?ps = "map render_pair kvs"
  obtain k n where h: "hd kvs = (k, n)" "clean_key k"
    using assms(1) False by (metis (no_types, lifting) case_prodE hd_in_set)
  obtain k' n' where l: "last kvs = (k', n')" "clean_key k'"
    using assms(1) False by (metis (no_types, lifting) case_prodE last_in_set)
  obtain r r' where j: "Join ?ps '','' = render_pair (k, n) @ r" "Join ?ps '','' = r' @ render_pair (k', n')"
    using Join_hd[of ?ps "'',''"] Join_last[of ?ps "'',''"] False h l by (auto simp: hd_map last_map)
  have t: "TrimSpace (env key) = Join ?ps '',''"
    unfolding assms(2)
    by (rule TrimSpace_id) (metis j(1) render_pair_clean[OF h(2)], metis j(2) render_pair_clean[OF l(2)])
  have "Join ?ps '','' \<noteq> []" using j(1) by (simp add: render_pair_def)
  moreover have "\<forall>p \<in> set ?ps. CHR '','' \<notin> set p"
    using assms(1) Itoa_chars by (fastforce simp: render_pair_def clean_key_def is_digit_def)
  then have "Split (CHR '','') (Join ?ps '','') = ?ps" using False by (intro Split_Join) auto
  ultimately show ?thesis using t foldl_render[OF assms(1), of Map.empty] by (simp add: parseIntMap_def)
qed

theorem int_map_roundtrip_witness:
  "parseIntMap (\<lambda>_. ''orders=25,audit=-3'') ''K'' = map_of [(''audit'', -3), (''orders'', 25)]"
proof -
  have "\<forall>(k, n) \<in> set [(''orders'', 25), (''audit'', -3)]. clean_key k \<and> - (2 ^ 63) \<le> n \<and> n < (2 :: int) ^ 63"
    by (auto simp: clean_key_def leads_space_def ends_space_def ascii_space_def space2_def space3_def append_eq_Cons_conv
        Cons_eq_append_conv)
  moreover have "''orders=25,audit=-3'' = Join (map render_pair [(''orders'', 25), (''audit'', -3)]) '',''" by code_simp
  ultimately show ?thesis using int_map_roundtrip[of "[(''orders'', 25), (''audit'', -3)]" "\<lambda>_. ''orders=25,audit=-3''" "''K''"]
    by simp
qed

lemma splitOr_entries: "p \<in> set (splitOr env key fb) \<Longrightarrow> p \<noteq> [] \<and> TrimSpace p = p"
  by (auto simp: splitOr_def)

text \<open>A property of all entries a loop over the parts adds holds for the map it builds.\<close>

lemma foldl_entries:
  assumes "\<And>m x k v. step m x k = Some v \<Longrightarrow> m k = Some v \<or> P v"
    and "foldl step m xs k = Some v" and "\<And>v. m k = Some v \<Longrightarrow> P v"
  shows "P v"
  using assms(2,3)
proof (induction xs arbitrary: m)
  case Nil
  then show ?case by simp
next
  case (Cons x xs)
  from Cons.prems(1) have "foldl step (step m x) xs k = Some v" by simp
  moreover have "P v'" if "step m x k = Some v'" for v' using assms(1)[OF that] Cons.prems(2) by blast
  ultimately show ?case by (rule Cons.IH)
qed

lemma versionRuleEntry_sane:
  "versionRuleEntry m x k = Some v \<Longrightarrow> m k = Some v \<or> (0 < vrMin v \<and> vrMin v \<le> vrMax v)"
  by (auto simp: versionRuleEntry_def Let_def split: if_splits list.splits option.splits)

lemma fieldRuleEntry_sane:
  "fieldRuleEntry m x k = Some v \<Longrightarrow> m k = Some v \<or> (v \<noteq> [] \<and> (\<forall>f \<in> set v. f \<noteq> [] \<and> TrimSpace f = f))"
  by (auto simp: fieldRuleEntry_def Let_def split: if_splits list.splits)

lemma version_rules_sane:
  assumes "parseSchemaVersionRules env key evt = Some r"
  shows "0 < vrMin r \<and> vrMin r \<le> vrMax r"
proof (rule foldl_entries[where P = "\<lambda>r. 0 < vrMin r \<and> vrMin r \<le> vrMax r"])
  show "foldl versionRuleEntry Map.empty (Split (CHR '','') (TrimSpace (env key))) evt = Some r"
    using assms by (simp add: parseSchemaVersionRules_def Let_def split: if_splits)
qed (use versionRuleEntry_sane in auto)

lemma field_rules_sane:
  assumes "parseRequiredFieldRules env key evt = Some fs"
  shows "fs \<noteq> [] \<and> (\<forall>f \<in> set fs. f \<noteq> [] \<and> TrimSpace f = f)"
proof (rule foldl_entries[where P = "\<lambda>v. v \<noteq> [] \<and> (\<forall>f \<in> set v. f \<noteq> [] \<and> TrimSpace f = f)"])
  show "foldl fieldRuleEntry Map.empty (Split (CHR '';'') (TrimSpace (env key))) evt = Some fs"
    using assms by (simp add: parseRequiredFieldRules_def Let_def split: if_splits)
qed (use fieldRuleEntry_sane in auto)

text \<open>C25: Whatever the environment holds, the settings read from it are well formed: no token list,
  origin list or type registry contains an empty or untrimmed entry (so an empty bearer token is never on a list), every
  schema version rule is a range of positive numbers in order, and every required-field rule names at least one field
  and no empty one.\<close>

theorem config_well_formed:
  "let c = FromEnv env host in
   (\<forall>xs \<in> {APIPublishTokens c, APIReadTokens c, APIAdminTokens c, CORSAllowedOrigins c, EventTypeRegistry c,
       EtcdEndpoints c, CassandraHosts c}. \<forall>p \<in> set xs. p \<noteq> [] \<and> TrimSpace p = p) \<and>
   (\<forall>evt r. SchemaVersionRules c evt = Some r \<longrightarrow> 0 < vrMin r \<and> vrMin r \<le> vrMax r) \<and>
   (\<forall>evt fs. SchemaRequiredFields c evt = Some fs \<longrightarrow> fs \<noteq> [] \<and> (\<forall>f \<in> set fs. f \<noteq> [] \<and> TrimSpace f = f))"
proof -
  have "\<forall>p \<in> set (splitOr env k fb). p \<noteq> [] \<and> TrimSpace p = p" for k fb using splitOr_entries by blast
  then show ?thesis using version_rules_sane field_rules_sane by (simp add: FromEnv_def Let_def)
qed

theorem config_well_formed_witness:
  "let c = FromEnv (\<lambda>k. if k = ''EVENT_SCHEMA_VERSION_RULES'' then '' created : 1-3, bad:4-2'' else []) (Inr []) in
   SchemaVersionRules c ''created'' = Some \<lparr>vrMin = 1, vrMax = 3\<rparr> \<and> SchemaVersionRules c ''bad'' = None \<and>
   0 < vrMin (the (SchemaVersionRules c ''created''))"
proof -
  let ?env = "\<lambda>k. if k = ''EVENT_SCHEMA_VERSION_RULES'' then '' created : 1-3, bad:4-2'' else []"
  have "parseSchemaVersionRules ?env ''EVENT_SCHEMA_VERSION_RULES'' ''created'' = Some \<lparr>vrMin = 1, vrMax = 3\<rparr>"
    "parseSchemaVersionRules ?env ''EVENT_SCHEMA_VERSION_RULES'' ''bad'' = None" by code_simp+
  then have "SchemaVersionRules (FromEnv ?env (Inr [])) ''created'' = Some \<lparr>vrMin = 1, vrMax = 3\<rparr>"
    "SchemaVersionRules (FromEnv ?env (Inr [])) ''bad'' = None" by (simp_all add: FromEnv_def)
  with config_well_formed[of ?env "Inr []"] show ?thesis by (simp add: Let_def)
qed

lemma errIf_Nil [simp]: "errIf b msg = [] \<longleftrightarrow> \<not> b"
  by (simp add: errIf_def)

text \<open>C24: \<open>Validate\<close> accepts exactly the configurations in which every checked limit is positive, the
  outbox backoff range is ordered, CORS has methods and headers when it is on, and a registry exists when
  unknown event types are rejected; and the configuration of an empty environment is accepted.\<close>

theorem validate_accepts:
  "(Validate c = None \<longleftrightarrow>
     (\<forall>n \<in> {HTTPReadTimeoutMs c, HTTPReadHeaderTimeoutMs c, HTTPWriteTimeoutMs c, HTTPIdleTimeoutMs c,
        HTTPRequestTimeoutMs c, HTTPShutdownTimeoutMs c, MaxConcurrentRequests c, MaxConcurrentPublishes c,
        MaxConcurrentQueries c, PublishRetryMax c, OutboxBackoffBaseMs c, OutboxQuarantineAfter c, MaxRequestBodyBytes c,
        RateLimitRPS c, RateLimitBurst c, RateLimitMaxIPs c, RateLimitIPTTLSeconds c}. 0 < n) \<and>
     OutboxBackoffBaseMs c \<le> OutboxBackoffMaxMs c \<and>
     (CORSEnabled c \<longrightarrow> CORSAllowedMethods c \<noteq> [] \<and> CORSAllowedHeaders c \<noteq> []) \<and>
     (RejectUnknownEventTypes c \<longrightarrow> EventTypeRegistry c \<noteq> [])) \<and>
   Validate (FromEnv (\<lambda>_. []) host) = None"
proof
  show "Validate c = None \<longleftrightarrow>
     (\<forall>n \<in> {HTTPReadTimeoutMs c, HTTPReadHeaderTimeoutMs c, HTTPWriteTimeoutMs c, HTTPIdleTimeoutMs c,
        HTTPRequestTimeoutMs c, HTTPShutdownTimeoutMs c, MaxConcurrentRequests c, MaxConcurrentPublishes c,
        MaxConcurrentQueries c, PublishRetryMax c, OutboxBackoffBaseMs c, OutboxQuarantineAfter c, MaxRequestBodyBytes c,
        RateLimitRPS c, RateLimitBurst c, RateLimitMaxIPs c, RateLimitIPTTLSeconds c}. 0 < n) \<and>
     OutboxBackoffBaseMs c \<le> OutboxBackoffMaxMs c \<and>
     (CORSEnabled c \<longrightarrow> CORSAllowedMethods c \<noteq> [] \<and> CORSAllowedHeaders c \<noteq> []) \<and>
     (RejectUnknownEventTypes c \<longrightarrow> EventTypeRegistry c \<noteq> [])"
    by (auto simp: Validate_def config_errs_def Let_def not_le not_less)
  show "Validate (FromEnv (\<lambda>_. []) host) = None"
    by (simp add: Validate_def config_errs_def Let_def FromEnv_def intOr_def int64Or_def boolOr_def ToLower_def)
qed

theorem validate_accepts_witness:
  "Validate (FromEnv (\<lambda>_. []) (Inr ''a'')) = None \<and>
   Validate ((FromEnv (\<lambda>_. []) (Inr ''a''))\<lparr>OutboxBackoffBaseMs := 40000\<rparr>) \<noteq> None"
proof -
  have "OutboxBackoffMaxMs (FromEnv (\<lambda>_. []) (Inr ''a'')) = 30000" by (simp add: FromEnv_def intOr_def)
  then show ?thesis
    using validate_accepts[of "(FromEnv (\<lambda>_. []) (Inr ''a''))\<lparr>OutboxBackoffBaseMs := 40000\<rparr>" "Inr ''a''"] by auto
qed

end
