(* ===== verification/App_Core.thy ===== *)
theory App_Core
  imports Breaker Limits Contracts Config_Env
begin

text \<open>
  The control plane's core, \<^verbatim>\<open>internal/core/app.go\<close>, without HTTP: its state, \<open>New\<close>, the calls
  guarded by circuit breakers, publishing with retries, the outbox relay, the cleanup loop, and the
  starting and stopping of the modules.

  \<open>App\<close> holds what the methods change; \<open>deps\<close> holds what \<open>New\<close> wires in (the modules through
  their interfaces, \<open>None\<close> for nil) and what the process gets from outside: the clock, the choice
  between a timer and the end of the context, and the token buckets. The request counter is the list of
  the labels it was incremented with, the other two are numbers; the latency histogram, spans and logs are left out. A context is represented by whether it has a deadline.
\<close>

section \<open>State\<close>

record 'l App =
  cfg :: Config
  limiter :: "'l ipRateLimiter"
  appGuard :: guard
  pubGuard :: guard
  queryGuard :: guard
  started :: bool
  busBreaker :: "circuitBreaker option"
  storeBreaker :: "circuitBreaker option"
  moduleBreakers :: "string \<rightharpoonup> circuitBreaker"
  subjectLimiter :: "'l subjectRateLimiter option"
  authGuard :: "authFailureGuard option"
  eventTypes :: "string list"
  outboxPaused :: bool
  reqs :: "(string \<times> string \<times> string) list"
  pubRetries :: int
  pubFailures :: int

text \<open>\<open>waitTimer\<close> is \<open>select\<close> between \<open>ctx.Done()\<close> and a timer: the error of a context that
  ended first, or nothing.\<close>

record ('w, 'l) deps =
  bus :: "'w EventBus option"
  coord :: "'w Coordinator option"
  store :: "'w EventStore option"
  adv :: "'w AdvancedOps option"
  mods :: "'w Module list"
  nowOp :: "'w \<Rightarrow> time \<times> 'w"
  waitTimer :: "duration \<Rightarrow> 'w \<Rightarrow> goerr option \<times> 'w"
  rateLib :: "'l rate_lib"
  rangeOrd :: "(string \<times> 'l ipLimiterEntry) list \<Rightarrow> (string \<times> 'l ipLimiterEntry) list"

text \<open>\<open>time.Duration(n) * time.Millisecond\<close> and its like wrap at 64 bits.\<close>

abbreviation ms_dur :: "int \<Rightarrow> duration" where "ms_dur n \<equiv> i64 (n * millisecond)"
abbreviation sec_dur :: "int \<Rightarrow> duration" where "sec_dur n \<equiv> i64 (n * second)"

definition appBreaker :: "Config \<Rightarrow> string \<Rightarrow> circuitBreaker" where
  "appBreaker c nm =
     newCircuitBreaker nm (max_go 1 (CircuitFailureThreshold c)) (ms_dur (max_go 1000 (CircuitOpenMs c)))
       (max_go 1 (CircuitHalfOpenSuccesses c))"

text \<open>The set \<open>eventTypes\<close> as a list without repetitions.\<close>

definition typeRegistry :: "string list \<Rightarrow> string list" where
  "typeRegistry ts = remdups (filter (\<lambda>t. t \<noteq> []) (map TrimSpace ts))"

definition New :: "Config \<Rightarrow> string list \<Rightarrow> time \<Rightarrow> 'l App" where
  "New c names now =
     \<lparr>cfg = c,
      limiter = newIPRateLimiter (max_go 1 (RateLimitRPS c)) (max_go 1 (RateLimitBurst c))
        (max_go 100 (RateLimitMaxIPs c)) (sec_dur (max_go 60 (RateLimitIPTTLSeconds c))) now,
      appGuard = makeGuard (max_go 1 (MaxConcurrentRequests c)),
      pubGuard = makeGuard (max_go 1 (MaxConcurrentPublishes c)),
      queryGuard = makeGuard (max_go 1 (MaxConcurrentQueries c)),
      started = False,
      busBreaker = Some (appBreaker c ''nats''),
      storeBreaker = Some (appBreaker c ''cassandra''),
      moduleBreakers = map_of (map (\<lambda>n. (n, appBreaker c n)) names),
      subjectLimiter = Some (newSubjectRateLimiter (max_go 1 (SubjectRateLimitRPS c))
        (max_go 1 (SubjectRateLimitBurst c)) (SubjectRateLimitOverrides c)),
      authGuard = Some (newAuthFailureGuard (max_go 1 (AuthFailureMaxAttempts c))
        (sec_dur (max_go 1 (AuthFailureBlockSeconds c)))),
      eventTypes = typeRegistry (EventTypeRegistry c),
      outboxPaused = False, reqs = [], pubRetries = 0, pubFailures = 0\<rparr>"

section \<open>Guarded calls\<close>

abbreviation errNoStore :: goerr where "errNoStore \<equiv> ErrMsg ''event store not configured''"
abbreviation errStoreOpen :: goerr where "errStoreOpen \<equiv> ErrMsg ''cassandra circuit open''"

definition busPublish ::
  "('w, 'l) deps \<Rightarrow> string \<Rightarrow> string \<Rightarrow> string \<Rightarrow> 'l App \<Rightarrow> 'w \<Rightarrow> (goerr + string) \<times> 'l App \<times> 'w" where
  "busPublish d subject payload messageID a w =
     (case bus d of
        None \<Rightarrow> (Inl (ErrMsg ''event bus not configured''), a, w)
      | Some b \<Rightarrow>
          (let (r, br, w1) = gated cbAllow cbSuccess cbFailure (nowOp d) (ErrMsg ''nats circuit open'')
                 (busPublishOp b subject payload messageID) (busBreaker a) w
           in (r, a\<lparr>busBreaker := br\<rparr>, w1)))"

text \<open>The five wrappers around the store differ in the operation only.\<close>

definition storeCall ::
  "('w, 'l) deps \<Rightarrow> ('w EventStore \<Rightarrow> ('a, 'w) call) \<Rightarrow> 'l App \<Rightarrow> 'w \<Rightarrow> (goerr + 'a) \<times> 'l App \<times> 'w" where
  "storeCall d op a w =
     (case store d of
        None \<Rightarrow> (Inl errNoStore, a, w)
      | Some s \<Rightarrow>
          (let (r, br, w1) = gated cbAllow cbSuccess cbFailure (nowOp d) errStoreOpen (op s) (storeBreaker a) w
           in (r, a\<lparr>storeBreaker := br\<rparr>, w1)))"

definition storeAppendEventExactlyOnce ::
  "('w, 'l) deps \<Rightarrow> EventRecord \<Rightarrow> 'l App \<Rightarrow> 'w \<Rightarrow> (goerr + AppendResult) \<times> 'l App \<times> 'w" where
  "storeAppendEventExactlyOnce d event = storeCall d (\<lambda>s. storeAppendOp s event)"

definition storeMarkOutboxPublished ::
  "('w, 'l) deps \<Rightarrow> string \<Rightarrow> string \<Rightarrow> 'l App \<Rightarrow> 'w \<Rightarrow> (goerr + unit) \<times> 'l App \<times> 'w" where
  "storeMarkOutboxPublished d eventID brokerID = storeCall d (\<lambda>s. storeMarkOp s eventID brokerID)"

definition storePendingOutboxEvents ::
  "('w, 'l) deps \<Rightarrow> int \<Rightarrow> 'l App \<Rightarrow> 'w \<Rightarrow> (goerr + EventRecord list) \<times> 'l App \<times> 'w" where
  "storePendingOutboxEvents d limit = storeCall d (\<lambda>s. storePendingOp s limit)"

definition storeClaimInboxMessage ::
  "('w, 'l) deps \<Rightarrow> string \<Rightarrow> string \<Rightarrow> 'l App \<Rightarrow> 'w \<Rightarrow> (goerr + bool) \<times> 'l App \<times> 'w" where
  "storeClaimInboxMessage d consumer messageID = storeCall d (\<lambda>s. storeClaimInboxOp s consumer messageID)"

definition storeRecentEvents ::
  "('w, 'l) deps \<Rightarrow> string \<Rightarrow> int \<Rightarrow> 'l App \<Rightarrow> 'w \<Rightarrow> (goerr + EventRecord list) \<times> 'l App \<times> 'w" where
  "storeRecentEvents d stream limit = storeCall d (\<lambda>s. storeRecentOp s stream limit)"

section \<open>Publishing\<close>

text \<open>The attempts of \<open>publishWithRetry\<close>; the first argument counts the retries that are left.\<close>

fun publishLoop ::
  "nat \<Rightarrow> ('w, 'l) deps \<Rightarrow> string \<Rightarrow> string \<Rightarrow> string \<Rightarrow> duration \<Rightarrow> duration \<Rightarrow> 'l App \<Rightarrow> 'w \<Rightarrow>
   (goerr + string) \<times> 'l App \<times> 'w" where
  "publishLoop 0 d subject payload messageID wait maxBackoff a w =
     (case busPublish d subject payload messageID a w of
        (Inr brokerID, a1, w1) \<Rightarrow> (Inr brokerID, a1, w1)
      | (Inl e, a1, w1) \<Rightarrow> (Inl e, a1\<lparr>pubFailures := pubFailures a1 + 1\<rparr>, w1))"
| "publishLoop (Suc n) d subject payload messageID wait maxBackoff a w =
     (case busPublish d subject payload messageID a w of
        (Inr brokerID, a1, w1) \<Rightarrow> (Inr brokerID, a1, w1)
      | (Inl e, a1, w1) \<Rightarrow>
          (let a2 = a1\<lparr>pubRetries := pubRetries a1 + 1\<rparr> in
           case waitTimer d wait w1 of
             (Some ctxErr, w2) \<Rightarrow> (Inl ctxErr, a2, w2)
           | (None, w2) \<Rightarrow>
               (let wait1 = i64 (wait * 2);
                    wait2 = (if wait1 > maxBackoff then maxBackoff else wait1)
                in publishLoop n d subject payload messageID wait2 maxBackoff a2 w2)))"

definition publish_attempts :: "Config \<Rightarrow> int" where
  "publish_attempts c = (if PublishRetryMax c \<le> 0 then 1 else PublishRetryMax c)"

definition publish_backoff :: "Config \<Rightarrow> duration" where
  "publish_backoff c =
     (let b = ms_dur (PublishRetryBackoffMs c) in if b \<le> 0 then 150 * millisecond else b)"

definition publish_maxBackoff :: "Config \<Rightarrow> duration" where
  "publish_maxBackoff c =
     (let b = ms_dur (PublishRetryMaxBackoffMs c) in if b \<le> 0 then 3 * second else b)"

definition publishWithRetry ::
  "('w, 'l) deps \<Rightarrow> string \<Rightarrow> string \<Rightarrow> string \<Rightarrow> 'l App \<Rightarrow> 'w \<Rightarrow> (goerr + string) \<times> 'l App \<times> 'w" where
  "publishWithRetry d subject payload messageID a w =
     publishLoop (nat (publish_attempts (cfg a) - 1)) d subject payload messageID
       (publish_backoff (cfg a)) (publish_maxBackoff (cfg a)) a w"

section \<open>Relay\<close>

definition claimOutboxLease :: "('w, 'l) deps \<Rightarrow> 'l App \<Rightarrow> string \<Rightarrow> 'w \<Rightarrow> bool \<times> 'w" where
  "claimOutboxLease d a eventID w =
     (case adv d of
        None \<Rightarrow> (True, w)
      | Some s \<Rightarrow>
          (case storeLeaseOp s eventID (NodeID (cfg a)) (ms_dur (max_go 1000 (OutboxLeaseMs (cfg a)))) w of
             (Inl _, w1) \<Rightarrow> (False, w1)
           | (Inr ok, w1) \<Rightarrow> (ok, w1)))"

definition recordOutboxFailure ::
  "('w, 'l) deps \<Rightarrow> 'l App \<Rightarrow> string \<Rightarrow> goerr \<Rightarrow> 'w \<Rightarrow> (bool \<times> int) \<times> 'w" where
  "recordOutboxFailure d a eventID publishErr w =
     (case adv d of
        None \<Rightarrow> ((False, 0), w)
      | Some s \<Rightarrow>
          (let ((q, n, err), w1) = storeFailureOp s eventID (err_string publishErr)
                 (ms_dur (max_go 50 (OutboxBackoffBaseMs (cfg a))))
                 (ms_dur (max_go 200 (OutboxBackoffMaxMs (cfg a))))
                 (max_go 0 (OutboxBackoffJitterPct (cfg a)))
                 (max_go 1 (OutboxQuarantineAfter (cfg a))) w
           in ((if err = None then q else False, n), w1)))"

fun relayLoop :: "('w, 'l) deps \<Rightarrow> EventRecord list \<Rightarrow> 'l App \<Rightarrow> 'w \<Rightarrow> 'l App \<times> 'w" where
  "relayLoop d [] a w = (a, w)"
| "relayLoop d (evt # rest) a w =
     (let (ok, w1) = claimOutboxLease d a (evID evt) w in
      if \<not> ok then relayLoop d rest a w1
      else
        (case publishWithRetry d (evSubject evt) (evPayload evt) (evID evt) a w1 of
           (Inl e, a2, w2) \<Rightarrow>
             (let (_, w3) = recordOutboxFailure d a2 (evID evt) e w2 in relayLoop d rest a2 w3)
         | (Inr brokerID, a2, w2) \<Rightarrow>
             (let (_, a3, w3) = storeMarkOutboxPublished d (evID evt) brokerID a2 w2
              in relayLoop d rest a3 w3)))"

definition relayOutboxBatch :: "('w, 'l) deps \<Rightarrow> 'l App \<Rightarrow> 'w \<Rightarrow> goerr option \<times> 'l App \<times> 'w" where
  "relayOutboxBatch d a w =
     (if store d = None \<or> bus d = None then (None, a, w)
      else
        (case storePendingOutboxEvents d (max_go 1 (OutboxRelayBatchSize (cfg a))) a w of
           (Inl e, a1, w1) \<Rightarrow> (Some e, a1, w1)
         | (Inr pending, a1, w1) \<Rightarrow> (let (a2, w2) = relayLoop d pending a1 w1 in (None, a2, w2))))"

text \<open>What \<open>runOutboxRelay\<close> does at a tick of its interval.\<close>

definition relayInterval :: "Config \<Rightarrow> duration" where
  "relayInterval c = ms_dur (max_go 250 (OutboxRelayIntervalMs c))"

definition isFollower :: "('w, 'l) deps \<Rightarrow> 'w \<Rightarrow> bool" where
  "isFollower d w = (case coord d of None \<Rightarrow> False | Some c \<Rightarrow> \<not> coordIsLeader c w)"

definition relayTick :: "('w, 'l) deps \<Rightarrow> 'l App \<Rightarrow> 'w \<Rightarrow> 'l App \<times> 'w" where
  "relayTick d a w =
     (if outboxPaused a then (a, w)
      else if isFollower d w then (a, w)
      else (let (_, a1, w1) = relayOutboxBatch d a w in (a1, w1)))"

text \<open>What \<open>runCleanupLoop\<close> does at a tick of its interval.\<close>

definition cleanupInterval :: "Config \<Rightarrow> duration" where
  "cleanupInterval c = ms_dur (max_go 1000 (CleanupIntervalMs c))"

abbreviation hour :: duration where "hour \<equiv> 60 * minute"

definition cleanupTick :: "('w, 'l) deps \<Rightarrow> 'l App \<Rightarrow> 'w \<Rightarrow> 'w" where
  "cleanupTick d a w =
     (case adv d of
        None \<Rightarrow> w
      | Some s \<Rightarrow>
          (let (t1, w1) = nowOp d w; (t2, w2) = nowOp d w1
           in snd (storeCleanupOp s (t1 + i64 (- i64 (max_go 1 (IdempotencyTTLHours (cfg a)) * hour)))
                (t2 + i64 (- i64 (max_go 1 (DeadLetterTTLHours (cfg a)) * hour)))
                (max_go 1 (CleanupBatchSize (cfg a))) w2)))"

section \<open>Lifecycle\<close>

text \<open>\<open>startModuleWithRetry\<close>: the first argument counts the attempts that are left after this one.\<close>

fun startLoop :: "nat \<Rightarrow> ('w, 'l) deps \<Rightarrow> 'w Module \<Rightarrow> duration \<Rightarrow> (unit, 'w) call" where
  "startLoop 0 d m wait w = moduleStart m w"
| "startLoop (Suc n) d m wait w =
     (case moduleStart m w of
        (Inr u, w1) \<Rightarrow> (Inr u, w1)
      | (Inl e, w1) \<Rightarrow>
          (case waitTimer d wait w1 of
             (Some ctxErr, w2) \<Rightarrow> (Inl ctxErr, w2)
           | (None, w2) \<Rightarrow>
               startLoop n d m
                 (if wait < 10 * second
                  then (let wait1 = i64 (wait * 2) in if wait1 > 10 * second then 10 * second else wait1)
                  else wait) w2))"

definition startModuleWithRetry :: "('w, 'l) deps \<Rightarrow> Config \<Rightarrow> 'w Module \<Rightarrow> (unit, 'w) call" where
  "startModuleWithRetry d c m w =
     startLoop (nat (max_go 1 (ModuleStartRetryMax c) - 1)) d m
       (ms_dur (max_go 100 (ModuleStartRetryBackoffMs c))) w"

text \<open>The loop of \<open>Run\<close> over the modules: the error names the module that failed, and nothing stops
  the ones that are already running.\<close>

fun startModules :: "('w, 'l) deps \<Rightarrow> Config \<Rightarrow> 'w Module list \<Rightarrow> (unit, 'w) call" where
  "startModules d c [] w = (Inr (), w)"
| "startModules d c (m # ms) w =
     (case startModuleWithRetry d c m w of
        (Inl e, w1) \<Rightarrow> (Inl (ErrMsg (''start '' @ moduleName m @ '': '' @ err_string e)), w1)
      | (Inr _, w1) \<Rightarrow> startModules d c ms w1)"

fun stopModules :: "'w Module list \<Rightarrow> 'w \<Rightarrow> 'w" where
  "stopModules [] w = w"
| "stopModules (m # ms) w = stopModules ms (snd (moduleStop m w))"

text \<open>What \<open>Run\<close> configures the server with, and the loops it starts beside it.\<close>

record httpServer =
  srvAddr :: string
  srvReadTimeout :: duration
  srvReadHeaderTimeout :: duration
  srvWriteTimeout :: duration
  srvIdleTimeout :: duration

definition newServer :: "Config \<Rightarrow> httpServer" where
  "newServer c =
     \<lparr>srvAddr = HTTPAddr c,
      srvReadTimeout = ms_dur (max_go 1 (HTTPReadTimeoutMs c)),
      srvReadHeaderTimeout = ms_dur (max_go 1 (HTTPReadHeaderTimeoutMs c)),
      srvWriteTimeout = ms_dur (max_go 1 (HTTPWriteTimeoutMs c)),
      srvIdleTimeout = ms_dur (max_go 1 (HTTPIdleTimeoutMs c))\<rparr>"

definition shutdownTimeout :: "Config \<Rightarrow> duration" where
  "shutdownTimeout c = ms_dur (max_go 1 (HTTPShutdownTimeoutMs c))"

definition runsRelay :: "('w, 'l) deps \<Rightarrow> bool" where
  "runsRelay d \<longleftrightarrow> store d \<noteq> None \<and> bus d \<noteq> None"

definition runsCleanup :: "('w, 'l) deps \<Rightarrow> bool" where
  "runsCleanup d \<longleftrightarrow> adv d \<noteq> None"

text \<open>\<open>Run\<close>: \<open>serve\<close> is the time the server runs, from \<open>ListenAndServe\<close> to the end of
  \<open>select\<close>: the server's error other than \<open>ErrServerClosed\<close>, or nothing when the context ended or
  the server was closed. \<open>shutdown\<close> is \<open>srv.Shutdown\<close>.\<close>

definition Run ::
  "('w, 'l) deps \<Rightarrow> ('l App \<Rightarrow> 'w \<Rightarrow> goerr option \<times> 'l App \<times> 'w) \<Rightarrow> ('w \<Rightarrow> 'w) \<Rightarrow> 'l App \<Rightarrow> 'w \<Rightarrow>
   goerr option \<times> 'l App \<times> 'w" where
  "Run d serve shutdown a w =
     (case startModules d (cfg a) (mods d) w of
        (Inl e, w1) \<Rightarrow> (Some e, a, w1)
      | (Inr _, w1) \<Rightarrow>
          (case serve (a\<lparr>started := True\<rparr>) w1 of
             (Some e, a2, w2) \<Rightarrow> (Some e, a2, w2)
           | (None, a2, w2) \<Rightarrow> (None, a2, stopModules (rev (mods d)) (shutdown w2))))"

end
