(* ===== verification/Go_Json.thy ===== *)
theory Go_Json
  imports Go_Strings
begin

text \<open>
  What the sources use of Go's \<^verbatim>\<open>encoding/json\<close> for decoding: the grammar that its scanner accepts, byte by byte, with the
  nesting limit; the unquoting of strings, with surrogate pairs and the replacement of invalid UTF-8; numbers that do not
  fit \<open>float64\<close>; and the folding of object keys to struct fields. A value keeps, for the members of an object, the bytes it was read from,
  which is what a \<open>json.RawMessage\<close> receives.
\<close>

section \<open>Values\<close>

datatype json = VNull | VBool bool | VNum string | VStr string | VArr "json list" | VObj "(string \<times> string \<times> json) list"

definition json_space :: "char \<Rightarrow> bool" where
  "json_space c \<longleftrightarrow> c = CHR '' '' \<or> c = CHR 0x09 \<or> c = CHR 0x0D \<or> c = CHR 0x0A"

definition skipSpace :: "string \<Rightarrow> string" where
  "skipSpace s = dropWhile json_space s"

lemma skipSpace_length: "length (skipSpace s) \<le> length s"
  by (simp add: skipSpace_def length_dropWhile_le)

lemma skipSpace_Cons: "skipSpace s = x # r \<Longrightarrow> Suc (length r) \<le> length s \<and> Suc (length (skipSpace r)) \<le> length s"
  using skipSpace_length[of s] skipSpace_length[of r] by simp

section \<open>Strings\<close>

definition is_hex :: "char \<Rightarrow> bool" where
  "is_hex c \<longleftrightarrow> is_digit c \<or> 97 \<le> (of_char c :: nat) \<and> (of_char c :: nat) \<le> 102 \<or> 65 \<le> (of_char c :: nat) \<and> (of_char c :: nat) \<le> 70"

definition hex_val :: "char \<Rightarrow> nat" where
  "hex_val c = (let n = of_char c in if n \<le> 57 then n - 48 else if n \<le> 70 then n - 55 else n - 87)"

definition hex4 :: "char \<Rightarrow> char \<Rightarrow> char \<Rightarrow> char \<Rightarrow> nat" where
  "hex4 a b c d = ((hex_val a * 16 + hex_val b) * 16 + hex_val c) * 16 + hex_val d"

text \<open>The bytes of a string literal up to the closing quote, as the scanner accepts them, and the rest.\<close>

fun strBody :: "string \<Rightarrow> (string \<times> string) option" where
  "strBody [] = None"
| "strBody (c # s) =
     (if c = CHR 0x22 then Some ([], s)
      else if c = CHR 0x5C then
        (case s of
           [] \<Rightarrow> None
         | e # s1 \<Rightarrow>
             (if e = CHR ''u'' then
                (case s1 of
                   h1 # h2 # h3 # h4 # s2 \<Rightarrow>
                     (if is_hex h1 \<and> is_hex h2 \<and> is_hex h3 \<and> is_hex h4
                      then map_option (\<lambda>(b, r). (c # e # h1 # h2 # h3 # h4 # b, r)) (strBody s2) else None)
                 | _ \<Rightarrow> None)
              else if e \<in> set ''bfnrt/'' \<or> e = CHR 0x22 \<or> e = CHR 0x5C
              then map_option (\<lambda>(b, r). (c # e # b, r)) (strBody s1)
              else None))
      else if (of_char c :: nat) < 32 then None
      else map_option (\<lambda>(b, r). (c # b, r)) (strBody s))"

text \<open>\<open>utf8.EncodeRune\<close> of a code point; surrogates become U+FFFD.\<close>

definition replacement :: string where "replacement = [CHR 0xEF, CHR 0xBF, CHR 0xBD]"

definition encodeRune :: "nat \<Rightarrow> string" where
  "encodeRune r =
     (if r < 0x80 then [char_of r]
      else if r < 0x800 then [char_of (0xC0 + r div 64), char_of (0x80 + r mod 64)]
      else if 0xD800 \<le> r \<and> r < 0xE000 \<or> 0x10FFFF < r then replacement
      else if r < 0x10000 then [char_of (0xE0 + r div 4096), char_of (0x80 + r div 64 mod 64), char_of (0x80 + r mod 64)]
      else [char_of (0xF0 + r div 262144), char_of (0x80 + r div 4096 mod 64), char_of (0x80 + r div 64 mod 64), char_of (0x80 + r mod 64)])"

text \<open>\<open>utf8.DecodeRune\<close>: how many bytes the well-formed sequence at the front has, 0 for an ill-formed one.\<close>

definition between :: "nat \<Rightarrow> char \<Rightarrow> nat \<Rightarrow> bool" where
  "between lo c hi \<longleftrightarrow> lo \<le> of_char c \<and> of_char c \<le> hi"

definition utf8_len :: "string \<Rightarrow> nat" where
  "utf8_len s =
     (case s of
        [] \<Rightarrow> 0
      | c # r \<Rightarrow>
          if between 0 c 0x7F then 1
          else if between 0xC2 c 0xDF then (case r of d # _ \<Rightarrow> if between 0x80 d 0xBF then 2 else 0 | [] \<Rightarrow> 0)
          else if between 0xE0 c 0xEF then
            (case r of
               d # e # _ \<Rightarrow>
                 if between (if c = CHR 0xE0 then 0xA0 else 0x80) d (if c = CHR 0xED then 0x9F else 0xBF) \<and> between 0x80 e 0xBF then 3 else 0
             | _ \<Rightarrow> 0)
          else if between 0xF0 c 0xF4 then
            (case r of
               d # e # f # _ \<Rightarrow>
                 if between (if c = CHR 0xF0 then 0x90 else 0x80) d (if c = CHR 0xF4 then 0x8F else 0xBF) \<and>
                    between 0x80 e 0xBF \<and> between 0x80 f 0xBF then 4 else 0
             | _ \<Rightarrow> 0)
          else 0)"

definition escape :: "char \<Rightarrow> char" where
  "escape e =
     (if e = CHR ''b'' then CHR 0x08 else if e = CHR ''f'' then CHR 0x0C else if e = CHR ''n'' then CHR 0x0A
      else if e = CHR ''r'' then CHR 0x0D else if e = CHR ''t'' then CHR 0x09 else e)"

text \<open>The low half of a surrogate pair, when the string goes on with one.\<close>

definition lowSurrogate :: "string \<Rightarrow> nat option" where
  "lowSurrogate s =
     (case s of
        b # u # h1 # h2 # h3 # h4 # _ \<Rightarrow>
          (let v = hex4 h1 h2 h3 h4 in
           if b = CHR 0x5C \<and> u = CHR ''u'' \<and> is_hex h1 \<and> is_hex h2 \<and> is_hex h3 \<and> is_hex h4 \<and> 0xDC00 \<le> v \<and> v < 0xE000
           then Some v else None)
      | _ \<Rightarrow> None)"

text \<open>\<open>unquoteBytes\<close>, on the bytes between the quotes.\<close>

function unquote :: "string \<Rightarrow> string" where
  "unquote s =
     (case s of
        [] \<Rightarrow> []
      | c # r \<Rightarrow>
          if c = CHR 0x5C then
            (case r of
               u # h1 # h2 # h3 # h4 # r1 \<Rightarrow>
                 if u = CHR ''u'' then
                   (let v = hex4 h1 h2 h3 h4 in
                    case (if 0xD800 \<le> v \<and> v < 0xDC00 then lowSurrogate r1 else None) of
                      Some v2 \<Rightarrow> encodeRune (0x10000 + (v - 0xD800) * 1024 + (v2 - 0xDC00)) @ unquote (drop 6 r1)
                    | None \<Rightarrow> encodeRune v @ unquote r1)
                 else escape u # unquote (tl r)
             | e # r1 \<Rightarrow> escape e # unquote r1
             | [] \<Rightarrow> [])
          else
            (let k = utf8_len s in
             if k = 0 then replacement @ unquote r else take k s @ unquote (drop k s)))"
  by pat_completeness auto
termination
  by (relation "measure length") (auto split: list.splits)

declare unquote.simps [simp del]

section \<open>Numbers\<close>

text \<open>The parts of a number literal, sign, integer digits, fraction digits and exponent, and the rest of the input.\<close>

definition numExp :: "string \<Rightarrow> (string \<times> string) option" where
  "numExp s =
     (case s of
        c # r \<Rightarrow>
          if c = CHR ''e'' \<or> c = CHR ''E'' then
            (let (sg, r1) = (case r of x # r' \<Rightarrow> if x = CHR ''+'' \<or> x = CHR ''-'' then ([x], r') else ([], r) | [] \<Rightarrow> ([], r));
                 ds = takeWhile is_digit r1
             in if ds = [] then None else Some (c # sg @ ds, dropWhile is_digit r1))
          else Some ([], s)
      | [] \<Rightarrow> Some ([], s))"

definition numFrac :: "string \<Rightarrow> (string \<times> string) option" where
  "numFrac s =
     (case s of
        c # r \<Rightarrow>
          if c = CHR ''.'' then (let ds = takeWhile is_digit r in if ds = [] then None else Some (c # ds, dropWhile is_digit r))
          else Some ([], s)
      | [] \<Rightarrow> Some ([], s))"

definition numInt :: "string \<Rightarrow> (string \<times> string) option" where
  "numInt s =
     (case s of
        [] \<Rightarrow> None
      | c # r \<Rightarrow>
          if c = CHR ''0'' then Some ([c], r)
          else if is_digit c then Some (takeWhile is_digit s, dropWhile is_digit s)
          else None)"

definition number :: "string \<Rightarrow> ((string \<times> string \<times> string \<times> string) \<times> string) option" where
  "number s =
     (let (sg, s0) = (case s of c # r \<Rightarrow> if c = CHR ''-'' then ([c], r) else ([], s) | [] \<Rightarrow> ([], s)) in
      case numInt s0 of
        None \<Rightarrow> None
      | Some (ip, s1) \<Rightarrow>
          (case numFrac s1 of
             None \<Rightarrow> None
           | Some (fp, s2) \<Rightarrow>
               (case numExp s2 of None \<Rightarrow> None | Some (ex, s3) \<Rightarrow> Some ((sg, ip, fp, ex), s3))))"

definition digits_nat :: "string \<Rightarrow> int" where
  "digits_nat s = foldl (\<lambda>n c. n * 10 + digit_val c) 0 s"

text \<open>\<open>strconv.ParseFloat\<close> reports a range error from the middle between the largest \<open>float64\<close> and the next power of
  two on.\<close>

definition floatRange :: "string \<Rightarrow> bool" where
  "floatRange lit =
     (case number lit of
        None \<Rightarrow> False
      | Some ((sg, ip, fp, ex), _) \<Rightarrow>
          (let m = digits_nat (ip @ tl fp);
               e = (case ex of
                      [] \<Rightarrow> 0
                    | _ # r \<Rightarrow> if r \<noteq> [] \<and> hd r = CHR ''-'' then - digits_nat (tl r)
                               else if r \<noteq> [] \<and> hd r = CHR ''+'' then digits_nat (tl r) else digits_nat r);
               x = e - int (length (tl fp))
           in m = 0 \<or> (if x \<ge> 0 then x \<le> 400 \<and> m * 10 ^ nat x < 2 ^ 1024 - 2 ^ 970
                        else m < (2 ^ 1024 - 2 ^ 970) * 10 ^ nat (- x))))"

section \<open>The grammar\<close>

definition prefixed :: "string \<Rightarrow> string \<Rightarrow> bool" where
  "prefixed p s \<longleftrightarrow> take (length p) s = p"

text \<open>Values, array elements and object members from the front of the input; the first argument counts the levels of nesting that are
  left. The length tests never fail; they are there for the termination.\<close>

function parseValue :: "int \<Rightarrow> string \<Rightarrow> (json \<times> string) option"
  and parseElems :: "int \<Rightarrow> string \<Rightarrow> (json list \<times> string) option"
  and parseMembers :: "int \<Rightarrow> string \<Rightarrow> ((string \<times> string \<times> json) list \<times> string) option" where
  "parseValue d s =
     (case s of
        [] \<Rightarrow> None
      | c # r \<Rightarrow>
          if c = CHR 0x7B then
            (if d \<le> 0 then None
             else (case skipSpace r of
                     [] \<Rightarrow> None
                   | x # r1 \<Rightarrow> if x = CHR 0x7D then Some (VObj [], r1)
                                else map_option (\<lambda>(ms, q). (VObj ms, q)) (parseMembers (d - 1) (skipSpace r))))
          else if c = CHR 0x5B then
            (if d \<le> 0 then None
             else (case skipSpace r of
                     [] \<Rightarrow> None
                   | x # r1 \<Rightarrow> if x = CHR 0x5D then Some (VArr [], r1)
                                else map_option (\<lambda>(vs, q). (VArr vs, q)) (parseElems (d - 1) (skipSpace r))))
          else if c = CHR 0x22 then map_option (\<lambda>(b, q). (VStr (unquote b), q)) (strBody r)
          else if prefixed ''null'' s then Some (VNull, drop 4 s)
          else if prefixed ''true'' s then Some (VBool True, drop 4 s)
          else if prefixed ''false'' s then Some (VBool False, drop 5 s)
          else map_option (\<lambda>((sg, ip, fp, ex), q). (VNum (sg @ ip @ fp @ ex), q)) (number s))"
| "parseElems d s =
     (case parseValue d s of
        None \<Rightarrow> None
      | Some (v, r) \<Rightarrow>
          if length r < length s then
            (case skipSpace r of
               [] \<Rightarrow> None
             | x # r1 \<Rightarrow>
                 if x = CHR '','' then map_option (\<lambda>(vs, q). (v # vs, q)) (parseElems d (skipSpace r1))
                 else if x = CHR 0x5D then Some ([v], r1)
                 else None)
          else None)"
| "parseMembers d s =
     (case s of
        [] \<Rightarrow> None
      | c # r \<Rightarrow>
          if c \<noteq> CHR 0x22 then None
          else
            (case strBody r of
               None \<Rightarrow> None
             | Some (k, r1) \<Rightarrow>
                 (case skipSpace r1 of
                    [] \<Rightarrow> None
                  | x # r2 \<Rightarrow>
                      if x \<noteq> CHR '':'' \<or> length r1 \<ge> length s then None
                      else
                        (let s1 = skipSpace r2 in
                         case parseValue d s1 of
                           None \<Rightarrow> None
                         | Some (v, r3) \<Rightarrow>
                             if length r3 < length s then
                               (let mb = (unquote k, take (length s1 - length r3) s1, v) in
                                case skipSpace r3 of
                                  [] \<Rightarrow> None
                                | y # r4 \<Rightarrow>
                                    if y = CHR '','' then map_option (\<lambda>(ms, q). (mb # ms, q)) (parseMembers d (skipSpace r4))
                                    else if y = CHR 0x7D then Some ([mb], r4)
                                    else None)
                             else None))))"
  by pat_completeness auto

termination
  by (relation "measures [\<lambda>a. case a of Inl (d, s) \<Rightarrow> length s | Inr (Inl (d, s)) \<Rightarrow> length s | Inr (Inr (d, s)) \<Rightarrow> length s,
      \<lambda>a. case a of Inl _ \<Rightarrow> 0 | Inr _ \<Rightarrow> 1]")
    (auto dest!: skipSpace_Cons)

declare parseValue.simps [simp del] parseElems.simps [simp del] parseMembers.simps [simp del]

section \<open>Decoding\<close>

definition maxNestingDepth :: int where "maxNestingDepth = 10000"

text \<open>The value at the front of the input.\<close>

definition readValue :: "string \<Rightarrow> (json \<times> string) option" where
  "readValue s = parseValue maxNestingDepth (skipSpace s)"

text \<open>\<open>json.Unmarshal\<close> into an \<open>any\<close>: one value and nothing but space after it, every number in the range of \<open>float64\<close>.\<close>

fun inRange :: "json \<Rightarrow> bool" where
  "inRange (VNum lit) = floatRange lit"
| "inRange (VArr vs) = (\<forall>v \<in> set vs. inRange v)"
| "inRange (VObj ms) = (\<forall>m \<in> set ms. inRange (snd (snd m)))"
| "inRange _ = True"

definition Unmarshal :: "string \<Rightarrow> goerr + json" where
  "Unmarshal s =
     (case readValue s of
        None \<Rightarrow> Inl (ErrMsg ''invalid JSON'')
      | Some (v, r) \<Rightarrow>
          if skipSpace r \<noteq> [] then Inl (ErrMsg ''invalid JSON'')
          else if \<not> inRange v then Inl (ErrMsg ''number out of range'')
          else Inr v)"

text \<open>The keys of the \<open>map[string]any\<close> that a payload decodes to; \<open>None\<close> when it is no object.\<close>

definition jsonObject :: "string \<Rightarrow> goerr + string set option" where
  "jsonObject s =
     (case Unmarshal s of
        Inl e \<Rightarrow> Inl e
      | Inr (VObj ms) \<Rightarrow> Inr (Some (set (map fst ms)))
      | Inr _ \<Rightarrow> Inr None)"

text \<open>Struct fields are found by their name, and otherwise by its folded form: upper case, with U+017F and U+212A, which fold to
  ASCII letters; no other character outside ASCII does.\<close>

definition upper :: "char \<Rightarrow> char" where
  "upper c = (if 97 \<le> (of_char c :: nat) \<and> (of_char c :: nat) \<le> 122 then char_of ((of_char c :: nat) - 32) else c)"

fun foldName :: "string \<Rightarrow> string" where
  "foldName [] = []"
| "foldName (c # s) =
     (case s of
        d # s1 \<Rightarrow>
          if c = CHR 0xC5 \<and> d = CHR 0xBF then CHR ''S'' # foldName s1
          else
            (case s1 of
               e # s2 \<Rightarrow> if c = CHR 0xE2 \<and> d = CHR 0x84 \<and> e = CHR 0xAA then CHR ''K'' # foldName s2 else upper c # foldName s
             | [] \<Rightarrow> upper c # foldName s)
      | [] \<Rightarrow> upper c # foldName s)"

end
