(* ===== verification/Go_Netip.thy ===== *)
theory Go_Netip
  imports Go_Json
begin

text \<open>
  What the sources use of Go's \<^verbatim>\<open>net/netip\<close>: \<open>ParseAddrPort\<close> and the text of the address it
  finds. An address is four bytes, or eight groups of 16 bits with a zone.
\<close>

section \<open>Addresses\<close>

datatype addr = Addr4 "int list" | Addr6 "int list" string

text \<open>\<open>parseIPv4Fields\<close>: four decimal fields up to 255 without leading zeros.\<close>

definition v4Field :: "string \<Rightarrow> int option" where
  "v4Field f =
     (case parse_digits f of
        None \<Rightarrow> None
      | Some n \<Rightarrow> if n \<le> 255 \<and> (length f = 1 \<or> hd f \<noteq> CHR ''0'') then Some n else None)"

definition v4Fields :: "string \<Rightarrow> int list option" where
  "v4Fields s = (let fs = map v4Field (Split CHR ''.'' s) in if length fs = 4 \<and> None \<notin> set fs then Some (map the fs) else None)"

definition hexInt :: "string \<Rightarrow> int" where
  "hexInt h = foldl (\<lambda>n c. n * 16 + int (hex_val c)) 0 h"

text \<open>The loop of \<open>parseIPv6\<close>: the number of groups that still fit, the groups so far, the place of the ellipsis, and the text that is left.\<close>

fun v6Groups :: "nat \<Rightarrow> int list \<Rightarrow> nat option \<Rightarrow> string \<Rightarrow> (int list \<times> nat option \<times> string) option" where
  "v6Groups 0 gs el s = Some (gs, el, s)"
| "v6Groups (Suc n) gs el s =
     (let h = takeWhile is_hex s; r = dropWhile is_hex s; gs1 = gs @ [hexInt h] in
      if h = [] \<or> length h > 4 then None
      else if r \<noteq> [] \<and> hd r = CHR ''.'' then
        (if el = None \<and> length gs \<noteq> 6 \<or> n = 0 then None
         else case v4Fields s of Some [a, b, c, d] \<Rightarrow> Some (gs @ [a * 256 + b, c * 256 + d], el, []) | _ \<Rightarrow> None)
      else if r = [] then Some (gs1, el, [])
      else if hd r \<noteq> CHR '':'' \<or> tl r = [] then None
      else if hd (tl r) = CHR '':'' then
        (if el \<noteq> None then None
         else if tl (tl r) = [] then Some (gs1, Some (length gs1), [])
         else v6Groups n gs1 (Some (length gs1)) (tl (tl r)))
      else v6Groups n gs1 el (tl r))"

definition parseIPv6 :: "string \<Rightarrow> addr option" where
  "parseIPv6 s =
     (let s0 = takeWhile (\<lambda>c. c \<noteq> CHR ''%'') s; z = dropWhile (\<lambda>c. c \<noteq> CHR ''%'') s; zone = tl z;
          lead = take 2 s0 = ''::'' in
      if z \<noteq> [] \<and> zone = [] then None
      else if lead \<and> drop 2 s0 = [] then Some (Addr6 (replicate 8 0) zone)
      else
        (case v6Groups 8 [] (if lead then Some 0 else None) (if lead then drop 2 s0 else s0) of
           None \<Rightarrow> None
         | Some (gs, el, r) \<Rightarrow>
             if r \<noteq> [] then None
             else if length gs < 8 then
               map_option (\<lambda>e. Addr6 (take e gs @ replicate (8 - length gs) 0 @ drop e gs) zone) el
             else if el \<noteq> None then None
             else Some (Addr6 gs zone)))"

definition ParseAddr :: "string \<Rightarrow> addr option" where
  "ParseAddr s =
     (case dropWhile (\<lambda>c. c \<notin> {CHR ''.'', CHR '':'', CHR ''%''}) s of
        [] \<Rightarrow> None
      | c # _ \<Rightarrow> if c = CHR ''.'' then map_option Addr4 (v4Fields s) else if c = CHR '':'' then parseIPv6 s else None)"

text \<open>\<open>ParseAddrPort\<close>: the port after the last colon, and brackets around IPv6 addresses and no others.\<close>

definition parsePort :: "string \<Rightarrow> bool" where
  "parsePort p \<longleftrightarrow> (case parse_digits p of None \<Rightarrow> False | Some n \<Rightarrow> n \<le> 65535)"

definition ParseAddrPort :: "string \<Rightarrow> addr option" where
  "ParseAddrPort s =
     (if CHR '':'' \<notin> set s then None
      else
        (let r = rev s;
             port = rev (takeWhile (\<lambda>c. c \<noteq> CHR '':'') r);
             ip = rev (tl (dropWhile (\<lambda>c. c \<noteq> CHR '':'') r));
             v6 = (ip \<noteq> [] \<and> hd ip = CHR ''['')
         in if ip = [] \<or> \<not> parsePort port then None
            else if v6 \<and> (length ip < 2 \<or> last ip \<noteq> CHR '']'') then None
            else
              (case ParseAddr (if v6 then butlast (tl ip) else ip) of
                 None \<Rightarrow> None
               | Some (Addr4 fs) \<Rightarrow> if v6 then None else Some (Addr4 fs)
               | Some (Addr6 gs z) \<Rightarrow> if v6 then Some (Addr6 gs z) else None)))"

section \<open>Text\<close>

definition string4 :: "int list \<Rightarrow> string" where
  "string4 fs = Join (map Itoa fs) ''.''"

definition hexDigit :: "int \<Rightarrow> char" where
  "hexDigit n = char_of (nat (if n < 10 then 48 + n else 87 + n))"

function appendHex :: "int \<Rightarrow> string" where
  "appendHex n = (if n < 16 then [hexDigit n] else appendHex (n div 16) @ [hexDigit (n mod 16)])"
  by pat_completeness auto
termination
  by (relation "measure nat") auto

declare appendHex.simps [simp del]

text \<open>The first of the longest runs of at least two zero groups: its start and its length.\<close>

definition zeroRun :: "int list \<Rightarrow> nat \<times> nat" where
  "zeroRun gs =
     fold (\<lambda>i (st, len). let l = length (takeWhile (\<lambda>g. g = 0) (drop i gs)) in if l \<ge> 2 \<and> l > len then (i, l) else (st, len))
       [0..<length gs] (0, 0)"

definition string6 :: "int list \<Rightarrow> string" where
  "string6 gs =
     (let (st, len) = zeroRun gs; hx = (\<lambda>xs. Join (map appendHex xs) '':'') in
      if len = 0 then hx gs else hx (take st gs) @ ''::'' @ hx (drop (st + len) gs))"

definition zoneSuffix :: "string \<Rightarrow> string" where
  "zoneSuffix z = (if z = [] then [] else CHR ''%'' # z)"

definition addrString :: "addr \<Rightarrow> string" where
  "addrString a =
     (case a of
        Addr4 fs \<Rightarrow> string4 fs
      | Addr6 gs z \<Rightarrow>
          (if take 6 gs = [0, 0, 0, 0, 0, 0xFFFF]
           then ''::ffff:'' @ string4 (concat (map (\<lambda>g. [g div 256, g mod 256]) (drop 6 gs)))
           else string6 gs) @ zoneSuffix z)"

lemma netip_examples:
  "map_option addrString (ParseAddrPort ''10.0.0.7:5000'') = Some ''10.0.0.7''"
  "map_option addrString (ParseAddrPort ''[FE80:0:0::1%eth0]:80'') = Some ''fe80::1%eth0''"
  "ParseAddrPort ''10.0.0.07:80'' = None" "ParseAddrPort ''10.0.0.7:65536'' = None" "ParseAddrPort ''::1:80'' = None"
  by code_simp+

end
