(* ===== verification/App_Http.thy ===== *)
theory App_Http
  imports App_Core Go_Netip
begin

text \<open>
  The HTTP side of \<^verbatim>\<open>internal/core/app.go\<close>: middleware, handlers, routes and the chain that \<open>Run\<close>
  builds. A handler maps a request, the response writer, the core's state and the world to the
  writer, state and world it leaves. One request is one such step.

  The writer keeps what the server sends: the headers at the first \<open>WriteHeader\<close>, its code, and
  the body. Bodies are kept as the values that are encoded, not as bytes. \<open>http_lib\<close> holds what
  the handlers take from \<^verbatim>\<open>fmt\<close>, \<^verbatim>\<open>net/url\<close>, the random source, the metrics handler
  and the timer of \<open>http.TimeoutHandler\<close>.
\<close>

section \<open>Requests and responses\<close>

record Request =
  rqMethod :: string
  rqPath :: string
  rqHeader :: "string \<Rightarrow> string"
  rqQuery :: "string \<Rightarrow> string"
  rqBody :: string
  rqRemoteAddr :: string
  rqRequestID :: string

text \<open>The values that \<open>writeJSON\<close> is called with.\<close>

datatype jval = JStr string | JBool bool | JInt int | JTime time | JArr "jval list"
  | JObj "(string \<times> jval) list" | JEvents "EventRecord list"

datatype body = Text string | Json jval

text \<open>\<open>rwHeader\<close> are the headers set so far, \<open>rwSent\<close> what has gone out: the code and the headers.
  \<open>rwRec\<close> is the status field of the \<open>statusRecorder\<close> around the writer; \<open>rwFlusher\<close> tells whether the
  writer implements \<open>http.Flusher\<close>; \<open>rwPanic\<close> is a panic on its way up.\<close>

record RW =
  rwHeader :: "string \<rightharpoonup> string"
  rwSent :: "(int \<times> (string \<rightharpoonup> string)) option"
  rwBody :: "body list"
  rwFlusher :: bool
  rwRec :: int
  rwPanic :: bool

definition newRW :: RW where
  "newRW = \<lparr>rwHeader = Map.empty, rwSent = None, rwBody = [], rwFlusher = True, rwRec = 200, rwPanic = False\<rparr>"

type_synonym ('w, 'l) handler = "Request \<Rightarrow> RW \<Rightarrow> 'l App \<Rightarrow> 'w \<Rightarrow> RW \<times> 'l App \<times> 'w"

definition setHeader :: "string \<Rightarrow> string \<Rightarrow> RW \<Rightarrow> RW" where
  "setHeader k v rw = rw\<lparr>rwHeader := (rwHeader rw)(k \<mapsto> v)\<rparr>"

text \<open>Only the first call counts for the client; the recorder keeps the last code.\<close>

definition WriteHeader :: "int \<Rightarrow> RW \<Rightarrow> RW" where
  "WriteHeader code rw =
     rw\<lparr>rwRec := code, rwSent := (case rwSent rw of None \<Rightarrow> Some (code, rwHeader rw) | Some s \<Rightarrow> Some s)\<rparr>"

text \<open>A \<open>Write\<close> without a \<open>WriteHeader\<close> sends the code 200, past the recorder.\<close>

definition writeBody :: "body \<Rightarrow> RW \<Rightarrow> RW" where
  "writeBody b rw =
     rw\<lparr>rwSent := (case rwSent rw of None \<Rightarrow> Some (200, rwHeader rw) | Some s \<Rightarrow> Some s), rwBody := rwBody rw @ [b]\<rparr>"

definition http_Error :: "string \<Rightarrow> int \<Rightarrow> RW \<Rightarrow> RW" where
  "http_Error msg code rw =
     writeBody (Text msg) (WriteHeader code
       (setHeader ''X-Content-Type-Options'' ''nosniff''
         (setHeader ''Content-Type'' ''text/plain; charset=utf-8'' rw)))"

definition writeJSON :: "int \<Rightarrow> jval \<Rightarrow> RW \<Rightarrow> RW" where
  "writeJSON status v rw =
     writeBody (Json v) (WriteHeader status (setHeader ''Content-Type'' ''application/json'' rw))"

record publishRequest =
  prStream :: string
  prSubject :: string
  prType :: string
  prSchemaVersion :: int
  prIdempotencyKey :: string
  prPayload :: string

text \<open>\<open>Decode\<close> into a \<open>publishRequest\<close>: the members in their order, each into the field of its name; a \<open>null\<close> leaves a field of a basic
  type as it is, a value of another type is an error, and a member without a field is skipped.\<close>

definition zeroRequest :: publishRequest where
  "zeroRequest = \<lparr>prStream = [], prSubject = [], prType = [], prSchemaVersion = 0, prIdempotencyKey = [], prPayload = []\<rparr>"

definition decodeString :: "json \<Rightarrow> string \<Rightarrow> string option" where
  "decodeString v old = (case v of VNull \<Rightarrow> Some old | VStr s \<Rightarrow> Some s | _ \<Rightarrow> None)"

definition decodeInt :: "json \<Rightarrow> int \<Rightarrow> int option" where
  "decodeInt v old = (case v of VNull \<Rightarrow> Some old | VNum lit \<Rightarrow> ParseInt lit | _ \<Rightarrow> None)"

definition decodeMember :: "string \<times> string \<times> json \<Rightarrow> publishRequest \<Rightarrow> publishRequest option" where
  "decodeMember m q =
     (case m of (key, raw, v) \<Rightarrow>
      let f = foldName key in
      if f = ''STREAM'' then map_option (\<lambda>x. q\<lparr>prStream := x\<rparr>) (decodeString v (prStream q))
      else if f = ''SUBJECT'' then map_option (\<lambda>x. q\<lparr>prSubject := x\<rparr>) (decodeString v (prSubject q))
      else if f = ''TYPE'' then map_option (\<lambda>x. q\<lparr>prType := x\<rparr>) (decodeString v (prType q))
      else if f = ''SCHEMA_VERSION'' then map_option (\<lambda>x. q\<lparr>prSchemaVersion := x\<rparr>) (decodeInt v (prSchemaVersion q))
      else if f = ''IDEMPOTENCY_KEY'' then map_option (\<lambda>x. q\<lparr>prIdempotencyKey := x\<rparr>) (decodeString v (prIdempotencyKey q))
      else if f = ''PAYLOAD'' then Some (q\<lparr>prPayload := raw\<rparr>)
      else Some q)"

fun decodeMembers :: "(string \<times> string \<times> json) list \<Rightarrow> publishRequest \<Rightarrow> publishRequest option" where
  "decodeMembers [] q = Some q"
| "decodeMembers (m # ms) q = (case decodeMember m q of None \<Rightarrow> None | Some q1 \<Rightarrow> decodeMembers ms q1)"

text \<open>The body through \<open>http.MaxBytesReader\<close>: the decoder stops at the bracket that closes an object, so that what follows it is
  not read; after \<open>null\<close> it has to see one more byte or the end of the body.\<close>

definition jsonDecode :: "nat \<Rightarrow> string \<Rightarrow> goerr + publishRequest" where
  "jsonDecode limit body =
     (case readValue (take limit body) of
        Some (VNull, rest) \<Rightarrow>
          (if rest = [] \<and> limit < length body then Inl (ErrMsg ''http: request body too large'') else Inr zeroRequest)
      | Some (VObj ms, rest) \<Rightarrow>
          (case decodeMembers ms zeroRequest of None \<Rightarrow> Inl (ErrMsg ''json: cannot unmarshal'') | Some q \<Rightarrow> Inr q)
      | Some _ \<Rightarrow> Inl (ErrMsg ''json: cannot unmarshal'')
      | None \<Rightarrow> Inl (ErrMsg ''invalid JSON''))"

record ('w, 'l) http_lib =
  quoted :: "string \<Rightarrow> string"
  urlString :: "string \<Rightarrow> Request \<Rightarrow> string"
  randHex :: "'w \<Rightarrow> string option \<times> 'w"
  timedOut :: "Request \<Rightarrow> 'w \<Rightarrow> bool"
  messages :: "Request \<Rightarrow> 'w \<Rightarrow> BusMessage list"
  metricsHandler :: "('w, 'l) handler"

section \<open>Helpers\<close>

definition bearerToken :: "string \<Rightarrow> string" where
  "bearerToken h =
     (if h = [] then []
      else if take 7 (ToLower h) \<noteq> ''bearer '' then []
      else TrimSpace (drop 7 h))"

fun contains :: "string list \<Rightarrow> string \<Rightarrow> bool" where
  "contains [] v = False"
| "contains (x # xs) v = (if TrimSpace x = v then True else contains xs v)"

fun originLoop :: "string \<Rightarrow> string list \<Rightarrow> bool" where
  "originLoop origin [] = False"
| "originLoop origin (o0 # os) =
     (let x = TrimSpace o0 in
      if x = [] then originLoop origin os
      else if x = ''*'' \<or> x = origin then True
      else originLoop origin os)"

definition isAllowedOrigin :: "string \<Rightarrow> string list \<Rightarrow> bool" where
  "isAllowedOrigin origin allowed = (if allowed = [] then False else originLoop origin allowed)"

definition clientIP :: "string \<Rightarrow> string" where
  "clientIP remoteAddr =
     (case ParseAddrPort remoteAddr of
        Some addr \<Rightarrow> addrString addr
      | None \<Rightarrow> (case Split CHR '':'' remoteAddr of p # _ \<Rightarrow> p | [] \<Rightarrow> remoteAddr))"

definition newRequestID :: "('w, 'l) deps \<Rightarrow> ('w, 'l) http_lib \<Rightarrow> 'w \<Rightarrow> string \<times> 'w" where
  "newRequestID d H w =
     (case randHex H w of
        (Some s, w1) \<Rightarrow> (s, w1)
      | (None, w1) \<Rightarrow> (let (t, w2) = nowOp d w1 in (Itoa t, w2)))"

section \<open>Middleware\<close>

text \<open>The counter of failed authentications, when there is one.\<close>

definition authFailed :: "('w, 'l) deps \<Rightarrow> string \<Rightarrow> 'l App \<Rightarrow> 'w \<Rightarrow> 'l App \<times> 'w" where
  "authFailed d ip a w =
     (case authGuard a of
        None \<Rightarrow> (a, w)
      | Some g \<Rightarrow> (let (t, w1) = nowOp d w in (a\<lparr>authGuard := Some (agFailure g ip t)\<rparr>, w1)))"

definition authOk :: "string \<Rightarrow> 'l App \<Rightarrow> 'l App" where
  "authOk ip a = (case authGuard a of None \<Rightarrow> a | Some g \<Rightarrow> a\<lparr>authGuard := Some (agSuccess g ip)\<rparr>)"

definition authBlocked :: "('w, 'l) deps \<Rightarrow> string \<Rightarrow> 'l App \<Rightarrow> 'w \<Rightarrow> bool \<times> 'l App \<times> 'w" where
  "authBlocked d ip a w =
     (case authGuard a of
        None \<Rightarrow> (False, a, w)
      | Some g \<Rightarrow>
          (let (t, w1) = nowOp d w; (blocked, g1) = agIsBlocked g ip t
           in (blocked, a\<lparr>authGuard := Some g1\<rparr>, w1)))"

datatype scope = ScopeAdmin | ScopeRead | ScopeRW

fun scopeAllows :: "Config \<Rightarrow> scope \<Rightarrow> string \<Rightarrow> bool" where
  "scopeAllows c ScopeAdmin token = contains (APIAdminTokens c) token"
| "scopeAllows c ScopeRead token = (contains (APIReadTokens c) token \<or> contains (APIAdminTokens c) token)"
| "scopeAllows c ScopeRW token =
     (contains (APIPublishTokens c) token \<or> contains (APIReadTokens c) token \<or> contains (APIAdminTokens c) token)"

text \<open>Whether the token is on the list of expirations and past its second.\<close>

definition tokenExpired :: "('w, 'l) deps \<Rightarrow> Config \<Rightarrow> string \<Rightarrow> 'w \<Rightarrow> bool \<times> 'w" where
  "tokenExpired d c token w =
     (case APITokenExpirations c token of
        None \<Rightarrow> (False, w)
      | Some exp \<Rightarrow> (let (t, w1) = nowOp d w in (t div second > exp, w1)))"

definition denyAuth :: "('w, 'l) deps \<Rightarrow> string \<Rightarrow> string \<Rightarrow> int \<Rightarrow> RW \<Rightarrow> 'l App \<Rightarrow> 'w \<Rightarrow> RW \<times> 'l App \<times> 'w" where
  "denyAuth d ip msg code rw a w = (let (a1, w1) = authFailed d ip a w in (http_Error msg code rw, a1, w1))"

definition secure :: "('w, 'l) deps \<Rightarrow> scope \<Rightarrow> ('w, 'l) handler \<Rightarrow> ('w, 'l) handler" where
  "secure d scope nxt r rw a w =
     (let c = cfg a in
      if DisableAPITokenAuth c then nxt r rw a w
      else
        (let ip = clientIP (rqRemoteAddr r);
             (blocked, a1, w1) = authBlocked d ip a w
         in if blocked then (http_Error ''temporarily blocked due to auth failures'' 429 rw, a1, w1)
            else
              (let token = bearerToken (rqHeader r ''Authorization'') in
               if token = [] \<and> APIBearerToken c = [] \<and> APIAdminTokens c = [] \<and> APIPublishTokens c = [] \<and> APIReadTokens c = []
               then nxt r rw a1 w1
               else if token = [] then denyAuth d ip ''missing bearer token'' 401 rw a1 w1
               else
                 (let (expired, w2) = tokenExpired d c token w1 in
                  if expired then denyAuth d ip ''token expired'' 401 rw a1 w2
                  else if APIBearerToken c \<noteq> [] \<and> token = APIBearerToken c then nxt r rw (authOk ip a1) w2
                  else if \<not> scopeAllows c scope token then denyAuth d ip ''forbidden'' 403 rw a1 w2
                  else nxt r rw (authOk ip a1) w2))))"

text \<open>The wrapped writer records the status and does not implement \<open>http.Flusher\<close>.\<close>

definition instrument :: "('w, 'l) handler \<Rightarrow> ('w, 'l) handler" where
  "instrument nxt r rw a w =
     (let (rw1, a1, w1) = nxt r (rw\<lparr>rwRec := 200, rwFlusher := False\<rparr>) a w;
          rw2 = rw1\<lparr>rwFlusher := rwFlusher rw\<rparr>
      in if rwPanic rw1 then (rw2, a1, w1)
         else (rw2, a1\<lparr>reqs := reqs a1 @ [(rqPath r, rqMethod r, Itoa (rwRec rw1))]\<rparr>, w1))"

definition withRateLimit :: "('w, 'l) deps \<Rightarrow> ('w, 'l) handler \<Rightarrow> ('w, 'l) handler" where
  "withRateLimit d nxt r rw a w =
     (let ip = clientIP (rqRemoteAddr r);
          (t1, w1) = nowOp d w; (t2, w2) = nowOp d w1;
          (ok, l) = iplAllow (rateLib d) (rangeOrd d) t1 t2 ip (limiter a);
          a1 = a\<lparr>limiter := l\<rparr>
      in if \<not> ok then (http_Error ''rate limit exceeded'' 429 rw, a1, w2) else nxt r rw a1 w2)"

text \<open>\<open>http.TimeoutHandler\<close>: the handler writes into a writer of its own, without \<open>Flush\<close>, whose
  headers, code and body are copied when it returns in time; otherwise they are dropped and the client gets 503. What
  the handler does to the state it does in either case.\<close>

definition timeoutHandler :: "('w, 'l) http_lib \<Rightarrow> ('w, 'l) handler \<Rightarrow> ('w, 'l) handler" where
  "timeoutHandler H nxt r rw a w =
     (let (tw, a1, w1) = nxt r (newRW\<lparr>rwFlusher := False\<rparr>) a w in
      if timedOut H r w then (writeBody (Text ''request timeout'') (WriteHeader 503 rw), a1, w1)
      else if rwPanic tw then (rw\<lparr>rwPanic := True\<rparr>, a1, w1)
      else
        (let rw1 = rw\<lparr>rwHeader := rwHeader rw ++ rwHeader tw\<rparr>;
             rw2 = WriteHeader (case rwSent tw of Some (code, _) \<Rightarrow> code | None \<Rightarrow> 200) rw1
         in (rw2\<lparr>rwBody := rwBody rw2 @ rwBody tw\<rparr>, a1, w1)))"

definition withRequestTimeout :: "('w, 'l) http_lib \<Rightarrow> ('w, 'l) handler \<Rightarrow> ('w, 'l) handler" where
  "withRequestTimeout H nxt r rw a w =
     (if rqPath r = ''/stream'' then nxt r rw a w else timeoutHandler H nxt r rw a w)"

definition withRequestID :: "('w, 'l) deps \<Rightarrow> ('w, 'l) http_lib \<Rightarrow> ('w, 'l) handler \<Rightarrow> ('w, 'l) handler" where
  "withRequestID d H nxt r rw a w =
     (let rid0 = TrimSpace (rqHeader r ''X-Request-Id'');
          (rid, w1) = (if rid0 = [] then newRequestID d H w else (rid0, w))
      in nxt (r\<lparr>rqRequestID := rid\<rparr>) (setHeader ''X-Request-Id'' rid rw) a w1)"

definition securityHeaders :: "Config \<Rightarrow> RW \<Rightarrow> RW" where
  "securityHeaders c rw =
     (let rw1 = setHeader ''Cache-Control'' ''no-store'' (setHeader ''Referrer-Policy'' ''no-referrer''
            (setHeader ''X-Frame-Options'' ''DENY'' (setHeader ''X-Content-Type-Options'' ''nosniff'' rw)));
          rw2 = (if HSTSEnabled c
                 then setHeader ''Strict-Transport-Security'' ''max-age=31536000; includeSubDomains'' rw1 else rw1)
      in if TrimSpace (CSPHeader c) \<noteq> [] then setHeader ''Content-Security-Policy'' (CSPHeader c) rw2 else rw2)"

definition withSecurityHeaders :: "('w, 'l) handler \<Rightarrow> ('w, 'l) handler" where
  "withSecurityHeaders nxt r rw a w =
     nxt r (if SecurityHeadersEnabled (cfg a) then securityHeaders (cfg a) rw else rw) a w"

definition corsHeaders :: "Config \<Rightarrow> string \<Rightarrow> RW \<Rightarrow> RW" where
  "corsHeaders c origin rw =
     setHeader ''Access-Control-Allow-Headers'' (Join (CORSAllowedHeaders c) '', '')
       (setHeader ''Access-Control-Allow-Methods'' (Join (CORSAllowedMethods c) '', '')
         (setHeader ''Access-Control-Allow-Credentials'' ''true''
           (setHeader ''Vary'' ''Origin'' (setHeader ''Access-Control-Allow-Origin'' origin rw))))"

definition withCORS :: "('w, 'l) handler \<Rightarrow> ('w, 'l) handler" where
  "withCORS nxt r rw a w =
     (if \<not> CORSEnabled (cfg a) then nxt r rw a w
      else
        (let origin = TrimSpace (rqHeader r ''Origin'');
             rw1 = (if origin \<noteq> [] \<and> isAllowedOrigin origin (CORSAllowedOrigins (cfg a))
                    then corsHeaders (cfg a) origin rw else rw)
         in if rqMethod r = ''OPTIONS'' then (WriteHeader 204 rw1, a, w) else nxt r rw1 a w))"

definition withConcurrencyLimit :: "('w, 'l) handler \<Rightarrow> ('w, 'l) handler" where
  "withConcurrencyLimit nxt r rw a w =
     (let (ok, g) = acquireGuard (appGuard a) in
      if ok then
        (let (rw1, a1, w1) = nxt r rw (a\<lparr>appGuard := g\<rparr>) w
         in (rw1, a1\<lparr>appGuard := releaseGuard (appGuard a1)\<rparr>, w1))
      else (http_Error ''server busy'' 503 rw, a, w))"

definition withRecovery :: "('w, 'l) handler \<Rightarrow> ('w, 'l) handler" where
  "withRecovery nxt r rw a w =
     (let (rw1, a1, w1) = nxt r rw a w in
      if rwPanic rw1 then (http_Error ''internal server error'' 500 (rw1\<lparr>rwPanic := False\<rparr>), a1, w1)
      else (rw1, a1, w1))"

section \<open>Probes\<close>

definition errField :: "string \<Rightarrow> (string \<times> jval) list" where
  "errField e = (if e = [] then [] else [(''error'', JStr e)])"

definition moduleStatus :: "string \<Rightarrow> bool \<Rightarrow> string \<Rightarrow> duration \<Rightarrow> jval" where
  "moduleStatus name ready err elapsed =
     JObj ([(''name'', JStr name), (''ready'', JBool ready)] @ errField err @
       [(''latency_ms'', JInt (quot elapsed millisecond))])"

text \<open>One module in the loop of \<open>handleHealth\<close>: its breaker, its \<open>Ready\<close>, its status.\<close>

definition probeModule ::
  "('w, 'l) deps \<Rightarrow> 'w Module \<Rightarrow> 'l App \<Rightarrow> 'w \<Rightarrow> (bool \<times> jval) \<times> 'l App \<times> 'w" where
  "probeModule d m a w =
     (let name = moduleName m; (start, w1) = nowOp d w; mb = moduleBreakers a name;
          (r, br, w2) = gated cbAllow cbSuccess cbFailure (nowOp d) (ErrMsg ''circuit open'') (moduleReady m) mb w1;
          (t, w3) = nowOp d w2;
          a1 = (case br of None \<Rightarrow> a | Some b \<Rightarrow> a\<lparr>moduleBreakers := (moduleBreakers a)(name \<mapsto> b)\<rparr>)
      in case r of
           Inl e \<Rightarrow> ((False, moduleStatus name False (err_string e) (t - start)), a1, w3)
         | Inr _ \<Rightarrow> ((True, moduleStatus name True [] (t - start)), a1, w3))"

fun healthLoop ::
  "('w, 'l) deps \<Rightarrow> 'w Module list \<Rightarrow> bool \<Rightarrow> jval list \<Rightarrow> 'l App \<Rightarrow> 'w \<Rightarrow> (bool \<times> jval list) \<times> 'l App \<times> 'w" where
  "healthLoop d [] ready statuses a w = ((ready, statuses), a, w)"
| "healthLoop d (m # ms) ready statuses a w =
     (let ((ok, st), a1, w1) = probeModule d m a w
      in healthLoop d ms (ready \<and> ok) (statuses @ [st]) a1 w1)"

definition handleHealth :: "('w, 'l) deps \<Rightarrow> ('w, 'l) handler" where
  "handleHealth d r rw a w =
     (let ((ready, statuses), a1, w1) = healthLoop d (mods d) True [] a w; (t, w2) = nowOp d w1
      in (writeJSON (if ready then 200 else 503)
            (JObj [(''status'', JStr (if ready then ''ok'' else ''degraded'')), (''node_id'', JStr (NodeID (cfg a))),
                   (''time'', JTime t), (''modules'', JArr statuses)]) rw, a1, w2))"

definition nodeStatus :: "('w, 'l) deps \<Rightarrow> string \<Rightarrow> int \<Rightarrow> ('w, 'l) handler" where
  "nodeStatus d s code r rw a w =
     (let (t, w1) = nowOp d w
      in (writeJSON code (JObj [(''status'', JStr s), (''node_id'', JStr (NodeID (cfg a))), (''time'', JTime t)]) rw, a, w1))"

definition handleLive :: "('w, 'l) deps \<Rightarrow> ('w, 'l) handler" where
  "handleLive d = nodeStatus d ''alive'' 200"

definition handleStartup :: "('w, 'l) deps \<Rightarrow> ('w, 'l) handler" where
  "handleStartup d r rw a w =
     (if \<not> started a then nodeStatus d ''starting'' 503 r rw a w else nodeStatus d ''started'' 200 r rw a w)"

definition handleLeader :: "('w, 'l) deps \<Rightarrow> ('w, 'l) handler" where
  "handleLeader d r rw a w =
     (let (isLeader, leaderID) = (case coord d of None \<Rightarrow> (False, []) | Some c \<Rightarrow> (coordIsLeader c w, coordLeaderID c w))
      in (writeJSON 200 (JObj [(''node_id'', JStr (NodeID (cfg a))), (''is_leader'', JBool isLeader),
            (''leader_id'', JStr leaderID)]) rw, a, w))"

section \<open>Publishing\<close>

definition isKnownEventType :: "'l App \<Rightarrow> string \<Rightarrow> bool" where
  "isKnownEventType a eventType =
     (if eventType = [] then False else if eventTypes a = [] then True else eventType \<in> set (eventTypes a))"

fun missingField :: "string set \<Rightarrow> string list \<Rightarrow> string option" where
  "missingField obj [] = None"
| "missingField obj (f # fs) = (if f \<notin> obj then Some f else missingField obj fs)"

definition versionError :: "Config \<Rightarrow> publishRequest \<Rightarrow> goerr option" where
  "versionError c req =
     (case SchemaVersionRules c (prType req) of
        None \<Rightarrow> None
      | Some rule \<Rightarrow>
          (if prSchemaVersion req < vrMin rule \<or> prSchemaVersion req > vrMax rule
           then Some (ErrMsg (''schema_version '' @ Itoa (prSchemaVersion req) @ '' out of allowed range '' @
             Itoa (vrMin rule) @ ''-'' @ Itoa (vrMax rule) @ '' for type '' @ prType req))
           else None))"

definition validatePublishRequest :: "('w, 'l) http_lib \<Rightarrow> 'l App \<Rightarrow> publishRequest \<Rightarrow> goerr option" where
  "validatePublishRequest H a req =
     (let c = cfg a; ty = prType req in
      if RejectUnknownEventTypes c \<and> \<not> isKnownEventType a ty
      then Some (ErrMsg (''unknown event type '' @ quoted H ty))
      else
        (case jsonObject (prPayload req) of
           Inl _ \<Rightarrow> Some (ErrMsg ''payload must be valid JSON'')
         | Inr None \<Rightarrow> Some (ErrMsg ''payload must be a JSON object'')
         | Inr (Some obj) \<Rightarrow>
             (case versionError c req of
                Some e \<Rightarrow> Some e
              | None \<Rightarrow>
                  (case SchemaRequiredFields c ty of
                     None \<Rightarrow> None
                   | Some required \<Rightarrow>
                       map_option (\<lambda>f. ErrMsg (''missing required payload field '' @ quoted H f @ '' for type '' @ ty))
                         (missingField obj required)))))"

definition requestDefaults :: "Request \<Rightarrow> publishRequest \<Rightarrow> publishRequest" where
  "requestDefaults r req0 =
     (let req1 = (if prStream req0 = [] then req0\<lparr>prStream := ''default''\<rparr> else req0);
          req2 = (if prSubject req1 = [] then req1\<lparr>prSubject := ''events.'' @ prStream req1\<rparr> else req1);
          req3 = (if prType req2 = [] then req2\<lparr>prType := ''event''\<rparr> else req2);
          req4 = (if prSchemaVersion req3 \<le> 0 then req3\<lparr>prSchemaVersion := 1\<rparr> else req3);
          req5 = (if prIdempotencyKey req4 = [] then req4\<lparr>prIdempotencyKey := rqHeader r ''Idempotency-Key''\<rparr> else req4)
      in if prPayload req5 = [] then req5\<lparr>prPayload := ''{}''\<rparr> else req5)"

definition subjectAllowed :: "('w, 'l) deps \<Rightarrow> string \<Rightarrow> 'l App \<Rightarrow> 'w \<Rightarrow> bool \<times> 'l App \<times> 'w" where
  "subjectAllowed d subject a w =
     (case subjectLimiter a of
        None \<Rightarrow> (True, a, w)
      | Some l \<Rightarrow>
          (let (t, w1) = nowOp d w; (ok, l1) = subjAllow (rateLib d) t subject l
           in (ok, a\<lparr>subjectLimiter := Some l1\<rparr>, w1)))"

definition publishedResponse :: "AppendResult \<Rightarrow> RW \<Rightarrow> RW" where
  "publishedResponse result rw =
     writeJSON (if arDuplicate result then 200 else 201)
       (JObj [(''id'', JStr (evID (arEvent result))), (''stream'', JStr (evStream (arEvent result))),
          (''subject'', JStr (evSubject (arEvent result))), (''type'', JStr (evType (arEvent result))),
          (''occurredAt'', JTime (evOccurredAt (arEvent result))),
          (''idempotencyKey'', JStr (evIdempotencyKey (arEvent result))), (''duplicate'', JBool (arDuplicate result))]) rw"

text \<open>From the stored event to the response.\<close>

definition publishStored :: "('w, 'l) deps \<Rightarrow> AppendResult \<Rightarrow> RW \<Rightarrow> 'l App \<Rightarrow> 'w \<Rightarrow> RW \<times> 'l App \<times> 'w" where
  "publishStored d result rw a w =
     (let ev = arEvent result in
      if arPublished result then (publishedResponse result rw, a, w)
      else
        (case publishWithRetry d (evSubject ev) (evPayload ev) (evID ev) a w of
           (Inl e, a1, w1) \<Rightarrow>
             (let ((quarantined, retries), w2) = recordOutboxFailure d a1 (evID ev) e w1
              in (writeJSON 202 (JObj [(''id'', JStr (evID ev)), (''queued'', JBool True),
                    (''quarantined'', JBool quarantined), (''retryCount'', JInt retries), (''error'', JStr (err_string e))]) rw,
                  a1, w2))
         | (Inr brokerID, a1, w1) \<Rightarrow>
             (case storeMarkOutboxPublished d (evID ev) brokerID a1 w1 of
                (Inl e, a2, w2) \<Rightarrow> (http_Error (''outbox update error: '' @ err_string e) 500 rw, a2, w2)
              | (Inr _, a2, w2) \<Rightarrow> (publishedResponse result rw, a2, w2))))"

text \<open>From the decoded request to the stored event.\<close>

definition publishDecoded ::
  "('w, 'l) deps \<Rightarrow> ('w, 'l) http_lib \<Rightarrow> publishRequest \<Rightarrow> RW \<Rightarrow> 'l App \<Rightarrow> 'w \<Rightarrow> RW \<times> 'l App \<times> 'w" where
  "publishDecoded d H req rw a w =
     (case validatePublishRequest H a req of
        Some e \<Rightarrow> (http_Error (''validation error: '' @ err_string e) 400 rw, a, w)
      | None \<Rightarrow>
          (let (ok, a1, w1) = subjectAllowed d (prSubject req) a w in
           if \<not> ok then (http_Error ''subject rate limit exceeded'' 429 rw, a1, w1)
           else
             (let (t, w2) = nowOp d w1;
                  event = zeroEvent\<lparr>evIdempotencyKey := prIdempotencyKey req, evStream := prStream req,
                    evSubject := prSubject req, evType := prType req, evPayload := prPayload req, evOccurredAt := t\<rparr>
              in case storeAppendEventExactlyOnce d event a1 w2 of
                   (Inl e, a3, w3) \<Rightarrow> (http_Error (''store error: '' @ err_string e) 500 rw, a3, w3)
                 | (Inr result, a3, w3) \<Rightarrow> publishStored d result rw a3 w3)))"

definition publishInLane :: "('w, 'l) deps \<Rightarrow> ('w, 'l) http_lib \<Rightarrow> ('w, 'l) handler" where
  "publishInLane d H r rw a w =
     (if bus d = None \<or> store d = None then (http_Error ''event bus/store not configured'' 500 rw, a, w)
      else if RequireLeaderForWrites (cfg a) \<and> isFollower d w
      then (http_Error (''write rejected on follower; leader='' @
              (case coord d of None \<Rightarrow> [] | Some c \<Rightarrow> coordLeaderID c w)) 503 rw, a, w)
      else
        (case jsonDecode (nat (MaxRequestBodyBytes (cfg a))) (rqBody r) of
           Inl _ \<Rightarrow> (http_Error ''invalid json body'' 400 rw, a, w)
         | Inr req \<Rightarrow> publishDecoded d H (requestDefaults r req) rw a w))"

definition handlePublishEvent :: "('w, 'l) deps \<Rightarrow> ('w, 'l) http_lib \<Rightarrow> ('w, 'l) handler" where
  "handlePublishEvent d H r rw a w =
     (let (ok, g) = acquireGuard (pubGuard a) in
      if \<not> ok then (http_Error ''publish lane busy'' 503 rw, a\<lparr>pubGuard := g\<rparr>, w)
      else
        (let (rw1, a1, w1) = publishInLane d H r rw (a\<lparr>pubGuard := g\<rparr>) w
         in (rw1, a1\<lparr>pubGuard := releaseGuard (pubGuard a1)\<rparr>, w1)))"

section \<open>Queries and administration\<close>

definition queryLimit :: "Request \<Rightarrow> int" where
  "queryLimit r =
     (let raw = rqQuery r ''limit'' in
      if raw \<noteq> [] then (case Atoi raw of Some parsed \<Rightarrow> parsed | None \<Rightarrow> 50) else 50)"

definition handleListEvents :: "('w, 'l) deps \<Rightarrow> ('w, 'l) handler" where
  "handleListEvents d r rw a w =
     (let (ok, g) = acquireGuard (queryGuard a) in
      if \<not> ok then (http_Error ''query lane busy'' 503 rw, a\<lparr>queryGuard := g\<rparr>, w)
      else
        (let a0 = a\<lparr>queryGuard := g\<rparr>;
             stream = (if rqQuery r ''stream'' = [] then ''default'' else rqQuery r ''stream'');
             (rw1, a1, w1) =
               (if store d = None then (http_Error ''event store not configured'' 500 rw, a0, w)
                else
                  (case storeRecentEvents d stream (queryLimit r) a0 w of
                     (Inl e, a2, w2) \<Rightarrow> (http_Error (''query error: '' @ err_string e) 500 rw, a2, w2)
                   | (Inr events, a2, w2) \<Rightarrow>
                       (writeJSON 200 (JObj [(''stream'', JStr stream), (''count'', JInt (int (length events))),
                          (''events'', JEvents events)]) rw, a2, w2)))
         in (rw1, a1\<lparr>queryGuard := releaseGuard (queryGuard a1)\<rparr>, w1)))"

definition handleEvents :: "('w, 'l) deps \<Rightarrow> ('w, 'l) http_lib \<Rightarrow> ('w, 'l) handler" where
  "handleEvents d H r rw a w =
     (if rqMethod r = ''POST'' then handlePublishEvent d H r rw a w
      else if rqMethod r = ''GET'' then handleListEvents d r rw a w
      else (http_Error ''method not allowed'' 405 rw, a, w))"

definition handleDeadLetters :: "('w, 'l) deps \<Rightarrow> ('w, 'l) handler" where
  "handleDeadLetters d r rw a w =
     (if rqMethod r \<noteq> ''GET'' then (http_Error ''method not allowed'' 405 rw, a, w)
      else
        (case adv d of
           None \<Rightarrow> (http_Error ''advanced dead-letter store unavailable'' 501 rw, a, w)
         | Some s \<Rightarrow>
             (case storeListDLOp s (queryLimit r) w of
                (Inl e, w1) \<Rightarrow> (http_Error (''dead-letter query error: '' @ err_string e) 500 rw, a, w1)
              | (Inr events, w1) \<Rightarrow>
                  (writeJSON 200 (JObj [(''count'', JInt (int (length events))), (''deadLetter'', JEvents events)]) rw, a, w1))))"

definition handleReplayDeadLetter :: "('w, 'l) deps \<Rightarrow> ('w, 'l) handler" where
  "handleReplayDeadLetter d r rw a w =
     (if rqMethod r \<noteq> ''POST'' then (http_Error ''method not allowed'' 405 rw, a, w)
      else
        (case adv d of
           None \<Rightarrow> (http_Error ''advanced dead-letter store unavailable'' 501 rw, a, w)
         | Some s \<Rightarrow>
             (let eventID = TrimSpace (rqQuery r ''id'') in
              if eventID = [] then (http_Error ''missing dead-letter id'' 400 rw, a, w)
              else
                (case storeReplayOp s eventID w of
                   (Inl e, w1) \<Rightarrow> (http_Error (''replay error: '' @ err_string e) 500 rw, a, w1)
                 | (Inr _, w1) \<Rightarrow>
                     (writeJSON 200 (JObj [(''id'', JStr eventID), (''replayed'', JBool True)]) rw, a, w1)))))"

definition handleOutboxRelayAdmin :: "('w, 'l) handler" where
  "handleOutboxRelayAdmin r rw a w =
     (if rqMethod r = ''GET'' then (writeJSON 200 (JObj [(''paused'', JBool (outboxPaused a))]) rw, a, w)
      else if rqMethod r = ''POST'' then
        (let action = TrimSpace (ToLower (rqQuery r ''action''));
             reply = (\<lambda>p. (writeJSON 200 (JObj [(''paused'', JBool p), (''action'', JStr action)]) rw,
                            a\<lparr>outboxPaused := p\<rparr>, w))
         in if action = ''pause'' then reply True
            else if action = ''resume'' then reply False
            else (http_Error ''invalid action, expected pause|resume'' 400 rw, a, w))
      else (http_Error ''method not allowed'' 405 rw, a, w))"

section \<open>Stream\<close>

definition sseEvent :: "BusMessage \<Rightarrow> body" where
  "sseEvent msg = Json (JObj [(''subject'', JStr (bmSubject msg)), (''messageId'', JStr (bmMessageID msg)),
     (''data'', JStr (bmData msg)), (''ts'', JTime (bmReceivedAt msg))])"

text \<open>The loop over the messages that are taken from the channel until the context ends.\<close>

fun streamLoop ::
  "('w, 'l) deps \<Rightarrow> string \<Rightarrow> BusMessage list \<Rightarrow> RW \<Rightarrow> 'l App \<Rightarrow> 'w \<Rightarrow> RW \<times> 'l App \<times> 'w" where
  "streamLoop d consumer [] rw a w = (rw, a, w)"
| "streamLoop d consumer (msg # msgs) rw a w =
     (if store d \<noteq> None \<and> bmMessageID msg \<noteq> [] then
        (case storeClaimInboxMessage d consumer (bmMessageID msg) a w of
           (Inr True, a1, w1) \<Rightarrow> streamLoop d consumer msgs (writeBody (sseEvent msg) rw) a1 w1
         | (_, a1, w1) \<Rightarrow> streamLoop d consumer msgs rw a1 w1)
      else streamLoop d consumer msgs (writeBody (sseEvent msg) rw) a w)"

definition handleStream :: "('w, 'l) deps \<Rightarrow> ('w, 'l) http_lib \<Rightarrow> ('w, 'l) handler" where
  "handleStream d H r rw a w =
     (case bus d of
        None \<Rightarrow> (http_Error ''event bus not configured'' 500 rw, a, w)
      | Some b \<Rightarrow>
          (let subject = (if rqQuery r ''subject'' = [] then ''events.>'' else rqQuery r ''subject'');
               consumer = (if rqQuery r ''consumer'' = [] then ''sse:'' @ NodeID (cfg a) else rqQuery r ''consumer'')
           in if \<not> rwFlusher rw then (http_Error ''streaming unsupported'' 500 rw, a, w)
              else
                (let rw1 = setHeader ''Connection'' ''keep-alive'' (setHeader ''Cache-Control'' ''no-cache''
                       (setHeader ''Content-Type'' ''text/event-stream'' rw))
                 in case busSubscribeOp b subject w of
                      (Inl e, w1) \<Rightarrow> (http_Error (''subscribe error: '' @ err_string e) 500 rw1, a, w1)
                    | (Inr _, w1) \<Rightarrow> streamLoop d consumer (messages H r w1) rw1 a w1)))"

section \<open>Routes\<close>

text \<open>\<open>path.Clean\<close> of a rooted path, segment by segment, and the mux's \<open>cleanPath\<close>.\<close>

fun cleanSegs :: "string list \<Rightarrow> string list \<Rightarrow> string list" where
  "cleanSegs [] out = out"
| "cleanSegs (s # ss) out =
     (if s = [] \<or> s = ''.'' then cleanSegs ss out
      else if s = ''..'' then cleanSegs ss (butlast out)
      else cleanSegs ss (out @ [s]))"

definition cleanPath :: "string \<Rightarrow> string" where
  "cleanPath p =
     (let p1 = (if p \<noteq> [] \<and> hd p = CHR ''/'' then p else CHR ''/'' # p);
          np = CHR ''/'' # Join (cleanSegs (Split CHR ''/'' p1) []) ''/''
      in if p \<noteq> [] \<and> last p1 = CHR ''/'' \<and> np \<noteq> ''/'' then np @ ''/'' else np)"

definition redirectHandler :: "('w, 'l) http_lib \<Rightarrow> string \<Rightarrow> ('w, 'l) handler" where
  "redirectHandler H path r rw a w =
     (let rw1 = setHeader ''Location'' (urlString H path r) rw;
          rw2 = (if rqMethod r = ''GET'' \<or> rqMethod r = ''HEAD''
                 then setHeader ''Content-Type'' ''text/html; charset=utf-8'' rw1 else rw1);
          rw3 = WriteHeader 301 rw2
      in (if rqMethod r = ''GET'' then writeBody (Text ''Moved Permanently'') rw3 else rw3, a, w))"

text \<open>The paths are registered without wildcards: a path that is not clean is redirected, every other path
  is not found.\<close>

definition mux :: "('w, 'l) deps \<Rightarrow> ('w, 'l) http_lib \<Rightarrow> ('w, 'l) handler" where
  "mux d H r =
     (let p = rqPath r in
      if rqMethod r \<noteq> ''CONNECT'' \<and> cleanPath p \<noteq> p then redirectHandler H (cleanPath p) r
      else if p = ''/metrics'' then metricsHandler H r
      else if p = ''/healthz'' \<or> p = ''/readyz'' then handleHealth d r
      else if p = ''/livez'' then handleLive d r
      else if p = ''/startupz'' then handleStartup d r
      else if p = ''/leaderz'' then secure d ScopeAdmin (handleLeader d) r
      else if p = ''/events'' then secure d ScopeRW (handleEvents d H) r
      else if p = ''/deadletters'' then secure d ScopeAdmin (handleDeadLetters d) r
      else if p = ''/deadletters/replay'' then secure d ScopeAdmin (handleReplayDeadLetter d) r
      else if p = ''/admin/outbox-relay'' then secure d ScopeAdmin handleOutboxRelayAdmin r
      else if p = ''/stream'' then secure d ScopeRead (handleStream d H) r
      else (\<lambda>rw a w. (http_Error ''404 page not found'' 404 rw, a, w)))"

definition rootHandler :: "('w, 'l) deps \<Rightarrow> ('w, 'l) http_lib \<Rightarrow> ('w, 'l) handler" where
  "rootHandler d H =
     withRecovery (withCORS (withSecurityHeaders (withRequestID d H (withRequestTimeout H
       (withConcurrencyLimit (withRateLimit d (instrument (mux d H))))))))"

end
