(* ===== verification/Client_Addr.thy ===== *)
theory Client_Addr
  imports App_Http
begin

text \<open>
  Who a client is: the key under which \<open>withRateLimit\<close> and \<open>secure\<close> count the requests of a remote address.
\<close>

lemma ParseAddrPort_split:
  assumes "CHR '':'' \<notin> set p"
  shows "ParseAddrPort (h @ CHR '':'' # p) =
    (if h = [] \<or> \<not> parsePort p then None
     else let v6 = (hd h = CHR ''['') in
       if v6 \<and> (length h < 2 \<or> last h \<noteq> CHR '']'') then None
       else (case ParseAddr (if v6 then butlast (tl h) else h) of
          None \<Rightarrow> None
        | Some (Addr4 fs) \<Rightarrow> if v6 then None else Some (Addr4 fs)
        | Some (Addr6 gs z) \<Rightarrow> if v6 then Some (Addr6 gs z) else None))"
proof -
  have "takeWhile (\<lambda>c. c \<noteq> CHR '':'') (rev p @ CHR '':'' # rev h) = rev p"
    "dropWhile (\<lambda>c. c \<noteq> CHR '':'') (rev p @ CHR '':'' # rev h) = CHR '':'' # rev h"
    using assms by (simp_all add: takeWhile_append takeWhile_eq_all_conv dropWhile_append dropWhile_eq_Nil_conv)
  then show ?thesis by (auto simp: ParseAddrPort_def Let_def split: option.splits addr.splits)
qed

lemma hd_Split: "hd (Split c s) = takeWhile (\<lambda>x. x \<noteq> c) s"
  by (induction s) (auto split: list.splits)

lemma parsePort_digits: "parsePort p \<Longrightarrow> p \<noteq> [] \<and> list_all is_digit p"
  by (auto simp: parsePort_def parse_digits_def split: if_splits)

lemma parsePort_colon: "parsePort p \<Longrightarrow> CHR '':'' \<notin> set p"
  using parsePort_digits[of p] by (auto simp: list_all_iff is_digit_def)

lemma clientIP_port:
  assumes "parsePort p" and "parsePort p'"
  shows "clientIP (h @ CHR '':'' # p) = clientIP (h @ CHR '':'' # p')"
proof -
  have "takeWhile (\<lambda>x. x \<noteq> CHR '':'') (h @ CHR '':'' # p) = takeWhile (\<lambda>x. x \<noteq> CHR '':'') h" for p by (induction h) auto
  then have "(case Split CHR '':'' (h @ CHR '':'' # p) of x # _ \<Rightarrow> x | [] \<Rightarrow> h @ CHR '':'' # p) = takeWhile (\<lambda>x. x \<noteq> CHR '':'') h" for p
    using hd_Split[of "CHR '':''" "h @ CHR '':'' # p"] Split_not_Nil[of "CHR '':''" "h @ CHR '':'' # p"] by (auto split: list.splits)
  moreover have "ParseAddrPort (h @ CHR '':'' # p) = ParseAddrPort (h @ CHR '':'' # p')" using assms by (simp add: ParseAddrPort_split[OF parsePort_colon])
  ultimately show ?thesis unfolding clientIP_def by (cases "ParseAddrPort (h @ CHR '':'' # p')") simp_all
qed

lemma v4Field_Itoa:
  assumes "0 \<le> n" "n \<le> 255"
  shows "v4Field (Itoa n) = Some n"
proof -
  obtain x q where d: "nat_digits (nat n) = x # q" using nat_digits_parse[of "nat n"] by (cases "nat_digits (nat n)") auto
  have "q = [] \<or> x \<noteq> CHR ''0''" using nat_digits_zero[of "nat n" q] d by blast
  with nat_digits_parse[of "nat n"] assms d show ?thesis by (simp add: v4Field_def parse_digits_def Itoa_def)
qed

lemma ParseAddr_string4:
  assumes "length fs = 4" and "\<forall>n \<in> set fs. 0 \<le> n \<and> n \<le> 255"
  shows "ParseAddr (string4 fs) = Some (Addr4 fs)"
proof -
  have ch: "c \<noteq> CHR ''.'' \<and> c \<noteq> CHR '':'' \<and> c \<noteq> CHR ''%''" if "c \<in> set (Itoa n)" for c n
    using Itoa_chars[OF that] by (auto simp: is_digit_def)
  then have "Split CHR ''.'' (Join (map Itoa fs) ''.'') = map Itoa fs" using assms(1) by (intro Split_Join) auto
  with assms have v: "v4Fields (string4 fs) = Some fs"
    by (auto simp: v4Fields_def string4_def Let_def v4Field_Itoa cong: map_cong)
  obtain a b c d where "fs = [a, b, c, d]" using assms(1) by (auto simp: length_Suc_conv numeral_eq_Suc)
  then have "dropWhile (\<lambda>c. c \<notin> {CHR ''.'', CHR '':'', CHR ''%''}) (string4 fs) = CHR ''.'' # Itoa b @ ''.'' @ Itoa c @ ''.'' @ Itoa d"
    using ch[of _ a] by (auto simp: string4_def dropWhile_append)
  with v show ?thesis by (simp add: ParseAddr_def)
qed

text \<open>C21: Clients are addresses, not connections. Whatever comes before the port, the port does not matter, so that all connections from
  one address share one rate limit and one count of failed authentications; and the client behind an IPv4 address is
  the address itself, so that two addresses never share them.\<close>

theorem client_identity:
  assumes "parsePort p" and "parsePort p'" and "length fs = 4" and "\<forall>n \<in> set fs. 0 \<le> n \<and> n \<le> 255"
  shows "clientIP (h @ CHR '':'' # p) = clientIP (h @ CHR '':'' # p') \<and> clientIP (string4 fs @ CHR '':'' # p) = string4 fs"
proof -
  obtain a b c d where "fs = [a, b, c, d]" using assms(3) by (auto simp: length_Suc_conv numeral_eq_Suc)
  then obtain x q where x: "string4 fs = x # q" "x \<in> set (Itoa a)"
    using nat_digits_parse by (cases "Itoa a") (auto simp: string4_def Itoa_def split: if_splits)
  have "x \<noteq> CHR ''[''" using Itoa_chars[OF x(2)] by (auto simp: is_digit_def)
  with ParseAddr_string4[OF assms(3,4)] assms(1) have "ParseAddrPort (string4 fs @ CHR '':'' # p) = Some (Addr4 fs)"
    unfolding ParseAddrPort_split[OF parsePort_colon[OF assms(1)]] by (simp add: x(1))
  then have "clientIP (string4 fs @ CHR '':'' # p) = string4 fs" by (simp add: clientIP_def addrString_def)
  with clientIP_port[OF assms(1,2)] show ?thesis by simp
qed

theorem client_identity_witness:
  "clientIP (''10.0.0.7'' @ '':5000'') = ''10.0.0.7'' \<and> clientIP (''[::1]'' @ '':80'') = clientIP (''[::1]'' @ '':65535'')"
proof -
  have "parsePort ''5000''" "parsePort ''80''" "parsePort ''65535''" "string4 [10, 0, 0, 7] = ''10.0.0.7''" by code_simp+
  with client_identity[of "''80''" "''65535''" "[10, 0, 0, 7]" "''[::1]''"] client_identity[of "''5000''" "''5000''" "[10, 0, 0, 7]" "[]"]
  show ?thesis by simp
qed

end
