(* ===== verification/App_Publish.thy ===== *)
theory App_Publish
  imports App_Http
begin

text \<open>
  Publishing: what makes a publish request valid and what an invalid one causes, and how often and after which
  pauses \<open>publishWithRetry\<close> tries.
\<close>

section \<open>Validation\<close>

definition known_type :: "'l App \<Rightarrow> string \<Rightarrow> bool" where
  "known_type a ty \<longleftrightarrow> ty \<noteq> [] \<and> (eventTypes a = [] \<or> ty \<in> set (eventTypes a))"

text \<open>What a request has to meet, as a conjunction.\<close>

definition valid_request :: "'l App \<Rightarrow> publishRequest \<Rightarrow> bool" where
  "valid_request a req \<longleftrightarrow>
     (\<not> RejectUnknownEventTypes (cfg a) \<or> known_type a (prType req)) \<and>
     (\<exists>obj. jsonObject (prPayload req) = Inr (Some obj) \<and>
        (\<forall>rule. SchemaVersionRules (cfg a) (prType req) = Some rule \<longrightarrow>
           vrMin rule \<le> prSchemaVersion req \<and> prSchemaVersion req \<le> vrMax rule) \<and>
        (\<forall>fs. SchemaRequiredFields (cfg a) (prType req) = Some fs \<longrightarrow> set fs \<subseteq> obj))"

lemma missingField_None: "missingField obj fs = None \<longleftrightarrow> set fs \<subseteq> obj"
  by (induction fs) auto

lemma versionError_None:
  "versionError c req = None \<longleftrightarrow>
   (\<forall>rule. SchemaVersionRules c (prType req) = Some rule \<longrightarrow> vrMin rule \<le> prSchemaVersion req \<and> prSchemaVersion req \<le> vrMax rule)"
  by (auto simp: versionError_def split: option.splits)

lemma validate_None: "validatePublishRequest H a req = None \<longleftrightarrow> valid_request a req"
proof -
  have k: "isKnownEventType a (prType req) \<longleftrightarrow> known_type a (prType req)"
    by (auto simp: isKnownEventType_def known_type_def)
  show ?thesis
    by (cases "jsonObject (prPayload req)")
      (auto simp: validatePublishRequest_def valid_request_def k versionError_None[symmetric] missingField_None[symmetric] Let_def
        split: option.splits)
qed

lemma requestDefaults_fields:
  "prStream (requestDefaults r q) = (if prStream q = [] then ''default'' else prStream q)"
  "prType (requestDefaults r q) = (if prType q = [] then ''event'' else prType q)"
  "prSchemaVersion (requestDefaults r q) = (if prSchemaVersion q \<le> 0 then 1 else prSchemaVersion q)"
  "prPayload (requestDefaults r q) = (if prPayload q = [] then ''{}'' else prPayload q)"
  "prIdempotencyKey (requestDefaults r q) = (if prIdempotencyKey q = [] then rqHeader r ''Idempotency-Key'' else prIdempotencyKey q)"
  "prSubject (requestDefaults r q) = (if prSubject q = [] then ''events.'' @ (if prStream q = [] then ''default'' else prStream q) else prSubject q)"
  by (simp_all add: requestDefaults_def Let_def if_distrib[of prStream] if_distrib[of prType] if_distrib[of prSchemaVersion]
   if_distrib[of prPayload] if_distrib[of prSubject] if_distrib[of prIdempotencyKey] cong: if_cong)

text \<open>C32: Validation. The defaults leave no field of a request empty but the idempotency key; a request passes exactly when
  its type is known where unknown ones are rejected, its payload is a JSON object, its schema version lies in
  the range for its type, and the payload has every required field. A request that does not pass is
  answered 400 and changes neither the core nor the world, the store included.\<close>

theorem request_validation:
  "let q = requestDefaults r req in
   prStream q \<noteq> [] \<and> prSubject q \<noteq> [] \<and> prType q \<noteq> [] \<and> 0 < prSchemaVersion q \<and> prPayload q \<noteq> [] \<and>
   (validatePublishRequest H a q = None \<longleftrightarrow> valid_request a q) \<and>
   (valid_request a q \<or> (\<exists>msg. publishDecoded d H q rw a w = (http_Error msg 400 rw, a, w)))"
proof -
  let ?q = "requestDefaults r req"
  have "prStream ?q \<noteq> []" "prSubject ?q \<noteq> []" "prType ?q \<noteq> []" "0 < prSchemaVersion ?q" "prPayload ?q \<noteq> []"
    by (simp_all add: requestDefaults_fields)
  moreover have "\<exists>msg. publishDecoded d H ?q rw a w = (http_Error msg 400 rw, a, w)" if "\<not> valid_request a ?q"
    using that by (auto simp: publishDecoded_def validate_None[of H, symmetric])
  ultimately show ?thesis by (auto simp: Let_def validate_None)
qed

section \<open>Retries\<close>

definition next_wait :: "duration \<Rightarrow> duration \<Rightarrow> duration" where
  "next_wait mx wt = (let wt1 = i64 (wt * 2) in if wt1 > mx then mx else wt1)"

text \<open>The pauses, without the loop: doubled each time, up to the maximum; the first one is not capped.\<close>

definition publish_wait :: "duration \<Rightarrow> duration \<Rightarrow> nat \<Rightarrow> duration" where
  "publish_wait b mx i = (if i = 0 then b else min (b * 2 ^ i) mx)"

lemma publish_wait_bounds: "0 < b \<Longrightarrow> 0 < mx \<Longrightarrow> 0 < publish_wait b mx i \<and> publish_wait b mx i \<le> max b mx"
  by (auto simp: publish_wait_def)

lemma publish_wait_Suc:
  assumes "0 < b" "b < 2 ^ 62" "0 < mx" "mx < 2 ^ 62"
  shows "next_wait mx (publish_wait b mx i) = publish_wait b mx (Suc i)"
proof -
  have w: "0 < publish_wait b mx i" "publish_wait b mx i < 2 ^ 62"
    using publish_wait_bounds[OF assms(1,3), of i] assms(2,4) by auto
  then have "i64 (publish_wait b mx i * 2) = publish_wait b mx i * 2" by (intro i64_id) auto
  then show ?thesis using assms(1,3) by (auto simp: next_wait_def publish_wait_def Let_def min_def)
qed

text \<open>\<open>tries\<close> and \<open>pauses\<close> observe the calls of the bus and of the timer in the world.\<close>

definition observes_bus :: "('w, 'l) deps \<Rightarrow> ('w \<Rightarrow> nat) \<Rightarrow> ('w \<Rightarrow> duration list) \<Rightarrow> bool" where
  "observes_bus d tries pauses \<longleftrightarrow>
     (\<forall>b s p m w. bus d = Some b \<longrightarrow> tries (snd (busPublishOp b s p m w)) = Suc (tries w) \<and>
        pauses (snd (busPublishOp b s p m w)) = pauses w) \<and>
     (\<forall>t w. tries (snd (waitTimer d t w)) = tries w \<and> pauses (snd (waitTimer d t w)) = pauses w @ [t]) \<and>
     (\<forall>w. tries (snd (nowOp d w)) = tries w \<and> pauses (snd (nowOp d w)) = pauses w)"

text \<open>The world a guarded call leaves: one call, with a reading of the clock on either side, or none.\<close>

lemma gated_world:
  assumes "gated al su fa clk e call br w = (r, br', w')"
  shows "w' = snd (call w) \<or> w' = snd (clk w) \<or> w' = snd (clk (snd (call (snd (clk w)))))"
proof (cases br)
  case None
  with assms show ?thesis by (simp add: gated_def split_beta)
next
  case (Some b)
  obtain t0 w0 where n: "clk w = (t0, w0)" by fastforce
  obtain ok b0 where al: "al b t0 = (ok, b0)" by fastforce
  obtain q w1 where c: "call w0 = (q, w1)" by fastforce
  obtain t1 w2 where n1: "clk w1 = (t1, w2)" by fastforce
  show ?thesis using assms Some n al c n1 by (cases ok; cases q) (simp_all add: gated_def)
qed

lemma busPublish_observed:
  assumes "observes_bus d tries pauses" and "busPublish d s p m a w = (r, a', w')"
  shows "tries w' \<le> Suc (tries w) \<and> pauses w' = pauses w \<and> pubRetries a' = pubRetries a \<and> pubFailures a' = pubFailures a"
proof (cases "bus d")
  case None
  with assms(2) show ?thesis by (auto simp: busPublish_def)
next
  case (Some b)
  have now: "tries (snd (nowOp d w)) = tries w" "pauses (snd (nowOp d w)) = pauses w" for w
    using assms(1) by (simp_all add: observes_bus_def)
  have pb: "tries (snd (busPublishOp b s p m w)) = Suc (tries w)" "pauses (snd (busPublishOp b s p m w)) = pauses w" for w
    using assms(1) Some by (simp_all add: observes_bus_def)
  obtain br' where g: "gated cbAllow cbSuccess cbFailure (nowOp d) (ErrMsg ''nats circuit open'')
      (busPublishOp b s p m) (busBreaker a) w = (r, br', w')" and a': "a' = a\<lparr>busBreaker := br'\<rparr>"
    using assms(2) Some by (auto simp: busPublish_def split: prod.splits)
  from gated_world[OF g] have "tries w' \<le> Suc (tries w) \<and> pauses w' = pauses w"
    by (elim disjE) (simp_all add: now pb)
  with a' show ?thesis by simp
qed

text \<open>The loop with \<open>n\<close> retries left, after \<open>i\<close> of them.\<close>

lemma publishLoop_observed:
  assumes obs: "observes_bus d tries pauses" and b: "0 < b" "b < 2 ^ 62" "0 < mx" "mx < 2 ^ 62"
  shows "publishLoop n d s p m (publish_wait b mx i) mx a w = (r, a', w') \<Longrightarrow>
    \<exists>j \<le> n. pauses w' = pauses w @ map (publish_wait b mx) [i..<i + j] \<and> tries w' \<le> tries w + Suc j \<and>
      pubRetries a' = pubRetries a + int j \<and>
      (case r of Inr _ \<Rightarrow> pubFailures a' = pubFailures a
       | Inl e \<Rightarrow> (if j = n \<and> pubFailures a' = pubFailures a + 1 then True else pubFailures a' = pubFailures a))"
proof (induction n arbitrary: i a w)
  case 0
  obtain q a1 w1 where q: "busPublish d s p m a w = (q, a1, w1)" by (metis surj_pair)
  from busPublish_observed[OF obs q] 0 q show ?case by (cases q) auto
next
  case (Suc n)
  obtain q a1 w1 where q: "busPublish d s p m a w = (q, a1, w1)" by (metis surj_pair)
  note o1 = busPublish_observed[OF obs q]
  show ?case
  proof (cases q)
    case (Inr x)
    with Suc.prems q o1 show ?thesis by (intro exI[of _ 0]) auto
  next
    case (Inl e)
    obtain c w2 where t: "waitTimer d (publish_wait b mx i) w1 = (c, w2)" by fastforce
    have o2: "tries w2 = tries w1" "pauses w2 = pauses w1 @ [publish_wait b mx i]"
      using obs t unfolding observes_bus_def by (metis snd_conv)+
    show ?thesis
    proof (cases c)
      case (Some ce)
      with Suc.prems q Inl t o1 o2 show ?thesis by (intro exI[of _ 1]) (auto simp: Let_def)
    next
      case None
      let ?a2 = "a1\<lparr>pubRetries := pubRetries a1 + 1\<rparr>"
      have "publishLoop n d s p m (publish_wait b mx (Suc i)) mx ?a2 w2 = (r, a', w')"
        using Suc.prems q Inl t None publish_wait_Suc[OF b, of i] by (simp add: Let_def next_wait_def)
      from Suc.IH[OF this] obtain j where j: "j \<le> n" "pauses w' = pauses w2 @ map (publish_wait b mx) [Suc i..<Suc i + j]"
        "tries w' \<le> tries w2 + Suc j" "pubRetries a' = pubRetries ?a2 + int j"
        "case r of Inr _ \<Rightarrow> pubFailures a' = pubFailures ?a2
         | Inl e \<Rightarrow> (if j = n \<and> pubFailures a' = pubFailures ?a2 + 1 then True else pubFailures a' = pubFailures ?a2)" by blast
      have "map (publish_wait b mx) [i..<i + Suc j] = publish_wait b mx i # map (publish_wait b mx) [Suc i..<Suc i + j]"
        by (simp add: upt_conv_Cons del: upt_Suc)
      with j o1 o2 show ?thesis by (intro exI[of _ "Suc j"]) (auto split: sum.splits if_splits)
    qed
  qed
qed

text \<open>C30: Bounded retries. \<open>publishWithRetry\<close> calls the bus at most \<open>PublishRetryMax\<close> times (once, when that is not
  positive) and always returns; between the calls it pauses for the configured backoff, doubled each time and capped
  from the second pause on; the retry counter grows by the number of pauses, and the failure counter by one at most, which
  happens only when the attempts are used up.\<close>

theorem publish_retry_bounded:
  assumes "observes_bus d tries pauses" and "publish_backoff (cfg a) < 2 ^ 62" and "publish_maxBackoff (cfg a) < 2 ^ 62"
    and "publishWithRetry d s p m a w = (r, a', w')"
  shows "\<exists>j. int j < max 1 (PublishRetryMax (cfg a)) \<and> tries w' \<le> tries w + Suc j \<and>
     pauses w' = pauses w @ map (publish_wait (publish_backoff (cfg a)) (publish_maxBackoff (cfg a))) [0..<j] \<and>
     pubRetries a' = pubRetries a + int j \<and>
     pubFailures a' \<in> {pubFailures a, pubFailures a + 1} \<and>
     (pubFailures a' \<noteq> pubFailures a \<longrightarrow> int (Suc j) = max 1 (PublishRetryMax (cfg a)) \<and> (\<exists>e. r = Inl e))"
proof -
  have pos: "0 < publish_backoff (cfg a)" "0 < publish_maxBackoff (cfg a)"
    by (auto simp: publish_backoff_def publish_maxBackoff_def Let_def)
  have n: "int (nat (publish_attempts (cfg a) - 1)) = max 1 (PublishRetryMax (cfg a)) - 1"
    by (auto simp: publish_attempts_def)
  have w0: "publish_wait (publish_backoff (cfg a)) (publish_maxBackoff (cfg a)) 0 = publish_backoff (cfg a)"
    by (simp add: publish_wait_def)
  from publishLoop_observed[OF assms(1) pos(1) assms(2) pos(2) assms(3), of "nat (publish_attempts (cfg a) - 1)" s p m 0 a w r a' w']
    assms(4) obtain j where "j \<le> nat (publish_attempts (cfg a) - 1)"
      "pauses w' = pauses w @ map (publish_wait (publish_backoff (cfg a)) (publish_maxBackoff (cfg a))) [0..<0 + j]"
      "tries w' \<le> tries w + Suc j" "pubRetries a' = pubRetries a + int j"
      "case r of Inr _ \<Rightarrow> pubFailures a' = pubFailures a
       | Inl e \<Rightarrow> (if j = nat (publish_attempts (cfg a) - 1) \<and> pubFailures a' = pubFailures a + 1 then True
                   else pubFailures a' = pubFailures a)"
    unfolding publishWithRetry_def w0 by blast
  with n show ?thesis by (intro exI[of _ j]) (auto split: sum.splits if_splits)
qed

text \<open>A world that counts: the clock, the calls of the bus, the pauses.\<close>

definition countingDeps :: "(int \<times> nat \<times> duration list, int) deps" where
  "countingDeps = \<lparr>bus = Some \<lparr>busPublishOp = (\<lambda>_ _ _ (t, n, ps). (Inl (ErrMsg ''nats: timeout''), (t, Suc n, ps))),
       busSubscribeOp = (\<lambda>_ w. (Inr (), w))\<rparr>,
     coord = None, store = None, adv = None, mods = [], nowOp = (\<lambda>(t, n, ps). (t, (t + 1, n, ps))),
     waitTimer = (\<lambda>d (t, n, ps). (None, (t + d, n, ps @ [d]))), rateLib = counter_lib, rangeOrd = (\<lambda>xs. xs)\<rparr>"

theorem publish_retry_bounded_witness:
  "let c = (FromEnv (\<lambda>_. []) (Inr ''n''))\<lparr>PublishRetryMax := 3\<rparr>;
       (r, a, w) = publishWithRetry countingDeps ''events.a'' ''{}'' ''id'' (New c [] 0) (0, 0, [])
   in r = Inl (ErrMsg ''nats: timeout'') \<and> w = (450000006, 3, [150000000, 300000000]) \<and> pubFailures a = 1 \<and>
      (\<exists>j. int j < 3 \<and> fst (snd w) \<le> Suc j)"
proof -
  let ?c = "(FromEnv (\<lambda>_. []) (Inr ''n''))\<lparr>PublishRetryMax := 3\<rparr>"
  obtain r a w where p: "publishWithRetry countingDeps ''events.a'' ''{}'' ''id'' (New ?c [] 0) (0, 0, []) = (r, a, w)" by (metis surj_pair)
  have e: "fst (publishWithRetry countingDeps ''events.a'' ''{}'' ''id'' (New ?c [] 0) (0, 0, [])) = Inl (ErrMsg ''nats: timeout'')"
    "snd (snd (publishWithRetry countingDeps ''events.a'' ''{}'' ''id'' (New ?c [] 0) (0, 0, []))) = (450000006, 3, [150000000, 300000000])"
    "pubFailures (fst (snd (publishWithRetry countingDeps ''events.a'' ''{}'' ''id'' (New ?c [] 0) (0, 0, [])))) = 1"
    by code_simp+
  have o: "observes_bus countingDeps (\<lambda>w. fst (snd w)) (\<lambda>w. snd (snd w))"
    by (auto simp: observes_bus_def countingDeps_def)
  have "publish_backoff ?c < 2 ^ 62" "publish_maxBackoff ?c < 2 ^ 62" "cfg (New ?c [] 0 :: int App) = ?c" "PublishRetryMax ?c = 3"
    by (code_simp, code_simp, simp add: New_def, simp)
  with publish_retry_bounded[OF o _ _ p] obtain j where "int j < 3" "fst (snd w) \<le> Suc j" by auto
  with e p show ?thesis by auto
qed

end
