(* ===== verification/Json_Request.thy ===== *)
theory Json_Request
  imports App_Publish
begin

text \<open>
  The way of a publish request through JSON: what the decoder consumes, that it does not look past the
  value it reads, and that a request comes out of its encoding as it went in.
\<close>

section \<open>Consumption\<close>

lemma strBody_shorter: "strBody s = Some (b, r) \<Longrightarrow> length r < length s"
  by (induction s arbitrary: b r rule: strBody.induct) (force split: if_splits list.splits)+

lemma numExp_shorter: "numExp s = Some (e, r) \<Longrightarrow> length r \<le> length s"
  by (auto simp: numExp_def Let_def split: list.splits if_splits prod.splits intro: le_SucI length_dropWhile_le order_trans[OF length_dropWhile_le])

lemma numFrac_shorter: "numFrac s = Some (e, r) \<Longrightarrow> length r \<le> length s"
  by (auto simp: numFrac_def Let_def split: list.splits if_splits intro: le_SucI length_dropWhile_le)

lemma numInt_shorter: "numInt s = Some (e, r) \<Longrightarrow> length r < length s"
  by (auto simp: numInt_def split: list.splits if_splits intro: le_imp_less_Suc length_dropWhile_le)

lemma number_shorter: "number s = Some (x, r) \<Longrightarrow> length r < length s"
  by (auto simp: number_def Let_def split: list.splits if_splits option.splits prod.splits
      dest!: numInt_shorter numFrac_shorter numExp_shorter)

lemma prefixed_length: "prefixed p s \<Longrightarrow> length p \<le> length s"
  by (metis prefixed_def length_take min.cobounded1)

text \<open>How a parser succeeds.\<close>

lemma parseValue_cases:
  assumes "parseValue d s = Some (v, r)"
  obtains (object0) q where "s = CHR 0x7B # q" "0 < d" "skipSpace q = CHR 0x7D # r" "v = VObj []"
  | (object) q x q1 ms where "s = CHR 0x7B # q" "0 < d" "skipSpace q = x # q1" "x \<noteq> CHR 0x7D"
      "parseMembers (d - 1) (x # q1) = Some (ms, r)" "v = VObj ms"
  | (array0) q where "s = CHR 0x5B # q" "0 < d" "skipSpace q = CHR 0x5D # r" "v = VArr []"
  | (array) q x q1 vs where "s = CHR 0x5B # q" "0 < d" "skipSpace q = x # q1" "x \<noteq> CHR 0x5D"
      "parseElems (d - 1) (x # q1) = Some (vs, r)" "v = VArr vs"
  | (str) q b where "s = CHR 0x22 # q" "strBody q = Some (b, r)" "v = VStr (unquote b)"
  | (word) p where "(p, v) \<in> {(''null'', VNull), (''true'', VBool True), (''false'', VBool False)}" "s = p @ r"
  | (num) sg ip fp ex where "number s = Some ((sg, ip, fp, ex), r)" "v = VNum (sg @ ip @ fp @ ex)"
      "\<not> prefixed ''null'' s" "\<not> prefixed ''true'' s" "\<not> prefixed ''false'' s" "s \<noteq> []" "hd s \<notin> {CHR 0x7B, CHR 0x5B, CHR 0x22}"
proof -
  from assms obtain c q where s: "s = c # q" by (cases s) (simp_all add: parseValue.simps)
  have w: "s = p @ drop (length p) s" if "prefixed p s" for p using that by (metis prefixed_def append_take_drop_id)
  have n: "drop 4 s = drop 3 q" "drop 5 s = drop 4 q" by (simp_all add: s)
  note u = assms[unfolded parseValue.simps[of d s], unfolded s, simplified]
  show thesis
  proof (cases "c \<in> {CHR 0x7B, CHR 0x5B, CHR 0x22}")
    case True
    with u s show thesis
      by (auto split: if_splits list.splits intro: object0 object array0 array str)
  next
    case False
    consider "prefixed ''null'' s" | "\<not> prefixed ''null'' s" "prefixed ''true'' s"
      | "\<not> prefixed ''null'' s" "\<not> prefixed ''true'' s" "prefixed ''false'' s"
      | "\<not> prefixed ''null'' s" "\<not> prefixed ''true'' s" "\<not> prefixed ''false'' s" by blast
    then show thesis
    proof cases
      case 1
      with u False s n have "v = VNull" "drop (length ''null'') s = r" by (simp_all add: eval_nat_numeral)
      with w[of "''null''"] 1 show thesis by (intro word[of "''null''"]) (simp, metis)
    next
      case 2
      with u False s n have "v = VBool True" "drop (length ''true'') s = r" by (simp_all add: eval_nat_numeral)
      with w[of "''true''"] 2(2) show thesis by (intro word[of "''true''"]) (simp, metis)
    next
      case 3
      with u False s n have "v = VBool False" "drop (length ''false'') s = r" by (simp_all add: eval_nat_numeral)
      with w[of "''false''"] 3(3) show thesis by (intro word[of "''false''"]) (simp, metis)
    next
      case 4
      with u False s show thesis by (auto intro: num)
    qed
  qed
qed

lemma parseElems_cases:
  assumes "parseElems d s = Some (vs, r)"
  obtains (last) v q where "parseValue d s = Some (v, q)" "skipSpace q = CHR 0x5D # r" "vs = [v]"
  | (more) v q q1 vs' where "parseValue d s = Some (v, q)" "length q < length s" "skipSpace q = CHR '','' # q1"
      "parseElems d (skipSpace q1) = Some (vs', r)" "vs = v # vs'"
  using assms by (subst (asm) parseElems.simps) (auto split: option.splits list.splits if_splits)

lemma parseMembers_cases:
  assumes "parseMembers d s = Some (ms, r)"
  obtains (last) q k q1 q2 v q3 where "s = CHR 0x22 # q" "strBody q = Some (k, q1)" "skipSpace q1 = CHR '':'' # q2"
      "parseValue d (skipSpace q2) = Some (v, q3)" "skipSpace q3 = CHR 0x7D # r"
      "ms = [(unquote k, take (length (skipSpace q2) - length q3) (skipSpace q2), v)]"
  | (more) q k q1 q2 v q3 q4 ms' where "s = CHR 0x22 # q" "strBody q = Some (k, q1)" "skipSpace q1 = CHR '':'' # q2"
      "parseValue d (skipSpace q2) = Some (v, q3)" "skipSpace q3 = CHR '','' # q4"
      "parseMembers d (skipSpace q4) = Some (ms', r)"
      "ms = (unquote k, take (length (skipSpace q2) - length q3) (skipSpace q2), v) # ms'"
  using assms by (subst (asm) parseMembers.simps) (auto simp: Let_def split: option.splits list.splits if_splits)

text \<open>The parsers consume, and so the tests of the lengths in them never fail.\<close>

lemma parse_shorter:
  "(parseValue d s = Some (v, r) \<longrightarrow> length r < length s) \<and> (parseElems d s = Some (vs, r) \<longrightarrow> length r < length s) \<and>
   (parseMembers d s = Some (ms, r) \<longrightarrow> length r < length s)"
proof (induction "length s" arbitrary: d s v vs ms r rule: less_induct)
  case less
  have ih: "length s' < length s \<Longrightarrow> parseValue d s' = Some (v, r) \<Longrightarrow> length r < length s'"
    "length s' < length s \<Longrightarrow> parseElems d s' = Some (vs, r) \<Longrightarrow> length r < length s'"
    "length s' < length s \<Longrightarrow> parseMembers d s' = Some (ms, r) \<Longrightarrow> length r < length s'" for s' d v vs ms r
    using less by blast+
  have val: "length r < length s" if "parseValue d s = Some (v, r)" for d v r
    using that
  proof (cases rule: parseValue_cases)
    case (object q x q1 ms)
    with skipSpace_length[of q] ih(3)[of "x # q1"] show ?thesis by fastforce
  next
    case (array q x q1 vs)
    with skipSpace_length[of q] ih(2)[of "x # q1"] show ?thesis by fastforce
  qed (auto dest: strBody_shorter number_shorter skipSpace_Cons)
  have "length r < length s" if "parseElems d s = Some (vs, r)"
    using that
  proof (cases rule: parseElems_cases)
    case (last v q)
    with val[of d v q] skipSpace_length[of q] show ?thesis by simp
  next
    case (more v q q1 vs')
    with skipSpace_length[of q] skipSpace_length[of q1] ih(2)[of "skipSpace q1" d vs' r] show ?thesis by simp
  qed
  moreover have "length r < length s" if "parseMembers d s = Some (ms, r)"
    using that
  proof (cases rule: parseMembers_cases)
    case (last q k q1 q2 v q3)
    with strBody_shorter[of q k q1] skipSpace_length[of q1] skipSpace_length[of q2] skipSpace_length[of q3]
      ih(1)[of "skipSpace q2" d v q3] show ?thesis by simp
  next
    case (more q k q1 q2 v q3 q4 ms')
    with strBody_shorter[of q k q1] skipSpace_length[of q1] skipSpace_length[of q2] skipSpace_length[of q3] skipSpace_length[of q4]
      ih(1)[of "skipSpace q2" d v q3] ih(3)[of "skipSpace q4" d ms' r] show ?thesis by simp
  qed
  ultimately show ?case using val by blast
qed

section \<open>What follows a value\<close>

lemma dropWhile_append_rest: "dropWhile p s = x # q \<Longrightarrow> dropWhile p (s @ t) = x # q @ t \<and> takeWhile p (s @ t) = takeWhile p s"
  by (induction s) auto

lemma skipSpace_append: "skipSpace s = x # q \<Longrightarrow> skipSpace (s @ t) = x # q @ t"
  using dropWhile_append_rest[of json_space] by (simp add: skipSpace_def)

lemma skipSpace_idle: "s \<noteq> [] \<Longrightarrow> \<not> json_space (hd s) \<Longrightarrow> skipSpace s = s"
  by (cases s) (simp_all add: skipSpace_def)

lemma strBody_cases:
  assumes "strBody s = Some (b, r)"
  obtains (close) "s = CHR 0x22 # r" "b = []"
  | (hex) h1 h2 h3 h4 q b' where "s = CHR 0x5C # CHR ''u'' # h1 # h2 # h3 # h4 # q" "is_hex h1" "is_hex h2" "is_hex h3" "is_hex h4"
      "strBody q = Some (b', r)" "b = CHR 0x5C # CHR ''u'' # h1 # h2 # h3 # h4 # b'"
  | (escaped) e q b' where "s = CHR 0x5C # e # q" "e \<noteq> CHR ''u''" "e \<in> set ''bfnrt/'' \<or> e = CHR 0x22 \<or> e = CHR 0x5C"
      "strBody q = Some (b', r)" "b = CHR 0x5C # e # b'"
  | (plain) c q b' where "s = c # q" "c \<noteq> CHR 0x22" "c \<noteq> CHR 0x5C" "\<not> (of_char c :: nat) < 32" "strBody q = Some (b', r)" "b = c # b'"
proof (cases s)
  case (Cons c q)
  show thesis
  proof (cases "c = CHR 0x5C")
    case True
    with assms Cons obtain e q1 where q: "q = e # q1" by (cases q) auto
    show thesis
    proof (cases "e = CHR ''u''")
      case u: True
      with assms Cons True q show thesis by (auto split: list.splits if_splits intro: hex)
    next
      case False
      with assms Cons True q have e: "e \<in> set ''bfnrt/'' \<or> e = CHR 0x22 \<or> e = CHR 0x5C"
        and m: "map_option (\<lambda>(b, r). (c # e # b, r)) (strBody q1) = Some (b, r)" by (simp_all split: if_splits)
      from m obtain b' where "strBody q1 = Some (b', r)" "b = c # e # b'" by auto
      with Cons True q False e show thesis by (intro escaped[of e q1 b']) simp_all
    qed
  next
    case False
    with assms Cons show thesis by (auto split: if_splits intro: close plain)
  qed
qed (use assms in simp)

lemma strBody_append: "strBody s = Some (b, r) \<Longrightarrow> strBody (s @ t) = Some (b, r @ t)"
proof (induction "length s" arbitrary: s b rule: less_induct)
  case less
  from less(2) show ?case
  proof (cases rule: strBody_cases)
    case (hex h1 h2 h3 h4 q b')
    with less(1)[of q b'] show ?thesis by simp
  next
    case (escaped e q b')
    with less(1)[of q b'] show ?thesis by auto
  next
    case (plain c q b')
    with less(1)[of q b'] show ?thesis by simp
  qed simp
qed

lemma digits_append:
  assumes "dropWhile is_digit s = r" "r \<noteq> []"
  shows "dropWhile is_digit (s @ t) = r @ t \<and> takeWhile is_digit (s @ t) = takeWhile is_digit s"
  using assms dropWhile_append_rest[of is_digit s] by (cases r) auto

lemma numExp_append: "numExp s = Some (e, r) \<Longrightarrow> r \<noteq> [] \<Longrightarrow> numExp (s @ t) = Some (e, r @ t)"
  by (auto simp: numExp_def Let_def digits_append split: list.splits if_splits prod.splits)

lemma numFrac_append: "numFrac s = Some (e, r) \<Longrightarrow> r \<noteq> [] \<Longrightarrow> numFrac (s @ t) = Some (e, r @ t)"
  by (auto simp: numFrac_def Let_def digits_append split: list.splits if_splits)

lemma numInt_append: "numInt s = Some (e, r) \<Longrightarrow> r \<noteq> [] \<Longrightarrow> numInt (s @ t) = Some (e, r @ t)"
  by (auto simp: numInt_def digits_append split: list.splits if_splits)

lemma number_append:
  assumes "number s = Some (x, r)" and "r \<noteq> []"
  shows "number (s @ t) = Some (x, r @ t)"
proof -
  obtain sg s0 where z: "(case s of c # r \<Rightarrow> if c = CHR ''-'' then ([c], r) else ([], s) | [] \<Rightarrow> ([], s)) = (sg, s0)" by fastforce
  from assms(1) z obtain ip s1 fp s2 ex where n: "numInt s0 = Some (ip, s1)" "numFrac s1 = Some (fp, s2)" "numExp s2 = Some (ex, r)"
    "x = (sg, ip, fp, ex)" by (auto simp: number_def split: option.splits)
  have "s2 \<noteq> []" using numExp_shorter[OF n(3)] assms(2) by auto
  moreover from this have "s1 \<noteq> []" using numFrac_shorter[OF n(2)] by auto
  moreover have "s0 \<noteq> []" using numInt_shorter[OF n(1)] by auto
  then have "(case s @ t of c # r \<Rightarrow> if c = CHR ''-'' then ([c], r) else ([], s @ t) | [] \<Rightarrow> ([], s @ t)) = (sg, s0 @ t)"
    using z by (cases s) (auto split: if_splits)
  ultimately show ?thesis
    using n assms(2) by (simp add: number_def numInt_append[OF n(1)] numFrac_append[OF n(2)] numExp_append[OF n(3)])
qed

text \<open>A value is read the same way whatever follows it; only a number at the very end of the input could go on.\<close>

definition is_number :: "json \<Rightarrow> bool" where
  "is_number v \<longleftrightarrow> (\<exists>lit. v = VNum lit)"

lemma skipSpace_append_parsed:
  assumes "parseValue d (skipSpace q) = Some (v, r) \<or> parseElems d (skipSpace q) = Some (vs, r) \<or> parseMembers d (skipSpace q) = Some (ms, r)"
  shows "skipSpace (q @ t) = skipSpace q @ t"
proof -
  have "length r < length (skipSpace q)" using assms parse_shorter by blast
  then obtain x q1 where "skipSpace q = x # q1" by (cases "skipSpace q") auto
  with skipSpace_append show ?thesis by simp
qed

lemma prefixed_append: "prefixed p (s @ t) \<Longrightarrow> length p \<le> length s \<Longrightarrow> prefixed p s"
  by (simp add: prefixed_def)

lemma parseMembers_more:
  assumes "strBody q = Some (k, q1)" "skipSpace q1 = CHR '':'' # q2" "parseValue d (skipSpace q2) = Some (v, q3)"
    and "skipSpace q3 = CHR '','' # q4"
  shows "parseMembers d (CHR 0x22 # q) =
    map_option (\<lambda>(ms, r). ((unquote k, take (length (skipSpace q2) - length q3) (skipSpace q2), v) # ms, r)) (parseMembers d (skipSpace q4))"
proof -
  have "length q3 < length (skipSpace q2)" using parse_shorter assms(3) by blast
  with assms strBody_shorter[OF assms(1)] skipSpace_length[of q1] skipSpace_length[of q2] show ?thesis
    by (subst parseMembers.simps) (simp add: Let_def)
qed

lemma parseMembers_last:
  assumes "strBody q = Some (k, q1)" "skipSpace q1 = CHR '':'' # q2" "parseValue d (skipSpace q2) = Some (v, q3)"
    and "skipSpace q3 = CHR 0x7D # r"
  shows "parseMembers d (CHR 0x22 # q) = Some ([(unquote k, take (length (skipSpace q2) - length q3) (skipSpace q2), v)], r)"
proof -
  have "length q3 < length (skipSpace q2)" using parse_shorter assms(3) by blast
  with assms strBody_shorter[OF assms(1)] skipSpace_length[of q1] skipSpace_length[of q2] show ?thesis
    by (subst parseMembers.simps) (simp add: Let_def)
qed

lemma number_head: "number s = Some (x, r) \<Longrightarrow> s \<noteq> [] \<and> (hd s = CHR ''-'' \<or> is_digit (hd s))"
  by (auto simp: number_def numInt_def Let_def is_digit_def split: list.splits if_splits option.splits)

lemma parseValue_append:
  assumes v: "parseValue d s = Some (v, r)" "r \<noteq> [] \<or> \<not> is_number v"
    and ih: "\<And>d s' vs r. length s' < length s \<Longrightarrow> parseElems d s' = Some (vs, r) \<Longrightarrow> parseElems d (s' @ t) = Some (vs, r @ t)"
      "\<And>d s' ms r. length s' < length s \<Longrightarrow> parseMembers d s' = Some (ms, r) \<Longrightarrow> parseMembers d (s' @ t) = Some (ms, r @ t)"
  shows "parseValue d (s @ t) = Some (v, r @ t)"
  using v(1)
proof (cases rule: parseValue_cases)
  case (object0 q)
  with skipSpace_append[of q "CHR 0x7D" r t] show ?thesis by (simp add: parseValue.simps)
next
  case (object q x q1 ms)
  with skipSpace_append[of q x q1 t] ih(2)[of "x # q1" "d - 1" ms r] skipSpace_length[of q] show ?thesis by (simp add: parseValue.simps)
next
  case (array0 q)
  with skipSpace_append[of q "CHR 0x5D" r t] show ?thesis by (simp add: parseValue.simps)
next
  case (array q x q1 vs)
  with skipSpace_append[of q x q1 t] ih(1)[of "x # q1" "d - 1" vs r] skipSpace_length[of q] show ?thesis by (simp add: parseValue.simps)
next
  case (str q b)
  with strBody_append[of q b r t] show ?thesis by (simp add: parseValue.simps)
next
  case (word p)
  then show ?thesis by (auto simp: parseValue.simps prefixed_def)
next
  case (num sg ip fp ex)
  with v(2) have "r \<noteq> []" by (auto simp: is_number_def)
  note n = number_append[OF num(1) this, of t]
  from number_head[OF num(1)] obtain c q where "s = c # q" "c = CHR ''-'' \<or> is_digit c" by (cases s) auto
  moreover from this have "c \<notin> set (''ntf{['' @ [CHR 0x22])" by (auto simp: is_digit_def)
  ultimately show ?thesis using n num(2) by (simp add: parseValue.simps prefixed_def)
qed

lemma parse_append:
  "(parseValue d s = Some (v, r) \<longrightarrow> r \<noteq> [] \<or> \<not> is_number v \<longrightarrow> parseValue d (s @ t) = Some (v, r @ t)) \<and>
   (parseElems d s = Some (vs, r) \<longrightarrow> parseElems d (s @ t) = Some (vs, r @ t)) \<and>
   (parseMembers d s = Some (ms, r) \<longrightarrow> parseMembers d (s @ t) = Some (ms, r @ t))"
proof (induction "length s" arbitrary: d s v vs ms r rule: less_induct)
  case less
  have ih: "\<And>d s' v r. length s' < length s \<Longrightarrow> parseValue d s' = Some (v, r) \<Longrightarrow> r \<noteq> [] \<Longrightarrow> parseValue d (s' @ t) = Some (v, r @ t)"
    "\<And>d s' vs r. length s' < length s \<Longrightarrow> parseElems d s' = Some (vs, r) \<Longrightarrow> parseElems d (s' @ t) = Some (vs, r @ t)"
    "\<And>d s' ms r. length s' < length s \<Longrightarrow> parseMembers d s' = Some (ms, r) \<Longrightarrow> parseMembers d (s' @ t) = Some (ms, r @ t)"
    using less by blast+
  have v: "parseValue d (s @ t) = Some (v, r @ t)" if "parseValue d s = Some (v, r)" "r \<noteq> [] \<or> \<not> is_number v" for d v r
    by (rule parseValue_append[OF that ih(2,3)])
  moreover have "parseElems d (s @ t) = Some (vs, r @ t)" if "parseElems d s = Some (vs, r)"
    using that
  proof (cases rule: parseElems_cases)
    case (last u q)
    then have "q \<noteq> []" by (auto simp: skipSpace_def)
    with v[OF last(1)] skipSpace_append[OF last(2), of t] last parse_shorter[of d s u q] show ?thesis by (simp add: parseElems.simps)
  next
    case (more u q q1 vs')
    then have "q \<noteq> []" by (auto simp: skipSpace_def)
    moreover have "skipSpace (q1 @ t) = skipSpace q1 @ t" using more(4) skipSpace_append_parsed by blast
    moreover have "length (skipSpace q1) < length s" using more(2,3) skipSpace_length[of q] skipSpace_length[of q1] by simp
    ultimately show ?thesis
      using v[OF more(1)] skipSpace_append[OF more(3), of t] more ih(2)[OF _ more(4)] by (simp add: parseElems.simps[of d "s @ t"])
  qed
  moreover have "parseMembers d (s @ t) = Some (ms, r @ t)" if "parseMembers d s = Some (ms, r)"
    using that
  proof (cases rule: parseMembers_cases)
    case (last q k q1 q2 u q3)
    note c = strBody_append[OF last(2), of t] skipSpace_append[OF last(3), of t] skipSpace_append[OF last(5), of t]
    have "q3 \<noteq> []" using last(5) by (auto simp: skipSpace_def)
    moreover have s2: "skipSpace (q2 @ t) = skipSpace q2 @ t" using last(4) skipSpace_append_parsed by blast
    moreover have "length (skipSpace q2) < length s"
      using last(1) strBody_shorter[OF last(2)] skipSpace_length[of q1] skipSpace_length[of q2] last(3) by simp
    ultimately have "parseValue d (skipSpace (q2 @ t)) = Some (u, q3 @ t)" using ih(1)[OF _ last(4)] by simp
    from parseMembers_last[OF c(1) c(2) this c(3)] last(1,6) show ?thesis by (simp add: s2)
  next
    case (more q k q1 q2 u q3 q4 ms')
    note c = strBody_append[OF more(2), of t] skipSpace_append[OF more(3), of t] skipSpace_append[OF more(5), of t]
    have q3: "q3 \<noteq> []" using more(5) by (auto simp: skipSpace_def)
    have s2: "skipSpace (q2 @ t) = skipSpace q2 @ t" "skipSpace (q4 @ t) = skipSpace q4 @ t" using more(4,6) skipSpace_append_parsed by blast+
    have l: "length (skipSpace q2) < length s"
      using more(1) strBody_shorter[OF more(2)] skipSpace_length[of q1] skipSpace_length[of q2] more(3) by simp
    have "length q3 < length (skipSpace q2)" using parse_shorter more(4) by blast
    then have l4: "length (skipSpace q4) < length s" using l skipSpace_length[of q3] skipSpace_length[of q4] more(5) by simp
    have "parseValue d (skipSpace (q2 @ t)) = Some (u, q3 @ t)" using ih(1)[OF l more(4) q3] by (simp add: s2)
    from parseMembers_more[OF c(1) c(2) this c(3)] more(1,7) ih(3)[OF l4 more(6)] show ?thesis by (simp add: s2)
  qed
  ultimately show ?case by blast
qed

section \<open>Encoding\<close>

text \<open>Strings of ASCII characters as literals: control characters, quotes and backslashes by their code.\<close>

definition codeDigit :: "nat \<Rightarrow> char" where
  "codeDigit n = (if n < 10 then char_of (48 + n) else char_of (87 + n))"

definition escChar :: "char \<Rightarrow> string" where
  "escChar c =
     (let n = of_char c in
      if 32 \<le> n \<and> c \<noteq> CHR 0x22 \<and> c \<noteq> CHR 0x5C then [c]
      else CHR 0x5C # ''u00'' @ [codeDigit (n div 16), codeDigit (n mod 16)])"

definition quoteStr :: "string \<Rightarrow> string" where
  "quoteStr s = CHR 0x22 # concat (map escChar s) @ [CHR 0x22]"

definition ascii :: "string \<Rightarrow> bool" where
  "ascii s \<longleftrightarrow> (\<forall>c \<in> set s. (of_char c :: nat) < 128)"

lemma codeDigit_val:
  assumes "n < 16"
  shows "is_hex (codeDigit n)" "hex_val (codeDigit n) = n"
  using assms by (auto simp: is_hex_def hex_val_def codeDigit_def is_digit_def Let_def)

lemma escChar_body:
  assumes "(of_char c :: nat) < 128"
  shows "strBody (escChar c @ s) = map_option (\<lambda>(b, r). (escChar c @ b, r)) (strBody s)"
proof -
  have "is_hex CHR ''0''" by (simp add: is_hex_def is_digit_def)
  with assms codeDigit_val(1)[of "of_char c div 16"] codeDigit_val(1)[of "of_char c mod 16"] show ?thesis
    by (cases "32 \<le> (of_char c :: nat) \<and> c \<noteq> CHR 0x22 \<and> c \<noteq> CHR 0x5C") (auto simp: escChar_def Let_def)
qed

lemma escChar_unquote:
  assumes "(of_char c :: nat) < 128"
  shows "unquote (escChar c @ s) = c # unquote s"
proof (cases "32 \<le> (of_char c :: nat) \<and> c \<noteq> CHR 0x22 \<and> c \<noteq> CHR 0x5C")
  case True
  with assms show ?thesis by (simp add: escChar_def unquote.simps[of "c # s"] utf8_len_def between_def)
next
  case False
  let ?n = "of_char c :: nat"
  have "hex4 CHR ''0'' CHR ''0'' (codeDigit (?n div 16)) (codeDigit (?n mod 16)) = ?n"
    using assms codeDigit_val(2)[of "?n div 16"] codeDigit_val(2)[of "?n mod 16"] by (simp add: hex4_def hex_val_def[of "CHR ''0''"])
  moreover have "escChar c = CHR 0x5C # ''u00'' @ [codeDigit (?n div 16), codeDigit (?n mod 16)]" using False by (auto simp: escChar_def Let_def)
  ultimately show ?thesis using assms by (simp add: Let_def unquote.simps[of "CHR 0x5C # r" for r] encodeRune_def)
qed

lemma quoteStr_body: "ascii s \<Longrightarrow> strBody (concat (map escChar s) @ CHR 0x22 # r) = Some (concat (map escChar s), r)"
  by (induction s) (simp_all add: ascii_def escChar_body)

lemma quoteStr_unquote: "ascii s \<Longrightarrow> unquote (concat (map escChar s)) = s"
  by (induction s) (simp_all add: ascii_def escChar_unquote unquote.simps[of "[]"])

text \<open>\<open>t\<close> is the text of a value that is followed by a comma or a closing bracket.\<close>

definition encodes :: "int \<Rightarrow> string \<Rightarrow> json \<Rightarrow> bool" where
  "encodes d t v \<longleftrightarrow> t \<noteq> [] \<and> \<not> json_space (hd t) \<and>
     (\<forall>c r. c = CHR '','' \<or> c = CHR 0x7D \<longrightarrow> parseValue d (t @ c # r) = Some (v, c # r))"

lemma encodes_string: "ascii s \<Longrightarrow> encodes d (quoteStr s) (VStr s)"
  by (auto simp: encodes_def quoteStr_def json_space_def parseValue.simps quoteStr_body quoteStr_unquote)

lemma encodes_value:
  assumes "parseValue d s = Some (v, [])" "\<not> is_number v"
  shows "encodes d s v"
proof -
  have "s \<noteq> [] \<and> \<not> json_space (hd s)"
    using assms(1)
  proof (cases rule: parseValue_cases)
    case (num sg ip fp ex)
    with assms(2) show ?thesis by (simp add: is_number_def)
  qed (auto simp: json_space_def)
  with parse_append[of d s v "[]"] assms show ?thesis by (auto simp: encodes_def)
qed

lemma number_digits:
  assumes "list_all is_digit (x # q)" "x = CHR ''0'' \<Longrightarrow> q = []" "c = CHR '','' \<or> c = CHR 0x7D"
  shows "number (x # q @ c # r) = Some (([], x # q, [], []), c # r)"
    and "number (CHR ''-'' # x # q @ c # r) = Some ((''-'', x # q, [], []), c # r)"
proof -
  have c: "\<not> is_digit c" "c \<notin> set ''.eE''" and x: "x \<noteq> CHR ''-''" using assms(1,3) by (auto simp: is_digit_def)
  have "takeWhile is_digit (x # q @ c # r) = x # q" "dropWhile is_digit (x # q @ c # r) = c # r"
    using assms(1) c(1) by (simp_all add: list_all_iff takeWhile_append dropWhile_append takeWhile_eq_all_conv dropWhile_eq_Nil_conv)
  then have "numInt (x # q @ c # r) = Some (x # q, c # r)" using assms(1,2) by (simp add: numInt_def)
  moreover have "numFrac (c # r) = Some ([], c # r)" "numExp (c # r) = Some ([], c # r)" using c(2) by (simp_all add: numFrac_def numExp_def)
  ultimately show "number (x # q @ c # r) = Some (([], x # q, [], []), c # r)"
    "number (CHR ''-'' # x # q @ c # r) = Some ((''-'', x # q, [], []), c # r)" using x by (simp_all add: number_def)
qed

lemma encodes_Itoa: "encodes d (Itoa n) (VNum (Itoa n))"
proof -
  obtain m where I: "Itoa n = CHR ''-'' # nat_digits m \<or> Itoa n = nat_digits m" by (metis Itoa_def)
  obtain x q where ds: "nat_digits m = x # q" "list_all is_digit (x # q)"
    using nat_digits_parse[of m] by (cases "nat_digits m") auto
  have z: "x = CHR ''0'' \<Longrightarrow> q = []" using nat_digits_zero[of m q] ds(1) by simp
  have x: "x \<notin> set (''ntf{[- '' @ [CHR 0x22, CHR 0x09, CHR 0x0D, CHR 0x0A])" using ds(2) by (auto simp: is_digit_def)
  have p: "parseValue d (x # q @ c # r) = Some (VNum (x # q), c # r)" "parseValue d (CHR ''-'' # x # q @ c # r) = Some (VNum (CHR ''-'' # x # q), c # r)"
    if "c = CHR '','' \<or> c = CHR 0x7D" for c r
    using number_digits[OF ds(2) z that] x by (simp_all add: parseValue.simps prefixed_def)
  from I show ?thesis
  proof
    assume "Itoa n = CHR ''-'' # nat_digits m"
    then have "Itoa n = CHR ''-'' # x # q" by (simp add: ds(1))
    with p(2) show ?thesis by (simp add: encodes_def json_space_def)
  next
    assume "Itoa n = nat_digits m"
    then have "Itoa n = x # q" by (simp add: ds(1))
    with p(1) x show ?thesis by (simp add: encodes_def json_space_def)
  qed
qed

section \<open>Requests\<close>

definition memberText :: "string \<times> string \<times> json \<Rightarrow> string" where
  "memberText m = (case m of (k, t, v) \<Rightarrow> quoteStr k @ CHR '':'' # t)"

lemma skipSpace_sep [simp]:
  "skipSpace (CHR '':'' # r) = CHR '':'' # r" "skipSpace (CHR '','' # r) = CHR '','' # r"
  "skipSpace (CHR 0x7B # r) = CHR 0x7B # r" "skipSpace (CHR 0x7D # r) = CHR 0x7D # r"
  by (simp_all add: skipSpace_def json_space_def)

lemma members_encoded:
  assumes "ms \<noteq> []" and "\<forall>(k, t, v) \<in> set ms. ascii k \<and> encodes d t v"
  shows "parseMembers d (Join (map memberText ms) '','' @ CHR 0x7D # r) = Some (ms, r)"
  using assms
proof (induction ms rule: induct_list012)
  case (2 m)
  obtain k t v where m: "m = (k, t, v)" by (cases m)
  with 2 have e: "ascii k" "encodes d t v" by auto
  then have t: "skipSpace (t @ CHR 0x7D # r) = t @ CHR 0x7D # r" by (intro skipSpace_idle) (auto simp: encodes_def)
  have v: "parseValue d (skipSpace (t @ CHR 0x7D # r)) = Some (v, CHR 0x7D # r)" using e(2) by (simp add: t encodes_def)
  have b: "strBody (concat (map escChar k) @ CHR 0x22 # CHR '':'' # t @ CHR 0x7D # r) =
      Some (concat (map escChar k), CHR '':'' # t @ CHR 0x7D # r)" by (rule quoteStr_body[OF e(1)])
  from parseMembers_last[OF b _ v] e(1) show ?case
    by (simp add: m memberText_def quoteStr_def quoteStr_unquote t)
next
  case (3 m m' ms)
  obtain k t v where m: "m = (k, t, v)" by (cases m)
  with 3 have e: "ascii k" "encodes d t v" by auto
  let ?r = "Join (map memberText (m' # ms)) '','' @ CHR 0x7D # r"
  have ih: "parseMembers d ?r = Some (m' # ms, r)" using 3 by simp
  have "?r \<noteq> [] \<and> hd ?r = CHR 0x22" by (cases m'; cases ms) (simp_all add: memberText_def quoteStr_def)
  then have s: "skipSpace ?r = ?r" by (intro skipSpace_idle) (simp_all add: json_space_def)
  have t: "skipSpace (t @ CHR '','' # ?r) = t @ CHR '','' # ?r" using e by (intro skipSpace_idle) (auto simp: encodes_def)
  have v: "parseValue d (skipSpace (t @ CHR '','' # ?r)) = Some (v, CHR '','' # ?r)" using e(2) unfolding t by (simp add: encodes_def)
  have b: "strBody (concat (map escChar k) @ CHR 0x22 # CHR '':'' # t @ CHR '','' # ?r) =
      Some (concat (map escChar k), CHR '':'' # t @ CHR '','' # ?r)" by (rule quoteStr_body[OF e(1)])
  have "parseMembers d (memberText m @ CHR '','' # ?r) = Some (m # m' # ms, r)"
    using parseMembers_more[OF b _ v] e(1) ih s
    by (simp add: m memberText_def quoteStr_def quoteStr_unquote t del: list.map Join.simps)
  then show ?case by simp
qed simp

definition requestMembers :: "publishRequest \<Rightarrow> json \<Rightarrow> (string \<times> string \<times> json) list" where
  "requestMembers q v =
     [(''stream'', quoteStr (prStream q), VStr (prStream q)), (''subject'', quoteStr (prSubject q), VStr (prSubject q)),
      (''type'', quoteStr (prType q), VStr (prType q)), (''schema_version'', Itoa (prSchemaVersion q), VNum (Itoa (prSchemaVersion q))),
      (''idempotency_key'', quoteStr (prIdempotencyKey q), VStr (prIdempotencyKey q)), (''payload'', prPayload q, v)]"

definition encodeRequest :: "publishRequest \<Rightarrow> string" where
  "encodeRequest q = CHR 0x7B # Join (map memberText (requestMembers q VNull)) '','' @ [CHR 0x7D]"

lemma encodeRequest_text: "map memberText (requestMembers q v) = map memberText (requestMembers q VNull)"
  by (simp add: requestMembers_def memberText_def)

lemma fold_names:
  "foldName ''stream'' = ''STREAM''" "foldName ''subject'' = ''SUBJECT''" "foldName ''type'' = ''TYPE''"
  "foldName ''schema_version'' = ''SCHEMA_VERSION''" "foldName ''idempotency_key'' = ''IDEMPOTENCY_KEY''" "foldName ''payload'' = ''PAYLOAD''"
  by code_simp+

lemma object_no_number: "parseValue d (CHR 0x7B # u) = Some (w, r) \<Longrightarrow> \<not> is_number w"
  by (auto simp: parseValue.simps is_number_def split: if_splits list.splits)

lemma readValue_truncated:
  assumes "readValue (CHR 0x7B # t) = Some (v, [])" and "n \<le> length t"
  shows "readValue (take n (CHR 0x7B # t)) = None"
proof (cases n)
  case 0
  then show ?thesis by (simp add: readValue_def skipSpace_def parseValue.simps)
next
  case (Suc k)
  have "False" if "parseValue maxNestingDepth (CHR 0x7B # take k t) = Some (w, r)" for w r
  proof -
    have "\<not> is_number w" by (rule object_no_number[OF that])
    with parse_append[of maxNestingDepth "CHR 0x7B # take k t" w r "drop k t"] that
    have "parseValue maxNestingDepth (CHR 0x7B # t) = Some (w, r @ drop k t)" by simp
    with assms Suc show False by (simp add: readValue_def)
  qed
  with Suc show ?thesis by (cases "parseValue maxNestingDepth (CHR 0x7B # take k t)") (auto simp: readValue_def)
qed

lemma decode_fields:
  "decodeMember (''stream'', t, VStr x) q = Some (q\<lparr>prStream := x\<rparr>)"
  "decodeMember (''subject'', t, VStr x) q = Some (q\<lparr>prSubject := x\<rparr>)"
  "decodeMember (''type'', t, VStr x) q = Some (q\<lparr>prType := x\<rparr>)"
  "decodeMember (''schema_version'', t, VNum x) q = map_option (\<lambda>n. q\<lparr>prSchemaVersion := n\<rparr>) (ParseInt x)"
  "decodeMember (''idempotency_key'', t, VStr x) q = Some (q\<lparr>prIdempotencyKey := x\<rparr>)"
  "decodeMember (''payload'', t, v) q = Some (q\<lparr>prPayload := t\<rparr>)"
  unfolding decodeMember_def prod.case fold_names Let_def by (simp_all add: decodeString_def decodeInt_def)

lemma decode_members:
  assumes "- (2 ^ 63) \<le> prSchemaVersion q" "prSchemaVersion q < 2 ^ 63"
  shows "decodeMembers (requestMembers q v) zeroRequest = Some q"
  by (simp only: requestMembers_def decodeMembers.simps decode_fields option.case option.map ParseInt_Itoa[OF assms])
    (simp add: zeroRequest_def)

text \<open>C31: A publish request survives its encoding. Take any request with fields in ASCII, control characters, quotes and backslashes
  included, any schema version of 64 bits, and any JSON object as its payload; write it as one JSON
  object. The handler decodes exactly this request, with the bytes of the payload unchanged, as long as it fits the limit of the body,
  and whatever the client sends after it. Sent without the limit for it, the body is refused.\<close>

theorem request_roundtrip:
  assumes "ascii (prStream q)" "ascii (prSubject q)" "ascii (prType q)" "ascii (prIdempotencyKey q)"
    and "- (2 ^ 63) \<le> prSchemaVersion q" "prSchemaVersion q < 2 ^ 63"
    and "parseValue (maxNestingDepth - 1) (prPayload q) = Some (VObj ms, [])"
  shows "if length (encodeRequest q) \<le> limit then jsonDecode limit (encodeRequest q @ rest) = Inr q
    else isl (jsonDecode limit (encodeRequest q @ rest))"
proof -
  let ?d = "maxNestingDepth - 1" and ?ms = "requestMembers q (VObj ms)"
  have pl: "encodes ?d (prPayload q) (VObj ms)" using assms(7) by (rule encodes_value) (simp add: is_number_def)
  have names: "ascii ''stream''" "ascii ''subject''" "ascii ''type''" "ascii ''schema_version''" "ascii ''idempotency_key''" "ascii ''payload''"
    by (simp_all add: ascii_def)
  have m: "parseMembers ?d (Join (map memberText ?ms) '','' @ CHR 0x7D # r) = Some (?ms, r)" for r
    by (rule members_encoded) (use assms(1-4) pl names in \<open>simp_all add: requestMembers_def encodes_string encodes_Itoa\<close>)
  define t where "t = Join (map memberText (requestMembers q VNull)) '','' @ [CHR 0x7D]"
  obtain u where u: "t = CHR 0x22 # u" by (simp add: t_def requestMembers_def memberText_def quoteStr_def)
  have e: "encodeRequest q = CHR 0x7B # t" by (simp add: encodeRequest_def t_def)
  have m': "parseMembers ?d (t @ r) = Some (?ms, r)" for r using m[of r] by (simp add: t_def encodeRequest_text[of q "VObj ms"])
  have v: "readValue (encodeRequest q @ r) = Some (VObj ?ms, r)" for r
  proof -
    have "skipSpace (t @ r) = CHR 0x22 # u @ r" by (simp add: u skipSpace_def json_space_def)
    with m'[of r] show ?thesis by (simp add: readValue_def e u maxNestingDepth_def parseValue.simps)
  qed
  show ?thesis
  proof (cases "length (encodeRequest q) \<le> limit")
    case True
    then have "take limit (encodeRequest q @ rest) = encodeRequest q @ take (limit - length (encodeRequest q)) rest" by simp
    with True v decode_members[OF assms(5,6)] show ?thesis by (simp add: jsonDecode_def)
  next
    case False
    from readValue_truncated[OF v[of "[]", simplified, unfolded e], of limit] False e have "readValue (take limit (encodeRequest q)) = None" by simp
    with False show ?thesis by (simp add: jsonDecode_def)
  qed
qed

theorem request_roundtrip_witness:
  "jsonDecode 200 (encodeRequest (zeroRequest\<lparr>prStream := [CHR 0x0A, CHR 0x22], prSchemaVersion := -5, prPayload := ''{}''\<rparr>) @ ''trailing'') =
   Inr (zeroRequest\<lparr>prStream := [CHR 0x0A, CHR 0x22], prSchemaVersion := -5, prPayload := ''{}''\<rparr>)"
proof -
  let ?q = "zeroRequest\<lparr>prStream := [CHR 0x0A, CHR 0x22], prSchemaVersion := -5, prPayload := ''{}''\<rparr>"
  have "parseValue (maxNestingDepth - 1) ''{}'' = Some (VObj [], [])" "length (encodeRequest ?q) \<le> 200" by code_simp+
  with request_roundtrip[of ?q "[]" 200 "''trailing''"] show ?thesis by (simp add: ascii_def zeroRequest_def)
qed

end
