(* ===== verification/Outbox_Contract.thy ===== *)
theory Outbox_Contract
  imports App_Http
begin

text \<open>
  The contract between the core and its store, broker, clock and timers, as a locale, and what the
  core guarantees under it: an event that the store calls published has been acknowledged by the
  broker with its subject and payload, whatever fails on the way. The contract is stated over what an
  operation does to the stored events, the published ones and the acknowledged messages;
  \<open>Control_Plane\<close> shows that the models of the store and of the bus meet it.
\<close>

text \<open>
  The world goes on from \<open>w\<close> to \<open>w'\<close>: \<open>I\<close> holds, no acknowledgement is lost, and the stored events
  keep their subjects and payloads (\<open>evt\<close>). It does so calmly when nothing is published on the way.
\<close>

definition onward ::
  "('w \<Rightarrow> bool) \<Rightarrow> ('w \<Rightarrow> ('k \<times> string \<times> string) set) \<Rightarrow> ('w \<Rightarrow> 'k \<rightharpoonup> string \<times> string) \<Rightarrow> 'w \<Rightarrow> 'w \<Rightarrow> bool" where
  "onward I ack evt w w' \<longleftrightarrow> I w' \<and> ack w \<subseteq> ack w' \<and> evt w \<subseteq>\<^sub>m evt w'"

definition calm ::
  "('w \<Rightarrow> bool) \<Rightarrow> ('w \<Rightarrow> 'k set) \<Rightarrow> ('w \<Rightarrow> ('k \<times> string \<times> string) set) \<Rightarrow> ('w \<Rightarrow> 'k \<rightharpoonup> string \<times> string) \<Rightarrow>
   'w \<Rightarrow> 'w \<Rightarrow> bool" where
  "calm I pub ack evt w w' \<longleftrightarrow> onward I ack evt w w' \<and> pub w' \<subseteq> pub w"

definition quiet ::
  "('w \<Rightarrow> bool) \<Rightarrow> ('w \<Rightarrow> 'k set) \<Rightarrow> ('w \<Rightarrow> ('k \<times> string \<times> string) set) \<Rightarrow> ('w \<Rightarrow> 'k \<rightharpoonup> string \<times> string) \<Rightarrow>
   ('w \<Rightarrow> 'a \<times> 'w) \<Rightarrow> bool" where
  "quiet I pub ack evt f \<longleftrightarrow> (\<forall>w. I w \<longrightarrow> calm I pub ack evt w (snd (f w)))"

lemma quietD: "quiet I pub ack evt f \<Longrightarrow> f w = (r, w') \<Longrightarrow> I w \<Longrightarrow> calm I pub ack evt w w'"
  unfolding quiet_def by (metis snd_conv)

lemma calm_refl: "I w \<Longrightarrow> calm I pub ack evt w w"
  by (simp add: calm_def onward_def)

lemma onward_trans: "onward I ack evt w w1 \<Longrightarrow> onward I ack evt w1 w2 \<Longrightarrow> onward I ack evt w w2"
  unfolding onward_def by (blast intro: map_le_trans)

lemma calm_trans: "calm I pub ack evt w w1 \<Longrightarrow> calm I pub ack evt w1 w2 \<Longrightarrow> calm I pub ack evt w w2"
  unfolding calm_def by (blast intro: onward_trans)

lemma onward_inv: "onward I ack evt w w' \<Longrightarrow> I w'"
  by (simp add: onward_def)

lemma calm_inv: "calm I pub ack evt w w' \<Longrightarrow> I w'"
  by (simp add: calm_def onward_def)

lemma calm_onward: "calm I pub ack evt w w' \<Longrightarrow> onward I ack evt w w'"
  by (simp add: calm_def)

locale outbox_contract =
  fixes d :: "('w, 'l) deps"
    and I :: "'w \<Rightarrow> bool"
    and pub :: "'w \<Rightarrow> 'k set"
    and ack :: "'w \<Rightarrow> ('k \<times> string \<times> string) set"
    and evt :: "'w \<Rightarrow> 'k \<rightharpoonup> string \<times> string"
    and key :: "string \<Rightarrow> 'k option"
  assumes now_quiet: "quiet I pub ack evt (nowOp d)"
    and now_pub: "I w \<Longrightarrow> pub w \<subseteq> pub (snd (nowOp d w))"
    and wait_quiet: "quiet I pub ack evt (waitTimer d t)"
    and publish_quiet: "bus d = Some b \<Longrightarrow> quiet I pub ack evt (busPublishOp b s p m)"
    and publish_acks: "bus d = Some b \<Longrightarrow> I w \<Longrightarrow> busPublishOp b s p m w = (Inr x, w') \<Longrightarrow>
      key m = Some k \<Longrightarrow> (k, s, p) \<in> ack w'"
    and subscribe_quiet: "bus d = Some b \<Longrightarrow> quiet I pub ack evt (busSubscribeOp b s)"
    and ready_quiet: "md \<in> set (mods d) \<Longrightarrow> quiet I pub ack evt (moduleReady md)"
    and append_known: "store d = Some st \<Longrightarrow> I w \<Longrightarrow> storeAppendOp st ev w = (Inr res, w') \<Longrightarrow>
      \<exists>k. key (evID (arEvent res)) = Some k \<and> evt w' k = Some (evSubject (arEvent res), evPayload (arEvent res)) \<and>
        (arPublished res \<longrightarrow> k \<in> pub w')"
    and append_quiet: "store d = Some st \<Longrightarrow> quiet I pub ack evt (storeAppendOp st ev)"
    and pending_quiet: "store d = Some st \<Longrightarrow> quiet I pub ack evt (storePendingOp st n)"
    and pending_known: "store d = Some st \<Longrightarrow> I w \<Longrightarrow> storePendingOp st n w = (Inr evs, w') \<Longrightarrow> ev \<in> set evs \<Longrightarrow>
      key (evID ev) = Some k \<Longrightarrow> evt w' k = Some (evSubject ev, evPayload ev)"
    and inbox_quiet: "store d = Some st \<Longrightarrow> quiet I pub ack evt (storeClaimInboxOp st c m)"
    and recent_quiet: "store d = Some st \<Longrightarrow> quiet I pub ack evt (storeRecentOp st s n)"
    and mark_law: "store d = Some st \<Longrightarrow> I w \<Longrightarrow> storeMarkOp st i b' w = (r, w') \<Longrightarrow>
      onward I ack evt w w' \<and> pub w' \<subseteq> pub w \<union> set_option (key i)"
    and mark_pub: "store d = Some st \<Longrightarrow> I w \<Longrightarrow> storeMarkOp st i b' w = (Inr u, w') \<Longrightarrow> set_option (key i) \<subseteq> pub w'"
    and lease_quiet: "adv d = Some ad \<Longrightarrow> quiet I pub ack evt (storeLeaseOp ad i ow dur)"
    and failure_quiet: "adv d = Some ad \<Longrightarrow> quiet I pub ack evt (storeFailureOp ad i e bb mb jp qa)"
    and list_quiet: "adv d = Some ad \<Longrightarrow> quiet I pub ack evt (storeListDLOp ad n)"
    and replay_quiet: "adv d = Some ad \<Longrightarrow> quiet I pub ack evt (storeReplayOp ad i)"
    and cleanup_quiet: "adv d = Some ad \<Longrightarrow> quiet I pub ack evt (storeCleanupOp ad t t' n)"
begin

text \<open>The broker has acknowledged a message with the identifier, the subject and the payload of the
  stored event.\<close>

definition delivered :: "'w \<Rightarrow> 'k \<Rightarrow> bool" where
  "delivered w k \<longleftrightarrow> (\<exists>s p. evt w k = Some (s, p) \<and> (k, s, p) \<in> ack w)"

definition safe :: "'w \<Rightarrow> bool" where
  "safe w \<longleftrightarrow> I w \<and> (\<forall>k \<in> pub w. delivered w k)"

text \<open>An event as the store holds it.\<close>

definition known :: "'w \<Rightarrow> EventRecord \<Rightarrow> bool" where
  "known w ev \<longleftrightarrow> (\<forall>k. key (evID ev) = Some k \<longrightarrow> evt w k = Some (evSubject ev, evPayload ev))"

lemma evt_onward: "onward I ack evt w w' \<Longrightarrow> evt w k = Some x \<Longrightarrow> evt w' k = Some x"
  unfolding onward_def map_le_def by (metis domI)

lemma known_onward: "onward I ack evt w w' \<Longrightarrow> known w ev \<Longrightarrow> known w' ev"
  unfolding known_def by (blast intro: evt_onward)

lemma delivered_onward: "onward I ack evt w w' \<Longrightarrow> delivered w k \<Longrightarrow> delivered w' k"
  unfolding delivered_def using evt_onward by (fastforce simp: onward_def)

lemma safe_inv: "safe w \<Longrightarrow> I w"
  by (simp add: safe_def)

lemma calm_safe: "calm I pub ack evt w w' \<Longrightarrow> safe w \<Longrightarrow> safe w'"
  unfolding safe_def calm_def by (auto intro: delivered_onward onward_inv)

lemma quiet_safe:
  assumes "quiet I pub ack evt f" and "f w = (r, w')" and "safe w"
  shows "safe w'"
  by (rule calm_safe[OF quietD[OF assms(1,2) safe_inv[OF assms(3)]] assms(3)])

text \<open>A guarded call is quiet when the call is.\<close>

lemma gated_quiet:
  assumes "quiet I pub ack evt call" and "gated al su fa (nowOp d) e call br w = (r, br', w')" and "I w"
  shows "calm I pub ack evt w w'"
proof (cases br)
  case None
  with assms show ?thesis by (auto simp: gated_def split: prod.splits dest!: quietD)
next
  case (Some b)
  obtain t0 w0 where n0: "nowOp d w = (t0, w0)" by fastforce
  obtain ok b0 where a: "al b t0 = (ok, b0)" by fastforce
  note q0 = quietD[OF now_quiet n0 assms(3)]
  show ?thesis
  proof (cases ok)
    case False
    with Some n0 a assms(2) q0 show ?thesis by (simp add: gated_def)
  next
    case True
    obtain x w1 where c: "call w0 = (x, w1)" by fastforce
    obtain t1 w2 where n1: "nowOp d w1 = (t1, w2)" by fastforce
    note q1 = quietD[OF assms(1) c calm_inv[OF q0]]
    note q2 = quietD[OF now_quiet n1 calm_inv[OF q1]]
    from Some n0 a True c n1 assms(2) have "w' = w2" by (auto simp: gated_def split: sum.splits)
    with calm_trans[OF calm_trans[OF q0 q1] q2] show ?thesis by simp
  qed
qed

text \<open>A guarded call that succeeded: where the call happened.\<close>

lemma gated_Inr:
  assumes "gated al su fa (nowOp d) e call br w = (Inr x, br', w')"
  obtains w0 w1 where "call w0 = (Inr x, w1)" and "w0 = w \<or> w0 = snd (nowOp d w)" and "w' = w1 \<or> w' = snd (nowOp d w1)"
proof (cases br)
  case None
  with assms that[of w w'] show thesis by (auto simp: gated_def split: prod.splits)
next
  case (Some b)
  obtain t0 w0 where n0: "nowOp d w = (t0, w0)" by fastforce
  obtain ok b0 where a: "al b t0 = (ok, b0)" by fastforce
  obtain y w1 where c: "call w0 = (y, w1)" by fastforce
  obtain t1 w2 where n1: "nowOp d w1 = (t1, w2)" by fastforce
  from assms Some n0 a c n1 have "y = Inr x" "w' = w2" by (cases ok; cases y; simp add: gated_def)+
  with that[of w0 w1] c n0 n1 show thesis by simp
qed

lemma now_calm: "I w \<Longrightarrow> calm I pub ack evt w (snd (nowOp d w))"
  using now_quiet by (simp add: quiet_def)

lemma maybe_now:
  assumes "I w" and "w' = w \<or> w' = snd (nowOp d w)"
  shows "calm I pub ack evt w w'" and "pub w \<subseteq> pub w'"
  using assms now_calm[OF assms(1)] calm_refl[of I, OF assms(1)] now_pub[OF assms(1)] by auto

lemma busPublish_calm:
  assumes "busPublish d s p m a w = (r, a', w')" and "I w"
  shows "calm I pub ack evt w w' \<and> (\<forall>x k. r = Inr x \<and> key m = Some k \<longrightarrow> (k, s, p) \<in> ack w')"
proof (cases "bus d")
  case None
  with assms show ?thesis by (auto simp: busPublish_def calm_refl)
next
  case (Some b)
  obtain br' where g: "gated cbAllow cbSuccess cbFailure (nowOp d) (ErrMsg ''nats circuit open'')
      (busPublishOp b s p m) (busBreaker a) w = (r, br', w')"
    using assms(1) Some by (auto simp: busPublish_def split: prod.splits)
  have q: "quiet I pub ack evt (busPublishOp b s p m)" by (rule publish_quiet[OF Some])
  have "(k, s, p) \<in> ack w'" if r: "r = Inr x" and k: "key m = Some k" for x k
  proof -
    from gated_Inr[OF g[unfolded r]] obtain w0 w1
      where c: "busPublishOp b s p m w0 = (Inr x, w1)" and w0: "w0 = w \<or> w0 = snd (nowOp d w)"
        and w': "w' = w1 \<or> w' = snd (nowOp d w1)" .
    note I0 = calm_inv[OF maybe_now(1)[OF assms(2) w0]]
    note I1 = calm_inv[OF quietD[OF q c I0]]
    from publish_acks[OF Some I0 c k] maybe_now(1)[OF I1 w'] show ?thesis by (auto simp: calm_def onward_def)
  qed
  with gated_quiet[OF q g assms(2)] show ?thesis by blast
qed

lemma storeCall_calm:
  assumes "\<And>st. store d = Some st \<Longrightarrow> quiet I pub ack evt (op st)"
    and "storeCall d op a w = (r, a', w')" and "I w"
  shows "calm I pub ack evt w w'"
proof (cases "store d")
  case None
  with assms show ?thesis by (simp add: storeCall_def calm_refl)
next
  case (Some st)
  obtain br' where "gated cbAllow cbSuccess cbFailure (nowOp d) errStoreOpen (op st) (storeBreaker a) w = (r, br', w')"
    using assms(2) Some by (auto simp: storeCall_def split: prod.splits)
  from gated_quiet[OF assms(1)[OF Some] this assms(3)] show ?thesis .
qed

lemma storeCall_safe:
  assumes "\<And>st. store d = Some st \<Longrightarrow> quiet I pub ack evt (op st)"
    and "storeCall d op a w = (r, a', w')" and "safe w"
  shows "safe w'"
  by (rule calm_safe[OF storeCall_calm[where op = op, OF assms(1,2) safe_inv[OF assms(3)]] assms(3)])

lemma storeCall_Inr:
  assumes "storeCall d op a w = (Inr x, a', w')" and "I w"
  obtains st w0 w1 where "store d = Some st" and "op st w0 = (Inr x, w1)" and "calm I pub ack evt w w0"
    and "w' = w1 \<or> w' = snd (nowOp d w1)"
proof -
  obtain st where st: "store d = Some st" using assms(1) by (cases "store d") (auto simp: storeCall_def)
  obtain br' where g: "gated cbAllow cbSuccess cbFailure (nowOp d) errStoreOpen (op st) (storeBreaker a) w = (Inr x, br', w')"
    using assms(1) st by (auto simp: storeCall_def split: prod.splits)
  obtain w0 w1 where "op st w0 = (Inr x, w1)" and "w0 = w \<or> w0 = snd (nowOp d w)" and "w' = w1 \<or> w' = snd (nowOp d w1)"
    using gated_Inr[OF g] .
  with that[OF st] maybe_now(1)[OF assms(2)] show thesis by blast
qed

text \<open>Marking an event that the broker has acknowledged.\<close>

lemma mark_safe:
  assumes "storeMarkOutboxPublished d i b a w = (r, a', w')" and "safe w" and "\<forall>k \<in> set_option (key i). delivered w k"
  shows "safe w' \<and> onward I ack evt w w'"
proof (cases "store d")
  case None
  with assms show ?thesis by (auto simp: storeMarkOutboxPublished_def storeCall_def safe_def onward_def)
next
  case (Some st)
  let ?J = "\<lambda>w'. safe w' \<and> onward I ack evt w w' \<and> (\<forall>k \<in> set_option (key i). delivered w' k)"
  have J: "?J w" using assms(2,3) by (simp add: onward_def safe_def)
  have now: "?J w2" if "nowOp d w1 = (t, w2)" "?J w1" for w1 t w2
  proof -
    have c: "calm I pub ack evt w1 w2" using that quietD[OF now_quiet] safe_inv by blast
    show ?thesis using that(2) calm_safe[OF c] onward_trans[OF _ calm_onward[OF c]] delivered_onward[OF calm_onward[OF c]] by blast
  qed
  have mark: "?J w2" if "storeMarkOp st i b w1 = (x, w2)" "?J w1" for w1 x w2
  proof -
    have o: "onward I ack evt w1 w2" and p: "pub w2 \<subseteq> pub w1 \<union> set_option (key i)"
      using mark_law[OF Some _ that(1)] that(2) safe_inv by blast+
    have dl: "delivered w2 k" if "k \<in> pub w1 \<union> set_option (key i)" for k
      using delivered_onward[OF o] \<open>?J w1\<close> that by (auto simp: safe_def)
    show ?thesis using onward_trans[OF _ o] dl p onward_inv[OF o] that(2) by (auto simp: safe_def)
  qed
  obtain br' where g: "gated cbAllow cbSuccess cbFailure (nowOp d) errStoreOpen (storeMarkOp st i b) (storeBreaker a) w = (r, br', w')"
    using assms(1) Some by (auto simp: storeMarkOutboxPublished_def storeCall_def split: prod.splits)
  have "?J w'"
  proof (cases "storeBreaker a")
    case None
    with g J mark show ?thesis by (auto simp: gated_def split: prod.splits)
  next
    case (Some br)
    obtain t0 w0 where n0: "nowOp d w = (t0, w0)" by fastforce
    obtain ok b0 where a: "cbAllow br t0 = (ok, b0)" by fastforce
    obtain y w1 where c: "storeMarkOp st i b w0 = (y, w1)" by fastforce
    obtain t1 w2 where n1: "nowOp d w1 = (t1, w2)" by fastforce
    from g Some n0 a c n1 have "w' = w0 \<or> w' = w2" by (cases ok; cases y) (auto simp: gated_def)
    with now[OF n0 J] now[OF n1 mark[OF c now[OF n0 J]]] show ?thesis by auto
  qed
  then show ?thesis by blast
qed

lemma publishLoop_calm:
  "publishLoop n d s p m wt mx a w = (r, a', w') \<Longrightarrow> I w \<Longrightarrow>
   calm I pub ack evt w w' \<and> (\<forall>x k. r = Inr x \<and> key m = Some k \<longrightarrow> (k, s, p) \<in> ack w')"
proof (induction n arbitrary: wt a w)
  case 0
  obtain q a1 w1 where b: "busPublish d s p m a w = (q, a1, w1)" by (metis surj_pair)
  with 0 busPublish_calm[OF b] show ?case by (cases q) auto
next
  case (Suc n)
  obtain q a1 w1 where b: "busPublish d s p m a w = (q, a1, w1)" by (metis surj_pair)
  note s1 = busPublish_calm[OF b Suc.prems(2)]
  show ?case
  proof (cases q)
    case (Inr x)
    with b Suc.prems s1 show ?thesis by auto
  next
    case (Inl e)
    obtain c w2 where t: "waitTimer d wt w1 = (c, w2)" by fastforce
    have c1: "calm I pub ack evt w w1" using s1 by blast
    note c2 = calm_trans[OF c1 quietD[OF wait_quiet t calm_inv[OF c1]]]
    show ?thesis
    proof (cases c)
      case (Some e')
      with Inl b t Suc.prems c2 show ?thesis by auto
    next
      case None
      let ?w = "if i64 (wt * 2) > mx then mx else i64 (wt * 2)"
      have l: "publishLoop n d s p m ?w mx (a1\<lparr>pubRetries := pubRetries a1 + 1\<rparr>) w2 = (r, a', w')"
        using None Inl b t Suc.prems(1) by (simp add: Let_def)
      from Suc.IH[OF l calm_inv[OF c2]] calm_trans[OF c2] show ?thesis by blast
    qed
  qed
qed

lemma publishWithRetry_calm:
  "publishWithRetry d s p m a w = (r, a', w') \<Longrightarrow> I w \<Longrightarrow>
   calm I pub ack evt w w' \<and> (\<forall>x k. r = Inr x \<and> key m = Some k \<longrightarrow> (k, s, p) \<in> ack w')"
  unfolding publishWithRetry_def by (rule publishLoop_calm)

text \<open>An event of the store whose publication succeeded.\<close>

lemma published_known:
  assumes "publishWithRetry d (evSubject ev) (evPayload ev) (evID ev) a w = (Inr x, a', w')" and "safe w" and "known w ev"
  shows "safe w' \<and> onward I ack evt w w' \<and> (\<forall>k \<in> set_option (key (evID ev)). delivered w' k)"
proof -
  note p = publishWithRetry_calm[OF assms(1) safe_inv[OF assms(2)]]
  have "known w' ev" using known_onward[OF calm_onward] p assms(3) by blast
  with p show ?thesis using calm_safe[OF _ assms(2)] by (auto simp: delivered_def known_def calm_onward)
qed

lemma claim_calm: "claimOutboxLease d a i w = (ok, w') \<Longrightarrow> I w \<Longrightarrow> calm I pub ack evt w w'"
  by (auto simp: claimOutboxLease_def split: option.splits prod.splits sum.splits
      intro: calm_refl dest: quietD[OF lease_quiet])

lemma record_calm: "recordOutboxFailure d a i e w = (q, w') \<Longrightarrow> I w \<Longrightarrow> calm I pub ack evt w w'"
  by (auto simp: recordOutboxFailure_def split: option.splits prod.splits intro: calm_refl dest: quietD[OF failure_quiet])

lemma record_safe: "recordOutboxFailure d a i e w = (q, w') \<Longrightarrow> safe w \<Longrightarrow> safe w'"
  by (rule calm_safe[OF record_calm[OF _ safe_inv]])

text \<open>An event the broker did not acknowledge is not marked; one that it acknowledged may be.\<close>

lemma relayLoop_safe:
  "relayLoop d evs a w = (a', w') \<Longrightarrow> safe w \<Longrightarrow> \<forall>ev \<in> set evs. known w ev \<Longrightarrow> safe w'"
proof (induction evs arbitrary: a w)
  case Nil
  then show ?case by simp
next
  case (Cons ev evs)
  obtain ok w1 where c: "claimOutboxLease d a (evID ev) w = (ok, w1)" by fastforce
  note c1 = claim_calm[OF c safe_inv[OF Cons.prems(2)]]
  note s1 = calm_safe[OF c1 Cons.prems(2)]
  have k1: "\<forall>e \<in> set (ev # evs). known w1 e" using Cons.prems(3) known_onward[OF calm_onward[OF c1]] by blast
  obtain q a2 w2 where p: "publishWithRetry d (evSubject ev) (evPayload ev) (evID ev) a w1 = (q, a2, w2)" by (metis surj_pair)
  show ?case
  proof (cases "ok")
    case False
    with Cons.prems(1) c have "relayLoop d evs a w1 = (a', w')" by simp
    from Cons.IH[OF this s1] k1 show ?thesis by simp
  next
    case ok: True
    show ?thesis
    proof (cases q)
      case (Inl e)
      obtain x w3 where f: "recordOutboxFailure d a2 (evID ev) e w2 = (x, w3)" by fastforce
      have c2: "calm I pub ack evt w1 w2" using publishWithRetry_calm[OF p safe_inv[OF s1]] by blast
      note c3 = calm_trans[OF c2 record_calm[OF f calm_inv[OF c2]]]
      have "relayLoop d evs a2 w3 = (a', w')" using Cons.prems(1) c ok p Inl f by simp
      from Cons.IH[OF this calm_safe[OF c3 s1]] k1 known_onward[OF calm_onward[OF c3]] show ?thesis by simp
    next
      case (Inr b)
      obtain x a3 w3 where f: "storeMarkOutboxPublished d (evID ev) b a2 w2 = (x, a3, w3)" by (metis surj_pair)
      have k: "known w1 ev" using k1 by simp
      note s2 = published_known[OF p[unfolded Inr] s1 k]
      have s3: "safe w3 \<and> onward I ack evt w2 w3" using mark_safe[OF f] s2 by blast
      have o: "onward I ack evt w1 w3" by (rule onward_trans[of _ _ _ _ w2]) (use s2 s3 in blast)+
      have "relayLoop d evs a3 w3 = (a', w')" using Cons.prems(1) c ok p Inr f by simp
      from Cons.IH[OF this] s3 k1 known_onward[OF o] show ?thesis by simp
    qed
  qed
qed

lemma relayOutboxBatch_safe:
  assumes "relayOutboxBatch d a w = (e, a', w')" and "safe w"
  shows "safe w'"
proof (cases "store d = None \<or> bus d = None")
  case True
  with assms show ?thesis by (simp add: relayOutboxBatch_def)
next
  case False
  obtain r a1 w1 where p: "storePendingOutboxEvents d (max_go 1 (OutboxRelayBatchSize (cfg a))) a w = (r, a1, w1)"
    by (metis surj_pair)
  note p' = p[unfolded storePendingOutboxEvents_def]
  have s1: "safe w1" by (rule storeCall_safe[OF pending_quiet p' assms(2)])
  show ?thesis
  proof (cases r)
    case (Inl e')
    with False assms(1)[unfolded relayOutboxBatch_def] p s1 show ?thesis by (auto simp del: max_go_max)
  next
    case (Inr evs)
    from storeCall_Inr[OF p'[unfolded Inr] safe_inv[OF assms(2)]] obtain st w0 w2 where st: "store d = Some st"
      and o: "storePendingOp st (max_go 1 (OutboxRelayBatchSize (cfg a))) w0 = (Inr evs, w2)"
      and c: "calm I pub ack evt w w0" and w1: "w1 = w2 \<or> w1 = snd (nowOp d w2)" .
    note I2 = calm_inv[OF quietD[OF pending_quiet[OF st] o calm_inv[OF c]]]
    have "\<forall>ev \<in> set evs. known w2 ev" using pending_known[OF st calm_inv[OF c] o] by (auto simp: known_def)
    then have "\<forall>ev \<in> set evs. known w1 ev" using known_onward[OF calm_onward[OF maybe_now(1)[OF I2 w1]]] by blast
    with False Inr p assms(1)[unfolded relayOutboxBatch_def] s1 show ?thesis
      by (auto simp del: max_go_max split: prod.splits dest: relayLoop_safe)
  qed
qed

lemma relayTick_safe: "relayTick d a w = (a', w') \<Longrightarrow> safe w \<Longrightarrow> safe w'"
  by (auto simp: relayTick_def split: if_splits prod.splits dest: relayOutboxBatch_safe)

lemma cleanupTick_safe:
  assumes "safe w"
  shows "safe (cleanupTick d a w)"
proof (cases "adv d")
  case None
  with assms show ?thesis by (simp add: cleanupTick_def)
next
  case (Some ad)
  obtain t1 w1 where n1: "nowOp d w = (t1, w1)" by fastforce
  obtain t2 w2 where n2: "nowOp d w1 = (t2, w2)" by fastforce
  have "safe w2" using quiet_safe[OF now_quiet n2] quiet_safe[OF now_quiet n1 assms] by blast
  then show ?thesis using Some n1 n2 quiet_safe[OF cleanup_quiet[OF Some] prod.collapse[symmetric]]
    by (simp add: cleanupTick_def)
qed

end

end
