(* ===== verification/Http_Access.thy ===== *)
theory Http_Access
  imports App_Http
begin

text \<open>
  What the middleware guarantees: who gets through \<open>secure\<close>, which headers a response carries, that
  no request keeps a slot of a semaphore, and what a request to \<^verbatim>\<open>/stream\<close> gets.
\<close>

section \<open>Tokens\<close>

lemma contains_iff: "contains xs v \<longleftrightarrow> v \<in> TrimSpace ` set xs"
  by (induction xs) auto

text \<open>The tokens a scope accepts.\<close>

definition accepted :: "Config \<Rightarrow> scope \<Rightarrow> string set" where
  "accepted c s =
     {APIBearerToken c} \<union> TrimSpace ` set (APIAdminTokens c) \<union>
     (case s of
        ScopeAdmin \<Rightarrow> {}
      | ScopeRead \<Rightarrow> TrimSpace ` set (APIReadTokens c)
      | ScopeRW \<Rightarrow> TrimSpace ` set (APIReadTokens c) \<union> TrimSpace ` set (APIPublishTokens c))"

lemma accepted_iff:
  "token \<noteq> [] \<Longrightarrow> token \<in> accepted c s \<longleftrightarrow>
   (APIBearerToken c \<noteq> [] \<and> token = APIBearerToken c) \<or> scopeAllows c s token"
  by (cases s) (auto simp: accepted_def contains_iff)

definition no_credentials :: "Config \<Rightarrow> bool" where
  "no_credentials c \<longleftrightarrow> APIBearerToken c = [] \<and> APIAdminTokens c = [] \<and> APIPublishTokens c = [] \<and> APIReadTokens c = []"

text \<open>Whether a request gets through, at the readings of the clock that \<open>secure\<close> takes.\<close>

definition granted :: "('w, 'l) deps \<Rightarrow> scope \<Rightarrow> Request \<Rightarrow> 'l App \<Rightarrow> 'w \<Rightarrow> bool" where
  "granted d s r a w \<longleftrightarrow>
     (let (blocked, a1, w1) = authBlocked d (clientIP (rqRemoteAddr r)) a w;
          token = bearerToken (rqHeader r ''Authorization'')
      in DisableAPITokenAuth (cfg a) \<or>
         (\<not> blocked \<and>
          (if token = [] then no_credentials (cfg a)
           else token \<in> accepted (cfg a) s \<and> \<not> fst (tokenExpired d (cfg a) token w1))))"

lemma secure_granted:
  assumes "granted d s r a w"
  shows "\<exists>g w'. \<forall>nxt. secure d s nxt r rw a w = nxt r rw (a\<lparr>authGuard := g\<rparr>) w'"
proof (cases "DisableAPITokenAuth (cfg a)")
  case True
  then have "\<forall>nxt. secure d s nxt r rw a w = nxt r rw (a\<lparr>authGuard := authGuard a\<rparr>) w"
    by (simp add: secure_def Let_def)
  then show ?thesis by blast
next
  case False
  let ?ip = "clientIP (rqRemoteAddr r)" and ?tok = "bearerToken (rqHeader r ''Authorization'')"
  obtain bl a1 w1 where b: "authBlocked d ?ip a w = (bl, a1, w1)" by (metis surj_pair)
  then obtain g1 where g1: "a1 = a\<lparr>authGuard := g1\<rparr>"
    by (auto simp: authBlocked_def Let_def split: option.splits prod.splits) (metis App.surjective App.update_convs(11))
  have nb: "\<not> bl" using assms False b by (simp add: granted_def Let_def)
  show ?thesis
  proof (cases "?tok = []")
    case True
    then have "\<forall>nxt. secure d s nxt r rw a w = nxt r rw (a\<lparr>authGuard := g1\<rparr>) w1"
      using assms False b nb g1 by (simp add: granted_def secure_def no_credentials_def Let_def)
    then show ?thesis by blast
  next
    case tok: False
    obtain ex w2 where e: "tokenExpired d (cfg a) ?tok w1 = (ex, w2)" by fastforce
    have acc: "(APIBearerToken (cfg a) \<noteq> [] \<and> ?tok = APIBearerToken (cfg a)) \<or> scopeAllows (cfg a) s ?tok" "\<not> ex"
      using assms False b tok e accepted_iff[OF tok] by (auto simp: granted_def Let_def)
    obtain g2 where g2: "authOk ?ip a1 = a\<lparr>authGuard := g2\<rparr>"
      using g1 by (cases "authGuard a1") (auto simp: authOk_def)
    have "\<forall>nxt. secure d s nxt r rw a w = nxt r rw (a\<lparr>authGuard := g2\<rparr>) w2"
      using False b nb tok e acc g2 by (auto simp: secure_def Let_def)
    then show ?thesis by blast
  qed
qed

lemma authBlocked_guard:
  "authBlocked d ip a w = (bl, a1, w1) \<Longrightarrow> \<exists>t. authGuard a1 = map_option (\<lambda>g. snd (agIsBlocked g ip t)) (authGuard a) \<and>
     a1 = a\<lparr>authGuard := authGuard a1\<rparr> \<and> (bl \<longrightarrow> (\<exists>g. authGuard a = Some g \<and> fst (agIsBlocked g ip t)))"
  by (cases "authGuard a") (auto simp: authBlocked_def Let_def split: prod.splits intro: exI[of _ "fst (nowOp d w)"])

lemma denyAuth_guard:
  "\<exists>t w'. denyAuth d ip msg code rw a w =
     (http_Error msg code rw, a\<lparr>authGuard := map_option (\<lambda>g. agFailure g ip t) (authGuard a)\<rparr>, w')"
  by (cases "authGuard a") (auto simp: denyAuth_def authFailed_def Let_def split: prod.splits)

text \<open>A request that does not get through is answered here, and counted as a failure of its client unless
  the client is blocked already.\<close>

lemma secure_denied:
  assumes "\<not> granted d s r a w"
  shows "\<exists>msg code g w'. (\<forall>nxt. secure d s nxt r rw a w = (http_Error msg code rw, a\<lparr>authGuard := g\<rparr>, w')) \<and>
     (\<exists>t t'. (code = 429 \<and> g = map_option (\<lambda>g. snd (agIsBlocked g (clientIP (rqRemoteAddr r)) t)) (authGuard a)) \<or>
        (code \<in> {401, 403} \<and> g = map_option (\<lambda>g. agFailure (snd (agIsBlocked g (clientIP (rqRemoteAddr r)) t))
           (clientIP (rqRemoteAddr r)) t') (authGuard a)))"
proof -
  let ?ip = "clientIP (rqRemoteAddr r)" and ?tok = "bearerToken (rqHeader r ''Authorization'')"
  obtain bl a1 w1 where b: "authBlocked d ?ip a w = (bl, a1, w1)" by (metis surj_pair)
  obtain t where t: "authGuard a1 = map_option (\<lambda>g. snd (agIsBlocked g ?ip t)) (authGuard a)" "a1 = a\<lparr>authGuard := authGuard a1\<rparr>"
    using authBlocked_guard[OF b] by blast
  have dis: "\<not> DisableAPITokenAuth (cfg a)" using assms b by (simp add: granted_def Let_def)
  have deny: ?thesis if "code \<in> {401, 403}" "\<forall>nxt. secure d s nxt r rw a w = denyAuth d ?ip msg code rw a1 w'" for msg code w'
  proof -
    obtain t' w2 where "denyAuth d ?ip msg code rw a1 w' =
        (http_Error msg code rw, a1\<lparr>authGuard := map_option (\<lambda>g. agFailure g ?ip t') (authGuard a1)\<rparr>, w2)"
      using denyAuth_guard[of d ?ip msg code rw a1 w'] by (elim exE)
    moreover have "a1\<lparr>authGuard := x\<rparr> = a\<lparr>authGuard := x\<rparr>" for x by (subst t(2)) simp
    ultimately have "\<forall>nxt. secure d s nxt r rw a w = (http_Error msg code rw,
        a\<lparr>authGuard := map_option (\<lambda>g. agFailure (snd (agIsBlocked g ?ip t)) ?ip t') (authGuard a)\<rparr>, w2)"
      using that(2) by (simp add: t(1) option.map_comp comp_def)
    with that(1) show ?thesis by blast
  qed
  show ?thesis
  proof (cases bl)
    case True
    then have "\<forall>nxt. secure d s nxt r rw a w = (http_Error ''temporarily blocked due to auth failures'' 429 rw,
        a\<lparr>authGuard := map_option (\<lambda>g. snd (agIsBlocked g ?ip t)) (authGuard a)\<rparr>, w1)"
      using b dis t by (simp add: secure_def Let_def)
    then show ?thesis by blast
  next
    case nb: False
    obtain ex w2 where e: "tokenExpired d (cfg a) ?tok w1 = (ex, w2)" by fastforce
    show ?thesis
    proof (cases "?tok = []")
      case True
      then show ?thesis using assms b dis nb deny[of 401 "''missing bearer token''" w1]
        by (auto simp: granted_def no_credentials_def secure_def Let_def)
    next
      case tok: False
      show ?thesis
      proof (cases ex)
        case True
        then show ?thesis using b dis nb tok e deny[of 401 "''token expired''" w2] by (simp add: secure_def Let_def)
      next
        case False
        then show ?thesis using assms b dis nb tok e accepted_iff[OF tok] deny[of 403 "''forbidden''" w2]
          by (auto simp: granted_def secure_def Let_def)
      qed
    qed
  qed
qed

text \<open>C27: Access control. A protected handler runs exactly when authentication is switched off, or the
  client is not blocked and either no credentials are configured and none are presented, or the bearer token is one that
  the scope accepts and has not expired. Otherwise the request is answered with 401, 403 or 429 without
  running the handler, and a failure of the client is recorded except for one that is blocked already. Nothing else of
  the core's state changes.\<close>

theorem secure_access:
  "if granted d s r a w
   then \<exists>g w'. \<forall>nxt. secure d s nxt r rw a w = nxt r rw (a\<lparr>authGuard := g\<rparr>) w'
   else \<exists>msg code g w' t t'. (\<forall>nxt. secure d s nxt r rw a w = (http_Error msg code rw, a\<lparr>authGuard := g\<rparr>, w')) \<and>
     (if code = 429 then g = map_option (\<lambda>g. snd (agIsBlocked g (clientIP (rqRemoteAddr r)) t)) (authGuard a)
      else code \<in> {401, 403} \<and>
        g = map_option (\<lambda>g. agFailure (snd (agIsBlocked g (clientIP (rqRemoteAddr r)) t))
           (clientIP (rqRemoteAddr r)) t') (authGuard a))"
proof (cases "granted d s r a w")
  case True
  then show ?thesis using secure_granted by simp
next
  case False
  from secure_denied[OF False, of rw] obtain msg code g w' t t'
    where r: "\<forall>nxt. secure d s nxt r rw a w = (http_Error msg code rw, a\<lparr>authGuard := g\<rparr>, w')"
      and c: "(code = 429 \<and> g = map_option (\<lambda>g. snd (agIsBlocked g (clientIP (rqRemoteAddr r)) t)) (authGuard a)) \<or>
        (code \<in> {401, 403} \<and> g = map_option (\<lambda>g. agFailure (snd (agIsBlocked g (clientIP (rqRemoteAddr r)) t))
           (clientIP (rqRemoteAddr r)) t') (authGuard a))"
    by (elim exE conjE)
  from c have "if code = 429 then g = map_option (\<lambda>g. snd (agIsBlocked g (clientIP (rqRemoteAddr r)) t)) (authGuard a)
      else code \<in> {401, 403} \<and> g = map_option (\<lambda>g. agFailure (snd (agIsBlocked g (clientIP (rqRemoteAddr r)) t))
           (clientIP (rqRemoteAddr r)) t') (authGuard a)" by auto
  with r show ?thesis using False by (simp only: if_False) blast
qed

section \<open>Semaphores\<close>

text \<open>The configuration and the three semaphores.\<close>

definition lanes :: "'l App \<Rightarrow> Config \<times> guard \<times> guard \<times> guard" where
  "lanes a = (cfg a, appGuard a, pubGuard a, queryGuard a)"

definition lanes_ok :: "'l App \<Rightarrow> bool" where
  "lanes_ok a \<longleftrightarrow> 0 \<le> taken (appGuard a) \<and> 0 \<le> taken (pubGuard a) \<and> 0 \<le> taken (queryGuard a)"

definition keeps_lanes :: "('w, 'l) handler \<Rightarrow> bool" where
  "keeps_lanes h \<longleftrightarrow> (\<forall>r rw a w. lanes_ok a \<longrightarrow> lanes (fst (snd (h r rw a w))) = lanes a)"

lemma keeps_lanesD: "keeps_lanes h \<Longrightarrow> h r rw a w = (rw', a', w') \<Longrightarrow> lanes_ok a \<Longrightarrow> lanes a' = lanes a"
  unfolding keeps_lanes_def by (metis fst_conv snd_conv)

lemma lanes_ok_eq: "lanes a' = lanes a \<Longrightarrow> lanes_ok a' = lanes_ok a"
  by (simp add: lanes_def lanes_ok_def)

lemma lanes_upd [simp]:
  "lanes (a\<lparr>busBreaker := b\<rparr>) = lanes a" "lanes (a\<lparr>storeBreaker := b\<rparr>) = lanes a" "lanes (a\<lparr>moduleBreakers := m\<rparr>) = lanes a"
  "lanes (a\<lparr>limiter := l\<rparr>) = lanes a" "lanes (a\<lparr>subjectLimiter := s\<rparr>) = lanes a" "lanes (a\<lparr>authGuard := g\<rparr>) = lanes a"
  "lanes (a\<lparr>outboxPaused := p\<rparr>) = lanes a" "lanes (a\<lparr>reqs := q\<rparr>) = lanes a" "lanes (a\<lparr>pubRetries := n\<rparr>) = lanes a"
  "lanes (a\<lparr>pubFailures := n\<rparr>) = lanes a"
  by (simp_all add: lanes_def)

lemma busPublish_lanes: "lanes (fst (snd (busPublish d s p m a w))) = lanes a"
  by (auto simp: busPublish_def split: option.splits prod.splits)

lemma storeCall_lanes: "lanes (fst (snd (storeCall d op a w))) = lanes a"
  by (auto simp: storeCall_def split: option.splits prod.splits)

lemma publishLoop_lanes: "lanes (fst (snd (publishLoop n d s p m wt mx a w))) = lanes a"
proof (induction n arbitrary: wt a w)
  case 0
  show ?case using busPublish_lanes[of d s p m a w] by (auto split: prod.splits sum.splits)
next
  case (Suc n)
  show ?case using busPublish_lanes[of d s p m a w] by (auto simp: Let_def Suc split: prod.splits sum.splits option.splits)
qed

lemma publishWithRetry_lanes: "lanes (fst (snd (publishWithRetry d s p m a w))) = lanes a"
  by (simp add: publishWithRetry_def publishLoop_lanes)

lemmas core_lanes = busPublish_lanes storeCall_lanes publishWithRetry_lanes

lemma storeMark_lanes: "storeMarkOutboxPublished d i b a w = (r, a', w') \<Longrightarrow> lanes a' = lanes a"
  using storeCall_lanes[of d "\<lambda>s. storeMarkOp s i b" a w] by (simp add: storeMarkOutboxPublished_def)

lemma publishStored_lanes: "lanes (fst (snd (publishStored d res rw a w))) = lanes a"
proof -
  obtain q a1 w1 where p: "publishWithRetry d (evSubject (arEvent res)) (evPayload (arEvent res)) (evID (arEvent res)) a w = (q, a1, w1)"
    by (metis surj_pair)
  have l1: "lanes a1 = lanes a" using publishWithRetry_lanes p by (metis fst_conv snd_conv)
  then show ?thesis using p
    by (cases q) (auto simp: publishStored_def Let_def split: prod.splits sum.splits dest!: storeMark_lanes)
qed

lemma subjectAllowed_lanes: "lanes (fst (snd (subjectAllowed d s a w))) = lanes a"
  by (auto simp: subjectAllowed_def Let_def split: option.splits prod.splits)

lemma publishDecoded_lanes: "lanes (fst (snd (publishDecoded d H req rw a w))) = lanes a"
proof (cases "validatePublishRequest H a req")
  case (Some e)
  then show ?thesis by (simp add: publishDecoded_def)
next
  case None
  obtain ok a1 w1 where s: "subjectAllowed d (prSubject req) a w = (ok, a1, w1)" by (metis surj_pair)
  have l1: "lanes a1 = lanes a" using subjectAllowed_lanes s by (metis fst_conv snd_conv)
  obtain t w2 where t: "nowOp d w1 = (t, w2)" by fastforce
  obtain q a3 w3 where q: "storeAppendEventExactlyOnce d (zeroEvent\<lparr>evIdempotencyKey := prIdempotencyKey req, evStream := prStream req,
      evSubject := prSubject req, evType := prType req, evPayload := prPayload req, evOccurredAt := t\<rparr>) a1 w2 = (q, a3, w3)"
    by (metis surj_pair)
  have l3: "lanes a3 = lanes a" using storeCall_lanes q l1 unfolding storeAppendEventExactlyOnce_def by (metis fst_conv snd_conv)
  show ?thesis using None s t q l1 l3
    by (cases ok; cases q) (auto simp: publishDecoded_def Let_def publishStored_lanes)
qed

lemma publishInLane_lanes: "lanes (fst (snd (publishInLane d H r rw a w))) = lanes a"
  using publishDecoded_lanes by (auto simp: publishInLane_def split: sum.splits)

text \<open>Acquiring and releasing a slot around a computation that keeps the lanes.\<close>

lemma acquire_release: "0 \<le> taken g \<Longrightarrow> acquireGuard g = (True, g') \<Longrightarrow> releaseGuard g' = g"
  by (auto simp: acquireGuard_def releaseGuard_def split: if_splits)

lemma acquire_refused: "acquireGuard g = (False, g') \<Longrightarrow> g' = g"
  by (auto simp: acquireGuard_def split: if_splits)

lemma keeps_lanesI: "(\<And>r rw a w. lanes_ok a \<Longrightarrow> lanes (fst (snd (h r rw a w))) = lanes a) \<Longrightarrow> keeps_lanes h"
  by (simp add: keeps_lanes_def)

lemma keeps_lanesE: "keeps_lanes h \<Longrightarrow> lanes_ok a \<Longrightarrow> lanes (fst (snd (h r rw a w))) = lanes a"
  by (simp add: keeps_lanes_def)

lemma handlePublishEvent_lanes: "keeps_lanes (handlePublishEvent (d :: ('w, 'l) deps) H)"
proof (rule keeps_lanesI)
  fix r rw w and a :: "'l App"
  assume ok: "lanes_ok a"
  obtain b g where g: "acquireGuard (pubGuard a) = (b, g)" by fastforce
  obtain rw1 a1 w1 where p: "publishInLane d H r rw (a\<lparr>pubGuard := g\<rparr>) w = (rw1, a1, w1)" by (metis surj_pair)
  have "lanes a1 = lanes (a\<lparr>pubGuard := g\<rparr>)" using publishInLane_lanes p by (metis fst_conv snd_conv)
  with g p ok show "lanes (fst (snd (handlePublishEvent d H r rw a w))) = lanes a"
    using acquire_release[of "pubGuard a" g] acquire_refused[of "pubGuard a" g]
    by (cases b) (auto simp: handlePublishEvent_def lanes_def lanes_ok_def)
qed

lemma handleListEvents_lanes: "keeps_lanes (handleListEvents (d :: ('w, 'l) deps))"
proof (rule keeps_lanesI)
  fix r rw w and a :: "'l App"
  assume ok: "lanes_ok a"
  obtain b g where g: "acquireGuard (queryGuard a) = (b, g)" by fastforce
  obtain q a2 w2 where p: "storeRecentEvents d (if rqQuery r ''stream'' = [] then ''default'' else rqQuery r ''stream'')
      (queryLimit r) (a\<lparr>queryGuard := g\<rparr>) w = (q, a2, w2)" by (metis surj_pair)
  have "lanes a2 = lanes (a\<lparr>queryGuard := g\<rparr>)"
    using storeCall_lanes p unfolding storeRecentEvents_def by (metis fst_conv snd_conv)
  with g p ok show "lanes (fst (snd (handleListEvents d r rw a w))) = lanes a"
    using acquire_release[of "queryGuard a" g] acquire_refused[of "queryGuard a" g]
    by (cases b; cases q) (auto simp: handleListEvents_def Let_def lanes_def lanes_ok_def)
qed

lemma handleEvents_lanes: "keeps_lanes (handleEvents d H)"
  using handlePublishEvent_lanes[of d H] handleListEvents_lanes[of d] by (auto simp: keeps_lanes_def handleEvents_def)

lemma probeModule_lanes: "lanes (fst (snd (probeModule d m a w))) = lanes a"
  by (auto simp: probeModule_def Let_def split: prod.splits sum.splits option.splits)

lemma healthLoop_lanes: "lanes (fst (snd (healthLoop d ms rdy st a w))) = lanes a"
proof (induction ms arbitrary: rdy st a w)
  case (Cons m ms)
  obtain p a1 w1 where q: "probeModule d m a w = (p, a1, w1)" by (metis surj_pair)
  then have "lanes a1 = lanes a" using probeModule_lanes by (metis fst_conv snd_conv)
  with Cons q show ?case by (cases p) simp
qed simp

lemma streamLoop_lanes: "lanes (fst (snd (streamLoop d c ms rw a w))) = lanes a"
proof (induction ms arbitrary: rw a w)
  case (Cons m ms)
  obtain q a1 w1 where p: "storeClaimInboxMessage d c (bmMessageID m) a w = (q, a1, w1)" by (metis surj_pair)
  then have "lanes a1 = lanes a" using storeCall_lanes unfolding storeClaimInboxMessage_def by (metis fst_conv snd_conv)
  with Cons p show ?case by (auto split: sum.splits bool.splits)
qed simp

lemma probes_lanes:
  "keeps_lanes (handleHealth d)" "keeps_lanes (handleLive d)" "keeps_lanes (handleStartup d)" "keeps_lanes (handleLeader d)"
  "keeps_lanes (handleDeadLetters d)" "keeps_lanes (handleReplayDeadLetter d)" "keeps_lanes handleOutboxRelayAdmin"
  "keeps_lanes (handleStream d H)" "keeps_lanes (redirectHandler H p)"
proof -
  show "keeps_lanes (handleHealth d)"
  proof (rule keeps_lanesI)
    fix r rw a w
    obtain q a1 w1 where p: "healthLoop d (mods d) True [] a w = (q, a1, w1)" by (metis surj_pair)
    then have "lanes a1 = lanes a" using healthLoop_lanes by (metis fst_conv snd_conv)
    with p show "lanes (fst (snd (handleHealth d r rw a w))) = lanes a"
      by (cases q) (auto simp: handleHealth_def Let_def split: prod.splits)
  qed
  show "keeps_lanes (handleLive d)" "keeps_lanes (handleStartup d)" "keeps_lanes (handleLeader d)"
    by (auto simp: keeps_lanes_def handleLive_def handleStartup_def handleLeader_def nodeStatus_def Let_def split: prod.splits)
  show "keeps_lanes (handleDeadLetters d)" "keeps_lanes (handleReplayDeadLetter d)"
    by (auto simp: keeps_lanes_def handleDeadLetters_def handleReplayDeadLetter_def Let_def split: option.splits prod.splits sum.splits)
  show "keeps_lanes handleOutboxRelayAdmin" "keeps_lanes (redirectHandler H p)"
    by (auto simp: keeps_lanes_def handleOutboxRelayAdmin_def redirectHandler_def Let_def)
  show "keeps_lanes (handleStream d H)"
    by (auto simp: keeps_lanes_def handleStream_def Let_def streamLoop_lanes split: option.splits prod.splits sum.splits)
qed

lemma secure_lanes:
  assumes "keeps_lanes h"
  shows "keeps_lanes (secure (d :: ('w, 'l) deps) s h)"
proof (rule keeps_lanesI)
  fix r rw w and a :: "'l App"
  assume ok: "lanes_ok a"
  show "lanes (fst (snd (secure d s h r rw a w))) = lanes a"
  proof (cases "granted d s r a w")
    case True
    from secure_granted[OF True, of rw] obtain g w' where "secure d s h r rw a w = h r rw (a\<lparr>authGuard := g\<rparr>) w'" by blast
    moreover have "lanes_ok (a\<lparr>authGuard := g\<rparr>)" using ok by (simp add: lanes_ok_def)
    ultimately show ?thesis using assms unfolding keeps_lanes_def by (metis lanes_upd(6))
  next
    case False
    from secure_denied[OF False, of rw] obtain msg code g w' where
      "secure d s h r rw a w = (http_Error msg code rw, a\<lparr>authGuard := g\<rparr>, w')" by (elim exE conjE) simp
    then show ?thesis by simp
  qed
qed

lemma mux_lanes:
  assumes "keeps_lanes (metricsHandler H)"
  shows "keeps_lanes (mux (d :: ('w, 'l) deps) H)"
proof (rule keeps_lanesI)
  fix r rw w and a :: "'l App"
  assume ok: "lanes_ok a"
  note k = keeps_lanesE[OF _ ok]
  show "lanes (fst (snd (mux d H r rw a w))) = lanes a"
    unfolding mux_def Let_def
    by (simp add: k[OF assms] k[OF probes_lanes(1)] k[OF probes_lanes(2)] k[OF probes_lanes(3)]
      k[OF secure_lanes[OF probes_lanes(4)]] k[OF secure_lanes[OF probes_lanes(5)]] k[OF secure_lanes[OF probes_lanes(6)]]
      k[OF secure_lanes[OF probes_lanes(7)]] k[OF secure_lanes[OF probes_lanes(8)]] k[OF probes_lanes(9)]
      k[OF secure_lanes[OF handleEvents_lanes]])
qed

lemma instrument_lanes: "keeps_lanes h \<Longrightarrow> keeps_lanes (instrument h)"
  by (auto simp: keeps_lanes_def instrument_def Let_def split: prod.splits) (metis fst_conv snd_conv)+

lemma withRateLimit_lanes:
  assumes "keeps_lanes (h :: ('w, 'l) handler)"
  shows "keeps_lanes (withRateLimit d h)"
proof (rule keeps_lanesI)
  fix r rw w and a :: "'l App"
  assume ok: "lanes_ok a"
  then have "lanes_ok (a\<lparr>limiter := l\<rparr>)" for l by (simp add: lanes_ok_def)
  then have "lanes (fst (snd (h r rw (a\<lparr>limiter := l\<rparr>) w'))) = lanes a" for l w' using keeps_lanesE[OF assms] by simp
  then show "lanes (fst (snd (withRateLimit d h r rw a w))) = lanes a"
    by (auto simp: withRateLimit_def Let_def split: prod.splits)
qed

lemma withConcurrencyLimit_lanes:
  assumes "keeps_lanes (h :: ('w, 'l) handler)"
  shows "keeps_lanes (withConcurrencyLimit h)"
proof (rule keeps_lanesI)
  fix r rw w and a :: "'l App"
  assume ok: "lanes_ok a"
  obtain b g where g: "acquireGuard (appGuard a) = (b, g)" by fastforce
  obtain rw1 a1 w1 where p: "h r rw (a\<lparr>appGuard := g\<rparr>) w = (rw1, a1, w1)" by (metis surj_pair)
  show "lanes (fst (snd (withConcurrencyLimit h r rw a w))) = lanes a"
  proof (cases b)
    case True
    with g ok have "lanes_ok (a\<lparr>appGuard := g\<rparr>)" by (auto simp: acquireGuard_def lanes_ok_def split: if_splits)
    from keeps_lanesD[OF assms p this] True g p ok acquire_release[of "appGuard a" g] show ?thesis
      by (auto simp: withConcurrencyLimit_def lanes_def lanes_ok_def)
  qed (use g in \<open>simp add: withConcurrencyLimit_def\<close>)
qed

lemma outer_lanes:
  assumes "keeps_lanes h"
  shows "keeps_lanes (withRequestTimeout H h)" "keeps_lanes (withRequestID d H h)" "keeps_lanes (withSecurityHeaders h)"
    "keeps_lanes (withCORS h)" "keeps_lanes (withRecovery h)"
proof -
  note k = keeps_lanesD[OF assms]
  have "keeps_lanes (timeoutHandler H h)"
    by (auto simp: keeps_lanes_def timeoutHandler_def Let_def split: prod.splits dest: k)
  then show "keeps_lanes (withRequestTimeout H h)"
    using assms by (simp add: keeps_lanes_def withRequestTimeout_def)
  show "keeps_lanes (withRequestID d H h)" "keeps_lanes (withSecurityHeaders h)" "keeps_lanes (withCORS h)"
    using assms by (auto simp: keeps_lanes_def withRequestID_def withSecurityHeaders_def withCORS_def Let_def split: prod.splits)
  show "keeps_lanes (withRecovery h)"
    by (auto simp: keeps_lanes_def withRecovery_def Let_def split: prod.splits dest: k)
qed

lemma root_lanes: "keeps_lanes (metricsHandler H) \<Longrightarrow> keeps_lanes (rootHandler d H)"
  unfolding rootHandler_def
  by (intro outer_lanes withConcurrencyLimit_lanes withRateLimit_lanes instrument_lanes mux_lanes)


section \<open>Headers\<close>

text \<open>What a handler may do to a header that is to have the value \<open>v\<close>: leave it or set it to \<open>v\<close>, also in what it
  sends; what has been sent stays.\<close>

definition hdr_kept :: "string \<Rightarrow> string \<Rightarrow> RW \<Rightarrow> RW \<Rightarrow> bool" where
  "hdr_kept k v rw rw' \<longleftrightarrow>
     (rwHeader rw' k = rwHeader rw k \<or> rwHeader rw' k = Some v) \<and>
     (case rwSent rw of
        Some s \<Rightarrow> rwSent rw' = Some s
      | None \<Rightarrow> \<forall>c h. rwSent rw' = Some (c, h) \<longrightarrow> h k = rwHeader rw k \<or> h k = Some v)"

definition keeps_hdr :: "string \<Rightarrow> string \<Rightarrow> ('w, 'l) handler \<Rightarrow> bool" where
  "keeps_hdr k v h \<longleftrightarrow> (\<forall>r rw a w. hdr_kept k v rw (fst (h r rw a w)))"

lemma hdr_kept_refl [simp]: "hdr_kept k v rw rw"
  by (simp add: hdr_kept_def split: option.splits)

lemma hdr_kept_trans: "hdr_kept k v rw rw1 \<Longrightarrow> hdr_kept k v rw1 rw2 \<Longrightarrow> hdr_kept k v rw rw2"
  unfolding hdr_kept_def by (cases "rwSent rw"; cases "rwSent rw1") auto

lemma hdr_kept_set: "k' \<noteq> k \<or> v' = v \<Longrightarrow> hdr_kept k v rw (setHeader k' v' rw)"
  by (auto simp: hdr_kept_def setHeader_def split: option.splits)

lemma hdr_kept_write:
  "hdr_kept k v rw (WriteHeader c rw)" "hdr_kept k v rw (writeBody b rw)"
  by (auto simp: hdr_kept_def WriteHeader_def writeBody_def split: option.splits)

lemma hdr_kept_fields [simp]:
  "hdr_kept k v (rw\<lparr>rwRec := n, rwFlusher := f\<rparr>) rw' = hdr_kept k v rw rw'"
  "hdr_kept k v (rw\<lparr>rwPanic := p\<rparr>) rw' = hdr_kept k v rw rw'"
  "hdr_kept k v rw (rw'\<lparr>rwFlusher := f\<rparr>) = hdr_kept k v rw rw'"
  "hdr_kept k v rw (rw'\<lparr>rwPanic := p\<rparr>) = hdr_kept k v rw rw'"
  "hdr_kept k v rw (rw'\<lparr>rwBody := b\<rparr>) = hdr_kept k v rw rw'"
  by (simp_all add: hdr_kept_def split: option.splits)

text \<open>The headers the handlers set themselves.\<close>

definition free_hdr :: "string \<Rightarrow> string \<Rightarrow> bool" where
  "free_hdr k v \<longleftrightarrow> k \<notin> {''Content-Type'', ''Location'', ''Cache-Control'', ''Connection''} \<and>
     (k = ''X-Content-Type-Options'' \<longrightarrow> v = ''nosniff'')"

lemma hdr_kept_error: "free_hdr k v \<Longrightarrow> hdr_kept k v rw (http_Error m c rw)"
  unfolding http_Error_def
  by (rule hdr_kept_trans[OF _ hdr_kept_write(2)], rule hdr_kept_trans[OF _ hdr_kept_write(1)],
      rule hdr_kept_trans[OF _ hdr_kept_set], rule hdr_kept_set) (auto simp: free_hdr_def)

lemma hdr_kept_json: "free_hdr k v \<Longrightarrow> hdr_kept k v rw (writeJSON c j rw)"
  unfolding writeJSON_def
  by (rule hdr_kept_trans[OF _ hdr_kept_write(2)], rule hdr_kept_trans[OF _ hdr_kept_write(1)],
      rule hdr_kept_set) (auto simp: free_hdr_def)

lemmas hdr_kept_out = hdr_kept_error hdr_kept_json

lemma publishStored_hdr: "free_hdr k v \<Longrightarrow> hdr_kept k v rw (fst (publishStored d res rw a w))"
  by (auto simp: publishStored_def publishedResponse_def Let_def hdr_kept_out split: prod.splits sum.splits)

lemma publishDecoded_hdr: "free_hdr k v \<Longrightarrow> hdr_kept k v rw (fst (publishDecoded d H req rw a w))"
  by (auto simp: publishDecoded_def Let_def hdr_kept_out publishStored_hdr split: prod.splits sum.splits option.splits)

lemma publishInLane_hdr: "free_hdr k v \<Longrightarrow> hdr_kept k v rw (fst (publishInLane d H r rw a w))"
  by (auto simp: publishInLane_def hdr_kept_out publishDecoded_hdr split: sum.splits)

lemma handleEvents_hdr: "free_hdr k v \<Longrightarrow> keeps_hdr k v (handleEvents d H)"
proof -
  assume f: "free_hdr k v"
  have "hdr_kept k v rw (fst (handlePublishEvent d H r rw a w))" for r rw a w
  proof -
    obtain b g where g: "acquireGuard (pubGuard a) = (b, g)" by fastforce
    obtain x where p: "publishInLane d H r rw (a\<lparr>pubGuard := g\<rparr>) w = x" by blast
    show ?thesis using g p publishInLane_hdr[OF f, of rw d H r "a\<lparr>pubGuard := g\<rparr>" w]
      by (cases x) (auto simp: handlePublishEvent_def hdr_kept_out[OF f])
  qed
  moreover have "hdr_kept k v rw (fst (handleListEvents d r rw a w))" for r rw a w
    by (auto simp: handleListEvents_def Let_def hdr_kept_out[OF f] split: prod.splits sum.splits)
  ultimately show ?thesis by (auto simp: keeps_hdr_def handleEvents_def hdr_kept_out[OF f])
qed

lemma streamLoop_hdr: "hdr_kept k v rw (fst (streamLoop d c ms rw a w))"
proof (induction ms arbitrary: rw a w)
  case (Cons m ms)
  have "hdr_kept k v rw (fst (streamLoop d c ms (writeBody (sseEvent m) rw) a w))" for a w
    by (rule hdr_kept_trans[OF hdr_kept_write(2) Cons])
  with Cons show ?case by (auto split: prod.splits sum.splits bool.splits)
qed simp

lemma probes_hdr:
  assumes f: "free_hdr k v"
  shows "keeps_hdr k v (handleHealth d)" "keeps_hdr k v (handleLive d)" "keeps_hdr k v (handleStartup d)"
    "keeps_hdr k v (handleLeader d)" "keeps_hdr k v (handleDeadLetters d)" "keeps_hdr k v (handleReplayDeadLetter d)"
    "keeps_hdr k v handleOutboxRelayAdmin" "keeps_hdr k v (redirectHandler H p)" "keeps_hdr k v (handleStream d H)"
proof -
  note o = hdr_kept_out[OF f]
  show "keeps_hdr k v (handleHealth d)" "keeps_hdr k v (handleLive d)" "keeps_hdr k v (handleStartup d)"
    "keeps_hdr k v (handleLeader d)"
    by (auto simp: keeps_hdr_def handleHealth_def handleLive_def handleStartup_def handleLeader_def nodeStatus_def Let_def o
        split: prod.splits)
  show "keeps_hdr k v (handleDeadLetters d)" "keeps_hdr k v (handleReplayDeadLetter d)" "keeps_hdr k v handleOutboxRelayAdmin"
    by (auto simp: keeps_hdr_def handleDeadLetters_def handleReplayDeadLetter_def handleOutboxRelayAdmin_def Let_def o
        split: option.splits prod.splits sum.splits)
  have set: "hdr_kept k v rw (setHeader k' v' rw)"
    if "k' \<in> {''Content-Type'', ''Location'', ''Cache-Control'', ''Connection''}" for k' v' rw
    using that f by (intro hdr_kept_set) (auto simp: free_hdr_def)
  note steps = hdr_kept_trans[OF _ hdr_kept_write(2)] hdr_kept_trans[OF _ hdr_kept_write(1)] hdr_kept_trans[OF _ set]
  show "keeps_hdr k v (redirectHandler H p)"
    by (auto simp: keeps_hdr_def redirectHandler_def Let_def intro!: steps set)
  have "hdr_kept k v rw (setHeader ''Connection'' c1 (setHeader ''Cache-Control'' c2 (setHeader ''Content-Type'' c3 rw)))"
    for rw c1 c2 c3 by (intro steps set) auto
  note out = hdr_kept_trans[OF this streamLoop_hdr] hdr_kept_trans[OF this o(1)]
  show "keeps_hdr k v (handleStream d H)"
    by (auto simp: keeps_hdr_def handleStream_def Let_def o(1) out split: option.splits prod.splits sum.splits)
qed

lemma secure_hdr:
  assumes f: "free_hdr k v" and h: "keeps_hdr k v h"
  shows "keeps_hdr k v (secure d s h)"
  using h by (auto simp: keeps_hdr_def secure_def Let_def denyAuth_def hdr_kept_out[OF f] split: prod.splits)

lemma keeps_hdrE: "keeps_hdr k v h \<Longrightarrow> hdr_kept k v rw (fst (h r rw a w))"
  by (simp add: keeps_hdr_def)

lemma mux_hdr:
  assumes f: "free_hdr k v" and m: "keeps_hdr k v (metricsHandler H)"
  shows "keeps_hdr k v (mux d H)"
proof -
  note e = keeps_hdrE and p = probes_hdr[OF f] and s = secure_hdr[OF f]
  have "hdr_kept k v rw (fst (mux d H r rw a w))" for r rw a w
    unfolding mux_def Let_def
    by (simp add: e[OF m] e[OF p(1)] e[OF p(2)] e[OF p(3)] e[OF p(8)] e[OF s[OF p(4)]] e[OF s[OF p(5)]] e[OF s[OF p(6)]]
      e[OF s[OF p(7)]] e[OF s[OF p(9)]] e[OF s[OF handleEvents_hdr[OF f]]] hdr_kept_out[OF f])
  then show ?thesis by (simp add: keeps_hdr_def)
qed

lemma inner_hdr:
  assumes f: "free_hdr k v" and h: "keeps_hdr k v h"
  shows "keeps_hdr k v (instrument h)" "keeps_hdr k v (withRateLimit d h)" "keeps_hdr k v (withConcurrencyLimit h)"
proof -
  have "hdr_kept k v rw (fst (instrument h r rw a w))" for r rw a w
    using keeps_hdrE[OF h, of "rw\<lparr>rwRec := 200, rwFlusher := False\<rparr>" r a w]
    by (auto simp: instrument_def Let_def split: prod.splits)
  then show "keeps_hdr k v (instrument h)" by (simp add: keeps_hdr_def)
  show "keeps_hdr k v (withRateLimit d h)"
    by (auto simp: keeps_hdr_def withRateLimit_def Let_def hdr_kept_out[OF f] keeps_hdrE[OF h] split: prod.splits)
  have "hdr_kept k v rw (fst (withConcurrencyLimit h r rw a w))" for r rw a w
    using keeps_hdrE[OF h, of rw r "a\<lparr>appGuard := snd (acquireGuard (appGuard a))\<rparr>" w]
    by (auto simp: withConcurrencyLimit_def Let_def hdr_kept_out[OF f] split: prod.splits)
  then show "keeps_hdr k v (withConcurrencyLimit h)" by (simp add: keeps_hdr_def)
qed

lemma timeout_hdr:
  assumes h: "keeps_hdr k v h"
  shows "keeps_hdr k v (withRequestTimeout H h)"
proof -
  have "hdr_kept k v rw (fst (timeoutHandler H h r rw a w))" for r rw a w
  proof -
    obtain tw a1 w1 where t: "h r (newRW\<lparr>rwFlusher := False\<rparr>) a w = (tw, a1, w1)" by (metis surj_pair)
    have "rwHeader tw k = None \<or> rwHeader tw k = Some v"
      using keeps_hdrE[OF h, of "newRW\<lparr>rwFlusher := False\<rparr>" r a w] t by (auto simp: hdr_kept_def newRW_def)
    then have "hdr_kept k v rw (rw\<lparr>rwHeader := rwHeader rw ++ rwHeader tw\<rparr>)"
      by (auto simp: hdr_kept_def map_add_def split: option.splits)
    with t show ?thesis
      by (auto simp: timeoutHandler_def Let_def intro: hdr_kept_trans[OF _ hdr_kept_write(1)]
        hdr_kept_trans[OF hdr_kept_write(1) hdr_kept_write(2)])
  qed
  then show ?thesis using keeps_hdrE[OF h] by (simp add: keeps_hdr_def withRequestTimeout_def)
qed

text \<open>What the client gets: a handler that writes nothing sends 200 with the headers set.\<close>

definition response :: "RW \<Rightarrow> int \<times> (string \<rightharpoonup> string)" where
  "response rw = (case rwSent rw of Some s \<Rightarrow> s | None \<Rightarrow> (200, rwHeader rw))"

lemma hdr_kept_response:
  "hdr_kept k v rw rw' \<Longrightarrow> rwSent rw = None \<Longrightarrow> rwHeader rw k = Some v \<Longrightarrow> snd (response rw') k = Some v"
  by (auto simp: hdr_kept_def response_def split: option.splits)

lemma recovery_hdr: "free_hdr k v \<Longrightarrow> keeps_hdr k v h \<Longrightarrow> keeps_hdr k v (withRecovery h)"
proof -
  assume f: "free_hdr k v" and h: "keeps_hdr k v h"
  have "hdr_kept k v rw (fst (withRecovery h r rw a w))" for r rw a w
    using keeps_hdrE[OF h, of rw r a w] hdr_kept_trans[OF _ hdr_kept_error[OF f]]
    by (auto simp: withRecovery_def Let_def split: prod.splits)
  then show ?thesis by (simp add: keeps_hdr_def)
qed

text \<open>The chain below the headers.\<close>

abbreviation innerChain :: "('w, 'l) deps \<Rightarrow> ('w, 'l) http_lib \<Rightarrow> ('w, 'l) handler" where
  "innerChain d H \<equiv> withRequestTimeout H (withConcurrencyLimit (withRateLimit d (instrument (mux d H))))"

lemma innerChain_hdr:
  "free_hdr k v \<Longrightarrow> keeps_hdr k v (metricsHandler H) \<Longrightarrow> keeps_hdr k v (innerChain d H)"
  by (intro timeout_hdr inner_hdr mux_hdr)

lemma root_chain:
  assumes "\<not> (CORSEnabled (cfg a) \<and> rqMethod r = ''OPTIONS'')" and "rootHandler d H r newRW a w = (rw', a', w')"
  obtains rw0 rid w1 where "rwSent rw0 = None \<and> rwBody rw0 = [] \<and> \<not> rwPanic rw0"
    and "rw' = fst (withRecovery (\<lambda>r rw a w. innerChain d H r rw a w) (r\<lparr>rqRequestID := rid\<rparr>)
          (setHeader ''X-Request-Id'' rid (if SecurityHeadersEnabled (cfg a) then securityHeaders (cfg a) rw0 else rw0)) a w1)"
    and "TrimSpace (rqHeader r ''X-Request-Id'') \<noteq> [] \<Longrightarrow> rid = TrimSpace (rqHeader r ''X-Request-Id'')"
proof -
  let ?rid0 = "TrimSpace (rqHeader r ''X-Request-Id'')"
  obtain rid w1 where rid: "(if ?rid0 = [] then newRequestID d H w else (?rid0, w)) = (rid, w1)" by fastforce
  define rw0 where "rw0 = (if CORSEnabled (cfg a) \<and> TrimSpace (rqHeader r ''Origin'') \<noteq> [] \<and>
      isAllowedOrigin (TrimSpace (rqHeader r ''Origin'')) (CORSAllowedOrigins (cfg a))
    then corsHeaders (cfg a) (TrimSpace (rqHeader r ''Origin'')) newRW else newRW)"
  have s: "rwSent rw0 = None \<and> rwBody rw0 = [] \<and> \<not> rwPanic rw0" by (simp add: rw0_def corsHeaders_def setHeader_def newRW_def)
  have "withCORS (withSecurityHeaders (withRequestID d H (innerChain d H))) r newRW a w =
      innerChain d H (r\<lparr>rqRequestID := rid\<rparr>)
        (setHeader ''X-Request-Id'' rid (if SecurityHeadersEnabled (cfg a) then securityHeaders (cfg a) rw0 else rw0)) a w1"
    using assms(1) rid by (auto simp: withCORS_def withSecurityHeaders_def withRequestID_def rw0_def Let_def)
  with assms(2) have "rw' = fst (withRecovery (\<lambda>r rw a w. innerChain d H r rw a w) (r\<lparr>rqRequestID := rid\<rparr>)
          (setHeader ''X-Request-Id'' rid (if SecurityHeadersEnabled (cfg a) then securityHeaders (cfg a) rw0 else rw0)) a w1)"
    by (auto simp: rootHandler_def withRecovery_def)
  from that[OF s this] rid show thesis by (auto split: if_splits)
qed

section \<open>A concrete core\<close>

text \<open>A core with a clock and nothing else, and a configuration from an empty environment, to apply the theorems to.\<close>

definition clockDeps :: "(int, int) deps" where
  "clockDeps = \<lparr>bus = None, coord = None, store = None, adv = None, mods = [], nowOp = (\<lambda>w. (w, w + 1)),
     waitTimer = (\<lambda>t w. (None, w + t)), rateLib = counter_lib, rangeOrd = (\<lambda>xs. xs)\<rparr>"

definition plainHttp :: "(int, int) http_lib" where
  "plainHttp = \<lparr>quoted = (\<lambda>s. s),
     urlString = (\<lambda>p _. p), randHex = (\<lambda>w. (Some ''abc'', w)), timedOut = (\<lambda>_ _. False),
     messages = (\<lambda>_ _. []), metricsHandler = (\<lambda>r rw a w. (writeBody (Text ''metrics'') rw, a, w))\<rparr>"

definition app0 :: "int App" where
  "app0 = New (FromEnv (\<lambda>_. []) (Inr ''node'')) [] 0"

definition get :: "string \<Rightarrow> Request" where
  "get p = \<lparr>rqMethod = ''GET'', rqPath = p, rqHeader = (\<lambda>_. []), rqQuery = (\<lambda>_. []), rqBody = [],
     rqRemoteAddr = ''10.0.0.1:5000'', rqRequestID = []\<rparr>"

lemma plain_metrics: "keeps_lanes (metricsHandler plainHttp)" "keeps_hdr k v (metricsHandler plainHttp)"
  by (simp_all add: plainHttp_def keeps_lanes_def keeps_hdr_def hdr_kept_write)


text \<open>C29: Security headers. With the security headers on, every response other than the answer to a CORS preflight
  forbids framing, content sniffing and referrers, carries the transport security and content security policies that are
  configured, and echoes the client's request id or a new one: on every route, for every outcome,
  time-outs and panics included.\<close>

theorem security_headers:
  assumes "\<And>k v. k \<in> {''X-Frame-Options'', ''X-Content-Type-Options'', ''Referrer-Policy'', ''Strict-Transport-Security'',
      ''Content-Security-Policy'', ''X-Request-Id''} \<Longrightarrow> free_hdr k v \<Longrightarrow> keeps_hdr k v (metricsHandler H)"
    and "SecurityHeadersEnabled (cfg a)" and "\<not> (CORSEnabled (cfg a) \<and> rqMethod r = ''OPTIONS'')"
    and "rootHandler d H r newRW a w = (rw', a', w')"
  shows "let hdr = snd (response rw') in
     hdr ''X-Frame-Options'' = Some ''DENY'' \<and> hdr ''X-Content-Type-Options'' = Some ''nosniff'' \<and>
     hdr ''Referrer-Policy'' = Some ''no-referrer'' \<and>
     (HSTSEnabled (cfg a) \<longrightarrow> hdr ''Strict-Transport-Security'' = Some ''max-age=31536000; includeSubDomains'') \<and>
     (TrimSpace (CSPHeader (cfg a)) \<noteq> [] \<longrightarrow> hdr ''Content-Security-Policy'' = Some (CSPHeader (cfg a))) \<and>
     hdr ''X-Request-Id'' \<noteq> None \<and>
     (TrimSpace (rqHeader r ''X-Request-Id'') \<noteq> [] \<longrightarrow> hdr ''X-Request-Id'' = Some (TrimSpace (rqHeader r ''X-Request-Id'')))"
proof (rule root_chain[OF assms(3,4)])
  fix rw0 rid w1
  assume s: "rwSent rw0 = None \<and> rwBody rw0 = [] \<and> \<not> rwPanic rw0"
    and r0: "rw' = fst (withRecovery (\<lambda>r rw a w. innerChain d H r rw a w) (r\<lparr>rqRequestID := rid\<rparr>)
          (setHeader ''X-Request-Id'' rid (if SecurityHeadersEnabled (cfg a) then securityHeaders (cfg a) rw0 else rw0)) a w1)"
    and rid: "TrimSpace (rqHeader r ''X-Request-Id'') \<noteq> [] \<Longrightarrow> rid = TrimSpace (rqHeader r ''X-Request-Id'')"
  have r: "rw' = fst (withRecovery (\<lambda>r rw a w. innerChain d H r rw a w) (r\<lparr>rqRequestID := rid\<rparr>)
          (setHeader ''X-Request-Id'' rid (securityHeaders (cfg a) rw0)) a w1)"
    using r0 assms(2) by (simp only: if_True)
  let ?rw = "setHeader ''X-Request-Id'' rid (securityHeaders (cfg a) rw0)"
  have sent: "rwSent ?rw = None" using s by (simp add: setHeader_def securityHeaders_def Let_def)
  have kept: "snd (response rw') k = Some v" if "k \<in> {''X-Frame-Options'', ''X-Content-Type-Options'', ''Referrer-Policy'',
      ''Strict-Transport-Security'', ''Content-Security-Policy'', ''X-Request-Id''}" "free_hdr k v" "rwHeader ?rw k = Some v" for k v
  proof -
    have "keeps_hdr k v (withRecovery (\<lambda>r rw a w. innerChain d H r rw a w))"
      using recovery_hdr[OF that(2) innerChain_hdr[OF that(2) assms(1)[OF that(1,2)]], of d] by simp
    from hdr_kept_response[OF keeps_hdrE[OF this] sent that(3)] r show ?thesis by simp
  qed
  have "rwHeader ?rw ''X-Frame-Options'' = Some ''DENY''" "rwHeader ?rw ''X-Content-Type-Options'' = Some ''nosniff''"
    "rwHeader ?rw ''Referrer-Policy'' = Some ''no-referrer''" "rwHeader ?rw ''X-Request-Id'' = Some rid"
    "HSTSEnabled (cfg a) \<Longrightarrow> rwHeader ?rw ''Strict-Transport-Security'' = Some ''max-age=31536000; includeSubDomains''"
    "TrimSpace (CSPHeader (cfg a)) \<noteq> [] \<Longrightarrow> rwHeader ?rw ''Content-Security-Policy'' = Some (CSPHeader (cfg a))"
    by (simp_all add: setHeader_def securityHeaders_def Let_def)
  note h = this
  have "free_hdr ''X-Frame-Options'' v" "free_hdr ''X-Content-Type-Options'' ''nosniff''" "free_hdr ''Referrer-Policy'' v"
    "free_hdr ''X-Request-Id'' v" "free_hdr ''Strict-Transport-Security'' v" "free_hdr ''Content-Security-Policy'' v" for v
    by (simp_all add: free_hdr_def)
  note f = this
  show ?thesis unfolding Let_def
    using kept[OF _ f(1) h(1)] kept[OF _ f(2) h(2)] kept[OF _ f(3) h(3)] kept[OF _ f(4) h(4)] kept[OF _ f(5) h(5)]
      kept[OF _ f(6) h(6)] rid by simp
qed

theorem security_headers_witness:
  "let (rw, a, w) = rootHandler clockDeps plainHttp (get ''/livez'') newRW app0 0
   in snd (response rw) ''X-Frame-Options'' = Some ''DENY'' \<and> snd (response rw) ''X-Request-Id'' \<noteq> None"
proof -
  obtain rw a w where r: "rootHandler clockDeps plainHttp (get ''/livez'') newRW app0 0 = (rw, a, w)" by (metis surj_pair)
  have "SecurityHeadersEnabled (cfg app0)" by (simp add: app0_def New_def FromEnv_def boolOr_def ToLower_def Let_def)
  moreover have "\<not> (CORSEnabled (cfg app0) \<and> rqMethod (get ''/livez'') = ''OPTIONS'')" by (simp add: get_def)
  ultimately show ?thesis using security_headers[OF plain_metrics(2) _ _ r] r by (simp add: Let_def)
qed

section \<open>The event stream\<close>

text \<open>An answer with an error: a code of the list, nothing but text in the body.\<close>

definition refused :: "int set \<Rightarrow> RW \<Rightarrow> bool" where
  "refused codes rw \<longleftrightarrow> fst (response rw) \<in> codes \<and> (\<forall>b \<in> set (rwBody rw). \<exists>m. b = Text m) \<and> \<not> rwPanic rw"

lemma refused_error:
  "rwSent rw = None \<Longrightarrow> rwBody rw = [] \<Longrightarrow> \<not> rwPanic rw \<Longrightarrow> c \<in> codes \<Longrightarrow> refused codes (http_Error m c rw)"
  by (simp add: refused_def response_def http_Error_def writeBody_def WriteHeader_def setHeader_def)

abbreviation (input) unsent :: "RW \<Rightarrow> bool" where "unsent rw \<equiv> rwSent rw = None \<and> rwBody rw = [] \<and> \<not> rwPanic rw"

lemma mux_stream:
  assumes "rqPath r = ''/stream''" and "unsent rw" and "\<not> rwFlusher rw"
  shows "refused {401, 403, 429, 500} (fst (mux d H r rw a w))"
proof -
  have c: "cleanPath ''/stream'' = ''/stream''" by code_simp
  have m: "mux d H r rw a w = secure d ScopeRead (handleStream d H) r rw a w" by (simp add: mux_def assms(1) c)
  show ?thesis
  proof (cases "granted d ScopeRead r a w")
    case True
    obtain g w' where "\<forall>nxt. secure d ScopeRead nxt r rw a w = nxt r rw (a\<lparr>authGuard := g\<rparr>) w'"
      using secure_granted[OF True, of rw] by (elim exE)
    then show ?thesis using assms m
      by (auto simp: handleStream_def Let_def intro!: refused_error split: option.splits)
  next
    case False
    from secure_denied[OF False, of rw] obtain msg code g w' where
      "\<forall>nxt. secure d ScopeRead nxt r rw a w = (http_Error msg code rw, a\<lparr>authGuard := g\<rparr>, w')" "code \<in> {401, 403, 429}"
      by (elim exE conjE) auto
    then show ?thesis using assms m by (auto intro!: refused_error)
  qed
qed

lemma innerChain_stream:
  assumes "rqPath r = ''/stream''" and "unsent rw"
  shows "refused {401, 403, 429, 500, 503} (fst (innerChain d H r rw a w))"
proof -
  let ?cs = "{401, 403, 429, 500, 503 :: int}"
  have i: "refused ?cs (fst (instrument (mux d H) r rw a w))" for a w
  proof -
    have "refused {401, 403, 429, 500} (fst (mux d H r (rw\<lparr>rwRec := 200, rwFlusher := False\<rparr>) a w))"
      by (rule mux_stream) (use assms in simp_all)
    then show ?thesis by (auto simp: instrument_def Let_def refused_def response_def split: prod.splits option.splits)
  qed
  have rl: "refused ?cs (fst (withRateLimit d (instrument (mux d H)) r rw a w))" for a w
    using i assms by (auto simp: withRateLimit_def Let_def intro!: refused_error split: prod.splits)
  have "refused ?cs (fst (withConcurrencyLimit (withRateLimit d (instrument (mux d H))) r rw a w))"
    using rl[of "a\<lparr>appGuard := snd (acquireGuard (appGuard a))\<rparr>" w] assms
    by (auto simp: withConcurrencyLimit_def Let_def intro!: refused_error split: prod.splits)
  then show ?thesis using assms(1) by (simp add: withRequestTimeout_def)
qed

text \<open>C37: The event stream cannot be reached. Whatever is configured and whoever asks, a request for \<^verbatim>\<open>/stream\<close> is
  answered with an error or as a CORS preflight, and never with an event: between the server's writer and the
  handler stands the recorder of \<open>instrument\<close>, which does not implement \<open>http.Flusher\<close>.\<close>

theorem stream_unreachable:
  assumes "rqPath r = ''/stream''" and "rootHandler d H r newRW a w = (rw', a', w')"
  shows "fst (response rw') \<in> {204, 401, 403, 429, 500, 503} \<and> (\<forall>b \<in> set (rwBody rw'). \<exists>m. b = Text m)"
proof (cases "CORSEnabled (cfg a) \<and> rqMethod r = ''OPTIONS''")
  case True
  with assms(2) show ?thesis
    by (auto simp: rootHandler_def withRecovery_def withCORS_def Let_def WriteHeader_def response_def newRW_def corsHeaders_def
        setHeader_def split: if_splits)
next
  case False
  show ?thesis
  proof (rule root_chain[OF False assms(2)])
    fix rw0 rid w1
    let ?rw = "setHeader ''X-Request-Id'' rid (if SecurityHeadersEnabled (cfg a) then securityHeaders (cfg a) rw0 else rw0)"
    assume s: "rwSent rw0 = None \<and> rwBody rw0 = [] \<and> \<not> rwPanic rw0"
      and r0: "rw' = fst (withRecovery (\<lambda>r rw a w. innerChain d H r rw a w) (r\<lparr>rqRequestID := rid\<rparr>) ?rw a w1)"
    have "unsent ?rw" using s by (simp add: setHeader_def securityHeaders_def Let_def)
    from innerChain_stream[where r = "r\<lparr>rqRequestID := rid\<rparr>" and d = d and H = H and a = a and w = w1, OF _ this] assms(1)
    have "refused {401, 403, 429, 500, 503} (fst (innerChain d H (r\<lparr>rqRequestID := rid\<rparr>) ?rw a w1))" by simp
    then have "refused {401, 403, 429, 500, 503} rw'"
      unfolding r0 withRecovery_def Let_def by (auto simp: refused_def split: prod.splits)
    then show ?thesis by (auto simp: refused_def)
  qed
qed

theorem stream_unreachable_witness:
  "let d = clockDeps\<lparr>bus := Some \<lparr>busPublishOp = (\<lambda>_ _ _ w. (Inl CtxDone, w)), busSubscribeOp = (\<lambda>_ w. (Inr (), w))\<rparr>\<rparr>;
       (rw, a, w) = rootHandler d plainHttp (get ''/stream'') newRW app0 0
   in fst (response rw) = 500 \<and> fst (response rw) \<in> {204, 401, 403, 429, 500, 503}"
proof -
  let ?d = "clockDeps\<lparr>bus := Some \<lparr>busPublishOp = (\<lambda>_ _ _ w. (Inl CtxDone, w)), busSubscribeOp = (\<lambda>_ w. (Inr (), w))\<rparr>\<rparr>"
  obtain rw a w where r: "rootHandler ?d plainHttp (get ''/stream'') newRW app0 0 = (rw, a, w)" by (metis surj_pair)
  have "fst (response (fst (rootHandler ?d plainHttp (get ''/stream'') newRW app0 0))) = 500" by code_simp
  with stream_unreachable[OF _ r] r show ?thesis by (simp add: get_def)
qed

end
