(* ===== verification/Http_Outbox.thy ===== *)
theory Http_Outbox
  imports Outbox_Contract Http_Access
begin

text \<open>
  The HTTP handlers under the contract of the store and the broker: every request keeps the safety of
  the outbox, and an answer that reports success is true.
\<close>

text \<open>The answer is an error.\<close>

definition error_answer :: "RW \<Rightarrow> RW \<Rightarrow> bool" where
  "error_answer rw rw' \<longleftrightarrow> (\<exists>m c. rw' = http_Error m c rw \<and> c \<notin> {200, 201})"

lemma error_answer_Error [simp]: "c \<noteq> 200 \<Longrightarrow> c \<noteq> 201 \<Longrightarrow> error_answer rw (http_Error m c rw)"
  by (auto simp: error_answer_def)

lemma error_answer_code: "error_answer rw rw' \<Longrightarrow> rwSent rw = None \<Longrightarrow> fst (response rw') \<notin> {200, 201}"
  by (auto simp: error_answer_def response_def http_Error_def writeBody_def WriteHeader_def setHeader_def)

locale http_contract = outbox_contract d I pub ack evt key
  for d :: "('w, 'l) deps" and I :: "'w \<Rightarrow> bool" and pub :: "'w \<Rightarrow> 'k set"
    and ack :: "'w \<Rightarrow> ('k \<times> string \<times> string) set" and evt :: "'w \<Rightarrow> 'k \<rightharpoonup> string \<times> string"
    and key :: "string \<Rightarrow> 'k option" +
  fixes H :: "('w, 'l) http_lib"
  assumes rand_quiet: "quiet I pub ack evt (randHex H)"
    and metrics_quiet: "I w \<Longrightarrow> metricsHandler H r rw a w = (rw', a', w') \<Longrightarrow> calm I pub ack evt w w'"
begin

definition safe_handler :: "('w, 'l) handler \<Rightarrow> bool" where
  "safe_handler h \<longleftrightarrow> (\<forall>r rw a w. safe w \<longrightarrow> safe (snd (snd (h r rw a w))))"

lemma safe_handlerD: "safe_handler h \<Longrightarrow> safe w \<Longrightarrow> h r rw a w = (rw', a', w') \<Longrightarrow> safe w'"
  unfolding safe_handler_def by (metis snd_conv)

lemma safe_handlerI: "(\<And>r rw a w. safe w \<Longrightarrow> safe (snd (snd (h r rw a w)))) \<Longrightarrow> safe_handler h"
  by (simp add: safe_handler_def)

lemma now_safe: "safe w \<Longrightarrow> safe (snd (nowOp d w))"
  using quiet_safe[OF now_quiet prod.collapse[symmetric]] .

lemma rand_safe: "safe w \<Longrightarrow> safe (snd (randHex H w))"
  using quiet_safe[OF rand_quiet prod.collapse[symmetric]] .

text \<open>Publishing. A success names an event that is published, with its subject.\<close>

definition reports :: "RW \<Rightarrow> 'w \<Rightarrow> bool" where
  "reports rw w \<longleftrightarrow> (\<exists>i k st s p fs. key i = Some k \<and> k \<in> pub w \<and> evt w k = Some (s, p) \<and>
     last (rwBody rw) = Json (JObj ((''id'', JStr i) # (''stream'', JStr st) # (''subject'', JStr s) # fs)))"

lemma publishStored_safe:
  assumes "safe w" and "publishStored d res rw a w = (rw', a', w')" and "known w (arEvent res)"
  shows "safe w' \<and> onward I ack evt w w'"
proof (cases "arPublished res")
  case True
  with assms show ?thesis by (simp add: publishStored_def Let_def calm_onward calm_refl safe_inv)
next
  case False
  let ?ev = "arEvent res"
  obtain q a1 w1 where p: "publishWithRetry d (evSubject ?ev) (evPayload ?ev) (evID ?ev) a w = (q, a1, w1)" by (metis surj_pair)
  show ?thesis
  proof (cases q)
    case (Inl e)
    obtain x w2 where f: "recordOutboxFailure d a1 (evID ?ev) e w1 = (x, w2)" by fastforce
    have c: "calm I pub ack evt w w1" using publishWithRetry_calm[OF p safe_inv[OF assms(1)]] by blast
    note c2 = calm_trans[OF c record_calm[OF f calm_inv[OF c]]]
    have "w' = w2" using assms(2) False p Inl f by (cases x) (auto simp: publishStored_def Let_def)
    with calm_safe[OF c2 assms(1)] calm_onward[OF c2] show ?thesis by simp
  next
    case (Inr b)
    obtain x a2 w2 where m: "storeMarkOutboxPublished d (evID ?ev) b a1 w1 = (x, a2, w2)" by (metis surj_pair)
    note s1 = published_known[OF p[unfolded Inr] assms(1,3)]
    have s2: "safe w2 \<and> onward I ack evt w1 w2" using mark_safe[OF m] s1 by blast
    have "w' = w2" using assms(2) False p Inr m by (cases x) (auto simp: publishStored_def Let_def)
    moreover have "onward I ack evt w w2" by (rule onward_trans[of _ _ _ _ w1]) (use s1 s2 in blast)+
    ultimately show ?thesis using s2 by simp
  qed
qed

lemma publishStored_ok:
  assumes "safe w" and "publishStored d res rw a w = (rw', a', w')" and "rwSent rw = None"
    and "fst (response rw') \<in> {200, 201}" and "key (evID (arEvent res)) = Some k"
    and "evt w k = Some (evSubject (arEvent res), evPayload (arEvent res))" and "arPublished res \<Longrightarrow> k \<in> pub w"
  shows "reports rw' w'"
proof -
  let ?ev = "arEvent res"
  have kn: "known w ?ev" using assms(5,6) by (simp add: known_def)
  have "onward I ack evt w w'" using publishStored_safe[OF assms(1,2) kn] by blast
  note e' = evt_onward[OF this assms(6)]
  have rep: "reports (publishedResponse res rw) w'" if "k \<in> pub w'"
    using that assms(5) e' unfolding reports_def
    by (rule_tac x = "evID ?ev" in exI, rule_tac x = k in exI) (simp add: publishedResponse_def writeJSON_def writeBody_def)
  show ?thesis
  proof (cases "arPublished res")
    case True
    with assms rep show ?thesis by (auto simp: publishStored_def Let_def)
  next
    case False
    obtain q a1 w1 where p: "publishWithRetry d (evSubject ?ev) (evPayload ?ev) (evID ?ev) a w = (q, a1, w1)" by (metis surj_pair)
    note I1 = calm_inv[OF conjunct1[OF publishWithRetry_calm[OF p safe_inv[OF assms(1)]]]]
    have code: "fst (response (writeJSON c j rw)) = c" "fst (response (http_Error m c rw)) = c" for c j m
      using assms(3) by (simp_all add: response_def writeJSON_def http_Error_def writeBody_def WriteHeader_def setHeader_def)
    from assms(2,4) False p code obtain b where b: "q = Inr b"
      by (cases q) (auto simp: publishStored_def Let_def split: prod.splits)
    obtain x a2 w2 where m: "storeMarkOutboxPublished d (evID ?ev) b a1 w1 = (x, a2, w2)" by (metis surj_pair)
    from assms(2,4) False p b m code obtain u where x: "x = Inr u"
      by (cases x) (auto simp: publishStored_def Let_def)
    with assms(2) False p b m have r: "rw' = publishedResponse res rw" "w' = w2" by (auto simp: publishStored_def Let_def)
    from storeCall_Inr[OF m[unfolded x storeMarkOutboxPublished_def] I1] obtain st w0 w3 where st: "store d = Some st"
      and mk: "storeMarkOp st (evID ?ev) b w0 = (Inr u, w3)" and c0: "calm I pub ack evt w1 w0"
      and w2: "w2 = w3 \<or> w2 = snd (nowOp d w3)" .
    note I3 = onward_inv[OF conjunct1[OF mark_law[OF st calm_inv[OF c0] mk]]]
    from maybe_now(2)[OF I3 w2] mark_pub[OF st calm_inv[OF c0] mk] assms(5) have "k \<in> pub w2" by auto
    with r rep show ?thesis by simp
  qed
qed

lemma subjectAllowed_safe: "safe w \<Longrightarrow> subjectAllowed d s a w = (ok, a', w') \<Longrightarrow> safe w'"
  by (auto simp: subjectAllowed_def Let_def split: option.splits prod.splits dest: now_safe)

lemma publishDecoded_props:
  assumes "safe w" and "publishDecoded d H req rw a w = (rw', a', w')"
  shows "safe w'" and "rwSent rw = None \<Longrightarrow> fst (response rw') \<in> {200, 201} \<Longrightarrow> reports rw' w'"
proof -
  obtain ok a1 w1 where sa: "subjectAllowed d (prSubject req) a w = (ok, a1, w1)" by (metis surj_pair)
  note s1 = subjectAllowed_safe[OF assms(1) sa]
  obtain t w2 where n: "nowOp d w1 = (t, w2)" by fastforce
  have s2: "safe w2" using now_safe[OF s1] n by simp
  let ?ev = "zeroEvent\<lparr>evIdempotencyKey := prIdempotencyKey req, evStream := prStream req,
      evSubject := prSubject req, evType := prType req, evPayload := prPayload req, evOccurredAt := t\<rparr>"
  obtain q a3 w3 where ap: "storeAppendEventExactlyOnce d ?ev a1 w2 = (q, a3, w3)" by (metis surj_pair)
  note ap' = ap[unfolded storeAppendEventExactlyOnce_def]
  have s3: "safe w3" by (rule storeCall_safe[OF append_quiet ap' s2])
  have kn: "\<exists>k. key (evID (arEvent res)) = Some k \<and> evt w3 k = Some (evSubject (arEvent res), evPayload (arEvent res)) \<and>
      (arPublished res \<longrightarrow> k \<in> pub w3)" if "q = Inr res" for res
  proof -
    from storeCall_Inr[OF ap'[unfolded that] safe_inv[OF s2]] obtain st w4 w5 where st: "store d = Some st"
      and op: "storeAppendOp st ?ev w4 = (Inr res, w5)" and c: "calm I pub ack evt w2 w4"
      and w3: "w3 = w5 \<or> w3 = snd (nowOp d w5)" .
    have I5: "I w5" using calm_inv[OF quietD[OF append_quiet[OF st] op calm_inv[OF c]]] .
    note m = maybe_now[OF I5 w3]
    from append_known[OF st calm_inv[OF c] op] show ?thesis
      using m(2) evt_onward[OF calm_onward[OF m(1)]] by blast
  qed
  consider "w' \<in> {w, w1, w3}" "error_answer rw rw'"
    | res where "q = Inr res" "publishStored d res rw a3 w3 = (rw', a', w')"
    using assms(2) sa n ap by (cases "validatePublishRequest H a req"; cases ok; cases q) (auto simp: publishDecoded_def Let_def)
  note c = this
  show "safe w'" using c
  proof cases
    case 2
    from kn[OF 2(1)] have "known w3 (arEvent res)" by (auto simp: known_def)
    from publishStored_safe[OF s3 2(2) this] show ?thesis ..
  qed (use assms(1) s1 s3 in auto)
  assume u: "rwSent rw = None" and good: "fst (response rw') \<in> {200, 201}"
  from c show "reports rw' w'"
  proof cases
    case 1
    with good u error_answer_code show ?thesis by blast
  next
    case 2
    from kn[OF 2(1)] publishStored_ok[OF s3 2(2) u good] show ?thesis by blast
  qed
qed

lemma handlePublishEvent_props:
  assumes "safe w" and "handlePublishEvent d H r rw a w = (rw', a', w')"
  shows "safe w'" and "rwSent rw = None \<Longrightarrow> fst (response rw') \<in> {200, 201} \<Longrightarrow> reports rw' w'"
proof -
  consider "w' = w" "error_answer rw rw'"
    | req a1 a2 where "publishDecoded d H req rw a1 w = (rw', a2, w')"
    using assms(2) by (auto simp: handlePublishEvent_def publishInLane_def Let_def split: if_splits prod.splits sum.splits)
  note c = this
  show "safe w'" using c by cases (use assms(1) publishDecoded_props(1) in auto)
  show "rwSent rw = None \<Longrightarrow> fst (response rw') \<in> {200, 201} \<Longrightarrow> reports rw' w'"
    using c by cases (use error_answer_code publishDecoded_props(2)[OF assms(1)] in blast)+
qed

text \<open>Every handler.\<close>

lemma handleListEvents_safe: "safe_handler (handleListEvents d)"
proof (rule safe_handlerI)
  fix r rw a w
  assume s: "safe w"
  have "safe w1" if "storeRecentEvents d st n a0 w = (q, a1, w1)" for st n a0 q a1 w1
    by (rule storeCall_safe[OF recent_quiet that[unfolded storeRecentEvents_def] s])
  with s show "safe (snd (snd (handleListEvents d r rw a w)))"
    by (auto simp: handleListEvents_def Let_def split: prod.splits sum.splits)
qed

lemma handleEvents_safe: "safe_handler (handleEvents d H)"
proof (rule safe_handlerI)
  fix r rw a w
  assume s: "safe w"
  show "safe (snd (snd (handleEvents d H r rw a w)))"
    using handlePublishEvent_props(1)[OF s, of r rw a] handleListEvents_safe s
    by (cases "handlePublishEvent d H r rw a w") (auto simp: handleEvents_def safe_handler_def)
qed

lemma probeModule_safe:
  assumes "safe w" and "md \<in> set (mods d)" and "probeModule d md a w = (x, a', w')"
  shows "safe w'"
proof -
  obtain t0 w1 where n: "nowOp d w = (t0, w1)" by fastforce
  obtain q br w2 where g: "gated cbAllow cbSuccess cbFailure (nowOp d) (ErrMsg ''circuit open'') (moduleReady md)
      (moduleBreakers a (moduleName md)) w1 = (q, br, w2)" by (metis surj_pair)
  obtain t1 w3 where n3: "nowOp d w2 = (t1, w3)" by fastforce
  have "safe w1" using now_safe[OF assms(1)] n by simp
  then have "safe w2" using calm_safe[OF gated_quiet[OF ready_quiet[OF assms(2)] g safe_inv]] by blast
  then have "safe w3" using now_safe[of w2] n3 by simp
  with assms(3) n g n3 show ?thesis by (cases q) (auto simp: probeModule_def Let_def)
qed

lemma healthLoop_safe:
  "set ms \<subseteq> set (mods d) \<Longrightarrow> safe w \<Longrightarrow> safe (snd (snd (healthLoop d ms rdy st a w)))"
proof (induction ms arbitrary: rdy st a w)
  case (Cons md ms)
  obtain x a1 w1 where p: "probeModule d md a w = (x, a1, w1)" by (metis surj_pair)
  have "safe w1" using probeModule_safe[OF Cons.prems(2) _ p] Cons.prems(1) by simp
  with Cons p show ?case by (cases x) simp
qed simp

lemma streamLoop_safe: "safe w \<Longrightarrow> safe (snd (snd (streamLoop d c ms rw a w)))"
proof (induction ms arbitrary: rw a w)
  case (Cons msg ms)
  obtain q a1 w1 where p: "storeClaimInboxMessage d c (bmMessageID msg) a w = (q, a1, w1)" by (metis surj_pair)
  have "safe w1" by (rule storeCall_safe[OF inbox_quiet p[unfolded storeClaimInboxMessage_def] Cons.prems])
  with Cons p show ?case by (auto split: sum.splits bool.splits)
qed simp

lemma probes_safe:
  "safe_handler (handleHealth d)" "safe_handler (handleLive d)" "safe_handler (handleStartup d)" "safe_handler (handleLeader d)"
  "safe_handler (handleDeadLetters d)" "safe_handler (handleReplayDeadLetter d)" "safe_handler handleOutboxRelayAdmin"
  "safe_handler (handleStream d H)" "safe_handler (redirectHandler H p)" "safe_handler (metricsHandler H)"
proof -
  show "safe_handler (handleHealth d)"
  proof (rule safe_handlerI)
    fix r rw a w
    assume s: "safe w"
    obtain x a1 w1 where h: "healthLoop d (mods d) True [] a w = (x, a1, w1)" by (metis surj_pair)
    have "safe w1" using healthLoop_safe[OF subset_refl s, of True "[]" a] h by simp
    from now_safe[OF this] h show "safe (snd (snd (handleHealth d r rw a w)))"
      by (cases x) (auto simp: handleHealth_def Let_def split: prod.splits)
  qed
  show "safe_handler (handleLive d)" "safe_handler (handleStartup d)" "safe_handler (handleLeader d)"
    using now_safe
    by (auto simp: safe_handler_def handleLive_def handleStartup_def handleLeader_def nodeStatus_def Let_def split_beta)
  show "safe_handler (handleDeadLetters d)" "safe_handler (handleReplayDeadLetter d)"
    by (auto simp: safe_handler_def handleDeadLetters_def handleReplayDeadLetter_def Let_def
        split: option.splits prod.splits sum.splits dest: quiet_safe[OF list_quiet] quiet_safe[OF replay_quiet])
  show "safe_handler handleOutboxRelayAdmin" "safe_handler (redirectHandler H p)"
    by (auto simp: safe_handler_def handleOutboxRelayAdmin_def redirectHandler_def Let_def)
  show "safe_handler (handleStream d H)"
    by (auto simp: safe_handler_def handleStream_def Let_def streamLoop_safe
        split: option.splits prod.splits sum.splits dest: quiet_safe[OF subscribe_quiet])
  show "safe_handler (metricsHandler H)"
  proof (rule safe_handlerI)
    fix r rw a w
    assume "safe w"
    then show "safe (snd (snd (metricsHandler H r rw a w)))"
      using calm_safe[OF metrics_quiet[OF safe_inv]] by (cases "metricsHandler H r rw a w") auto
  qed
qed

lemma authBlocked_safe: "safe w \<Longrightarrow> authBlocked d ip a w = (b, a', w') \<Longrightarrow> safe w'"
  by (auto simp: authBlocked_def Let_def split: option.splits prod.splits dest: now_safe)

lemma tokenExpired_safe: "safe w \<Longrightarrow> tokenExpired d c tok w = (b, w') \<Longrightarrow> safe w'"
  by (auto simp: tokenExpired_def Let_def split: option.splits prod.splits dest: now_safe)

lemma denyAuth_safe: "safe w \<Longrightarrow> safe (snd (snd (denyAuth d ip m c rw a w)))"
  using now_safe by (auto simp: denyAuth_def authFailed_def Let_def split_beta split: option.splits)

lemma secure_safe:
  assumes h: "safe_handler h"
  shows "safe_handler (secure d s h)"
proof (rule safe_handlerI)
  fix r :: Request and rw a w
  assume s: "safe w"
  obtain b a1 w1 where ab: "authBlocked d (clientIP (rqRemoteAddr r)) a w = (b, a1, w1)" by (metis surj_pair)
  note s1 = authBlocked_safe[OF s ab]
  obtain ex w2 where te: "tokenExpired d (cfg a) (bearerToken (rqHeader r ''Authorization'')) w1 = (ex, w2)" by fastforce
  note s2 = tokenExpired_safe[OF s1 te]
  show "safe (snd (snd (secure d s h r rw a w)))"
    unfolding secure_def Let_def ab te prod.case
    using s s1 s2 h by (simp add: denyAuth_safe safe_handler_def)
qed

lemma safe_handlerE: "safe_handler h \<Longrightarrow> safe w \<Longrightarrow> safe (snd (snd (h r rw a w)))"
  by (simp add: safe_handler_def)

lemma mux_safe: "safe_handler (mux d H)"
proof (rule safe_handlerI)
  fix r rw a w
  assume s: "safe w"
  note k = safe_handlerE[OF _ s]
  show "safe (snd (snd (mux d H r rw a w)))"
    unfolding mux_def Let_def
    by (simp add: s k[OF probes_safe(1)] k[OF probes_safe(2)] k[OF probes_safe(3)] k[OF probes_safe(9)] k[OF probes_safe(10)]
      k[OF secure_safe[OF probes_safe(4)]] k[OF secure_safe[OF probes_safe(5)]] k[OF secure_safe[OF probes_safe(6)]]
      k[OF secure_safe[OF probes_safe(7)]] k[OF secure_safe[OF probes_safe(8)]] k[OF secure_safe[OF handleEvents_safe]])
qed

lemma middleware_safe:
  assumes h: "safe_handler h"
  shows "safe_handler (instrument h)" "safe_handler (withRateLimit d h)" "safe_handler (withConcurrencyLimit h)"
    "safe_handler (withRequestTimeout H h)" "safe_handler (withRequestID d H h)" "safe_handler (withSecurityHeaders h)"
    "safe_handler (withCORS h)" "safe_handler (withRecovery h)"
proof -
  note k = safe_handlerD[OF h] and e = safe_handlerE[OF h]
  show "safe_handler (instrument h)" "safe_handler (withConcurrencyLimit h)" "safe_handler (withRecovery h)"
    by (auto simp: safe_handler_def instrument_def withConcurrencyLimit_def withRecovery_def Let_def split: prod.splits dest: k)
  have "safe_handler (timeoutHandler H h)"
    by (auto simp: safe_handler_def timeoutHandler_def Let_def split: prod.splits dest: k)
  then show "safe_handler (withRequestTimeout H h)" using h by (simp add: safe_handler_def withRequestTimeout_def)
  show "safe_handler (withSecurityHeaders h)" "safe_handler (withCORS h)"
    using h by (auto simp: safe_handler_def withSecurityHeaders_def withCORS_def Let_def)
  show "safe_handler (withRateLimit d h)"
    using now_safe e by (auto simp: safe_handler_def withRateLimit_def Let_def split_beta)
  have "safe (snd (newRequestID d H w))" if "safe w" for w
    using rand_safe[OF that] now_safe by (auto simp: newRequestID_def Let_def split_beta split: option.splits)
  then show "safe_handler (withRequestID d H h)" using e by (auto simp: safe_handler_def withRequestID_def Let_def split_beta)
qed

lemma root_safe: "safe_handler (rootHandler d H)"
  unfolding rootHandler_def by (intro middleware_safe mux_safe)

end

end
