(* ===== verification/Http_Truth.thy ===== *)
theory Http_Truth
  imports Http_Outbox
begin

text \<open>
  What a client and an operator can rely on under the contract: a success that \<^verbatim>\<open>POST /events\<close>
  reports is true, and no sequence of requests, relay ticks and cleanup ticks makes the outbox unsafe.
\<close>

text \<open>A step of the running process: a request, or a tick of one of the two loops of \<open>Run\<close>.\<close>

inductive service :: "('w, 'l) deps \<Rightarrow> ('w, 'l) http_lib \<Rightarrow> 'l App \<times> 'w \<Rightarrow> 'l App \<times> 'w \<Rightarrow> bool" for d H where
  sv_request: "rootHandler d H r newRW a w = (rw, a', w') \<Longrightarrow> service d H (a, w) (a', w')"
| sv_relay: "relayTick d a w = (a', w') \<Longrightarrow> service d H (a, w) (a', w')"
| sv_cleanup: "service d H (a, w) (a, cleanupTick d a w)"

inductive_cases serviceE: "service d H (a, w) (a', w')"

context http_contract
begin

text \<open>An answer to \<^verbatim>\<open>POST /events\<close> that reports success is true, through every middleware.\<close>

definition posts :: "Request \<Rightarrow> bool" where
  "posts r \<longleftrightarrow> rqMethod r = ''POST'' \<and> rqPath r = ''/events''"

definition truthful :: "('w, 'l) handler \<Rightarrow> bool" where
  "truthful h \<longleftrightarrow> (\<forall>r rw a w rw' a' w'. posts r \<and> unsent rw \<and> safe w \<and> h r rw a w = (rw', a', w') \<and>
     \<not> rwPanic rw' \<and> fst (response rw') \<in> {200, 201} \<longrightarrow> reports rw' w')"

lemma truthfulI:
  "(\<And>r rw a w rw' a' w'. posts r \<Longrightarrow> unsent rw \<Longrightarrow> safe w \<Longrightarrow> h r rw a w = (rw', a', w') \<Longrightarrow> \<not> rwPanic rw' \<Longrightarrow>
     fst (response rw') \<in> {200, 201} \<Longrightarrow> reports rw' w') \<Longrightarrow> truthful h"
  unfolding truthful_def by blast

lemma truthfulD:
  "truthful h \<Longrightarrow> posts r \<Longrightarrow> unsent rw \<Longrightarrow> safe w \<Longrightarrow> h r rw a w = (rw', a', w') \<Longrightarrow> \<not> rwPanic rw' \<Longrightarrow>
     fst (response rw') \<in> {200, 201} \<Longrightarrow> reports rw' w'"
  unfolding truthful_def by blast

lemma reports_cong: "rwBody rw = rwBody rw' \<Longrightarrow> reports rw w = reports rw' w"
  by (simp add: reports_def)

lemma response_code: "fst (response rw) = (case rwSent rw of Some s \<Rightarrow> fst s | None \<Rightarrow> 200)"
  by (simp add: response_def split: option.splits)

lemma error_code: "rwSent rw = None \<Longrightarrow> fst (response (http_Error m c rw)) = c"
  by (simp add: response_def http_Error_def writeBody_def WriteHeader_def setHeader_def)

lemma handleEvents_truthful: "truthful (handleEvents d H)"
  by (rule truthfulI) (auto simp: handleEvents_def posts_def intro: handlePublishEvent_props(2))

lemma secure_truthful:
  assumes h: "truthful h"
  shows "truthful (secure d s h)"
proof (rule truthfulI)
  fix r rw a w rw' a' w'
  assume p: "posts r" and u: "unsent rw" and sw: "safe w" and e: "secure d s h r rw a w = (rw', a', w')"
    and np: "\<not> rwPanic rw'" and c: "fst (response rw') \<in> {200, 201}"
  show "reports rw' w'"
  proof (cases "granted d s r a w")
    case True
    obtain g w1 where n: "\<forall>nxt. secure d s nxt r rw a w = nxt r rw (a\<lparr>authGuard := g\<rparr>) w1"
      using secure_granted[OF True, of rw] by (elim exE)
    have "safe_handler (\<lambda>r rw a w. (rw, a, w))" by (simp add: safe_handler_def)
    from safe_handlerE[OF secure_safe[OF this] sw, of s r rw a] n have "safe w1" by simp
    with truthfulD[OF h p u _ _ np c] e n show ?thesis by simp
  next
    case False
    from secure_denied[OF False, of rw] obtain msg code g w1 where
      "\<forall>nxt. secure d s nxt r rw a w = (http_Error msg code rw, a\<lparr>authGuard := g\<rparr>, w1)" "code \<in> {401, 403, 429}"
      by (elim exE conjE) auto
    with e c u error_code show ?thesis by auto
  qed
qed

lemma mux_truthful: "truthful (mux d H)"
proof -
  have c: "cleanPath ''/events'' = ''/events''" by code_simp
  have "mux d H r = secure d ScopeRW (handleEvents d H) r" if "posts r" for r using that by (simp add: mux_def posts_def c)
  with secure_truthful[OF handleEvents_truthful, of ScopeRW] show ?thesis unfolding truthful_def by metis
qed

lemma instrument_truthful:
  assumes h: "truthful h"
  shows "truthful (instrument h)"
proof (rule truthfulI)
  fix r rw a w rw' a' w'
  assume p: "posts r" and u: "unsent rw" and sw: "safe w" and e: "instrument h r rw a w = (rw', a', w')"
    and np: "\<not> rwPanic rw'" and c: "fst (response rw') \<in> {200, 201}"
  obtain rw1 a1 w1 where n: "h r (rw\<lparr>rwRec := 200, rwFlusher := False\<rparr>) a w = (rw1, a1, w1)" by (metis surj_pair)
  with e have rw': "rw' = rw1\<lparr>rwFlusher := rwFlusher rw\<rparr>" "w' = w1" by (auto simp: instrument_def Let_def split: if_splits)
  have "reports rw1 w1"
    by (rule truthfulD[OF h p _ sw n]) (use u np c rw' in \<open>simp_all add: response_code\<close>)
  with rw' show "reports rw' w'" using reports_cong[of rw' rw1] by simp
qed

lemma limits_truthful:
  assumes h: "truthful h"
  shows "truthful (withRateLimit d h)" and "truthful (withConcurrencyLimit h)"
proof -
  show "truthful (withRateLimit d h)"
  proof (rule truthfulI)
    fix r rw a w rw' a' w'
    assume p: "posts r" and u: "unsent rw" and sw: "safe w" and e: "withRateLimit d h r rw a w = (rw', a', w')"
      and np: "\<not> rwPanic rw'" and c: "fst (response rw') \<in> {200, 201}"
    obtain t1 w1 where n1: "nowOp d w = (t1, w1)" by fastforce
    obtain t2 w2 where n2: "nowOp d w1 = (t2, w2)" by fastforce
    have s2: "safe w2" using now_safe[OF sw] now_safe[of w1] n1 n2 by simp
    obtain ok l where i: "iplAllow (rateLib d) (rangeOrd d) t1 t2 (clientIP (rqRemoteAddr r)) (limiter a) = (ok, l)" by fastforce
    from e n1 n2 i c u error_code have "h r rw (a\<lparr>limiter := l\<rparr>) w2 = (rw', a', w')"
      by (cases ok) (auto simp: withRateLimit_def)
    from truthfulD[OF h p u s2 this np c] show "reports rw' w'" .
  qed
  show "truthful (withConcurrencyLimit h)"
  proof (rule truthfulI)
    fix r rw a w rw' a' w'
    assume p: "posts r" and u: "unsent rw" and sw: "safe w" and e: "withConcurrencyLimit h r rw a w = (rw', a', w')"
      and np: "\<not> rwPanic rw'" and c: "fst (response rw') \<in> {200, 201}"
    obtain ok g where g: "acquireGuard (appGuard a) = (ok, g)" by fastforce
    from e c u error_code g obtain a1 where "h r rw (a\<lparr>appGuard := g\<rparr>) w = (rw', a1, w')"
      by (cases ok) (auto simp: withConcurrencyLimit_def split: prod.splits)
    from truthfulD[OF h p u sw this np c] show "reports rw' w'" .
  qed
qed

lemma timeout_truthful:
  assumes h: "truthful h"
  shows "truthful (withRequestTimeout H h)"
proof (rule truthfulI)
  fix r rw a w rw' a' w'
  assume p: "posts r" and u: "unsent rw" and sw: "safe w" and e: "withRequestTimeout H h r rw a w = (rw', a', w')"
    and np: "\<not> rwPanic rw'" and c: "fst (response rw') \<in> {200, 201}"
  obtain tw a1 w1 where n: "h r (newRW\<lparr>rwFlusher := False\<rparr>) a w = (tw, a1, w1)" by (metis surj_pair)
  from e p have e': "timeoutHandler H h r rw a w = (rw', a', w')" by (simp add: withRequestTimeout_def posts_def)
  have nt: "\<not> timedOut H r w" using e' n u c by (auto simp: timeoutHandler_def response_def writeBody_def WriteHeader_def)
  have tp: "\<not> rwPanic tw" using e' n np nt by (auto simp: timeoutHandler_def)
  have rw': "w' = w1" "rwBody rw' = rwBody tw" "fst (response rw') = fst (response tw)"
    using e' n nt tp u by (auto simp: timeoutHandler_def Let_def WriteHeader_def response_code split: option.splits)
  have "reports tw w1" by (rule truthfulD[OF h p _ sw n tp]) (use c rw' in \<open>simp_all add: newRW_def\<close>)
  with rw' show "reports rw' w'" using reports_cong[of rw' tw] by simp
qed

text \<open>A middleware that only prepares the request and the writer.\<close>

definition prepares :: "('w, 'l) handler \<Rightarrow> ('w, 'l) handler \<Rightarrow> bool" where
  "prepares g h \<longleftrightarrow> (\<forall>r rw a w. posts r \<and> unsent rw \<longrightarrow>
     (\<exists>r' rw0 w0. g r rw a w = h r' rw0 a w0 \<and> posts r' \<and> unsent rw0 \<and> (safe w \<longrightarrow> safe w0)))"

lemma prepares_truthful:
  assumes "prepares g h" and h: "truthful h"
  shows "truthful g"
proof (rule truthfulI)
  fix r rw a w rw' a' w'
  assume p: "posts r" "unsent rw" "safe w" and e: "g r rw a w = (rw', a', w')"
    and np: "\<not> rwPanic rw'" and c: "fst (response rw') \<in> {200, 201}"
  obtain r' rw0 w0 where g: "g r rw a w = h r' rw0 a w0" and p': "posts r'" "unsent rw0" "safe w0"
    using assms(1) p unfolding prepares_def by metis
  from truthfulD[OF h p' e[unfolded g] np c] show "reports rw' w'" .
qed

lemma headers_unsent:
  "unsent rw \<Longrightarrow> unsent (setHeader k v rw)" "unsent rw \<Longrightarrow> unsent (securityHeaders cf rw)" "unsent rw \<Longrightarrow> unsent (corsHeaders cf og rw)"
  by (simp_all add: setHeader_def securityHeaders_def corsHeaders_def Let_def)

lemma header_prepares:
  "prepares (withRequestID d H h) h" "prepares (withSecurityHeaders h) h" "prepares (withCORS h) h"
proof -
  have rid: "safe (snd (newRequestID d H w))" if "safe w" for w
    using rand_safe[OF that] now_safe by (auto simp: newRequestID_def Let_def split_beta split: option.splits)
  show "prepares (withRequestID d H h) h" unfolding prepares_def
  proof (intro allI impI)
    fix r rw a w
    assume p: "posts r \<and> unsent rw"
    let ?rid = "TrimSpace (rqHeader r ''X-Request-Id'')"
    let ?p = "if ?rid = [] then newRequestID d H w else (?rid, w)"
    have "withRequestID d H h r rw a w = h (r\<lparr>rqRequestID := fst ?p\<rparr>) (setHeader ''X-Request-Id'' (fst ?p) rw) a (snd ?p)"
      by (simp add: withRequestID_def Let_def split_beta)
    moreover have "posts (r\<lparr>rqRequestID := fst ?p\<rparr>)" "safe w \<longrightarrow> safe (snd ?p)" using p rid by (simp_all add: posts_def)
    ultimately show "\<exists>r' rw0 w0. withRequestID d H h r rw a w = h r' rw0 a w0 \<and> posts r' \<and> unsent rw0 \<and> (safe w \<longrightarrow> safe w0)"
      using headers_unsent(1)[OF conjunct2[OF p]] by blast
  qed
  show "prepares (withSecurityHeaders h) h" unfolding prepares_def withSecurityHeaders_def using headers_unsent(2) by metis
  show "prepares (withCORS h) h" unfolding prepares_def
  proof (intro allI impI)
    fix r rw a w
    assume p: "posts r \<and> unsent rw"
    have "\<exists>rw0. withCORS h r rw a w = h r rw0 a w \<and> unsent rw0"
    proof (cases "CORSEnabled (cfg a) \<and> TrimSpace (rqHeader r ''Origin'') \<noteq> [] \<and>
        isAllowedOrigin (TrimSpace (rqHeader r ''Origin'')) (CORSAllowedOrigins (cfg a))")
      case True
      with p headers_unsent(3)[OF conjunct2[OF p]] show ?thesis
        by (intro exI[of _ "corsHeaders (cfg a) (TrimSpace (rqHeader r ''Origin'')) rw"]) (simp add: withCORS_def posts_def)
    next
      case False
      with p show ?thesis by (intro exI[of _ rw]) (auto simp: withCORS_def posts_def Let_def)
    qed
    with p show "\<exists>r' rw0 w0. withCORS h r rw a w = h r' rw0 a w0 \<and> posts r' \<and> unsent rw0 \<and> (safe w \<longrightarrow> safe w0)" by blast
  qed
qed

text \<open>A panic does not reach the writer of the server: \<open>http.TimeoutHandler\<close> drops what was written.\<close>

definition drops :: "('w, 'l) handler \<Rightarrow> bool" where
  "drops h \<longleftrightarrow> (\<forall>r rw a w rw' a' w'. posts r \<and> unsent rw \<and> h r rw a w = (rw', a', w') \<and> rwPanic rw' \<longrightarrow> rwSent rw' = None)"

lemma timeout_drops: "drops (withRequestTimeout H h)"
  by (auto simp: drops_def withRequestTimeout_def timeoutHandler_def posts_def Let_def writeBody_def WriteHeader_def
      split: prod.splits if_splits)

lemma prepares_drops: "prepares g h \<Longrightarrow> drops h \<Longrightarrow> drops g"
  unfolding prepares_def drops_def by metis

lemma root_truthful: "truthful (rootHandler d H)"
proof (rule truthfulI)
  fix r rw a w rw' a' w'
  assume p: "posts r" and u: "unsent rw" and sw: "safe w" and e: "rootHandler d H r rw a w = (rw', a', w')"
    and np: "\<not> rwPanic rw'" and c: "fst (response rw') \<in> {200, 201}"
  let ?h = "withConcurrencyLimit (withRateLimit d (instrument (mux d H)))"
  let ?o = "withCORS (withSecurityHeaders (withRequestID d H (withRequestTimeout H ?h)))"
  have t: "truthful ?o"
    by (intro prepares_truthful[OF header_prepares(1)] prepares_truthful[OF header_prepares(2)] prepares_truthful[OF header_prepares(3)]
      timeout_truthful limits_truthful instrument_truthful mux_truthful)
  have dr: "drops ?o"
    by (rule prepares_drops[OF header_prepares(3)], rule prepares_drops[OF header_prepares(2)],
      rule prepares_drops[OF header_prepares(1)], rule timeout_drops)
  obtain rw1 a1 w1 where n: "?o r rw a w = (rw1, a1, w1)" by (metis surj_pair)
  show "reports rw' w'"
  proof (cases "rwPanic rw1")
    case True
    with dr p u n have "rwSent rw1 = None" unfolding drops_def by blast
    with True e n c show ?thesis
      by (auto simp: rootHandler_def withRecovery_def response_def http_Error_def writeBody_def WriteHeader_def setHeader_def)
  next
    case False
    with e n have eq: "rw' = rw1" "w' = w1" by (simp_all add: rootHandler_def withRecovery_def)
    show ?thesis unfolding eq by (rule truthfulD[where h = ?o, OF t p u sw n False c[unfolded eq]])
  qed
qed

lemma service_safe:
  assumes "service d H (a, w) (a', w')" and "safe w"
  shows "safe w'"
  using assms(1)
  by (elim serviceE) (use assms(2) safe_handlerD[OF root_safe] relayTick_safe cleanupTick_safe in blast)+

lemma services_safe: "(service d H)\<^sup>*\<^sup>* x y \<Longrightarrow> safe (snd x) \<Longrightarrow> safe (snd y)"
  by (induction rule: rtranclp_induct) (auto intro: service_safe)

end

end
