(* ===== verification/Module_Lifecycle.thy ===== *)
theory Module_Lifecycle
  imports App_Core
begin

text \<open>
  The contract that the core relies on when it starts a module several times: a \<open>Start\<close> that
  fails leaves nothing open, one that succeeds leaves open what the module holds, and \<open>Stop\<close>
  closes it. \<open>Nats_Bus\<close>, \<open>Etcd_Coord\<close> and \<open>Cass_Session\<close> show that the three modules meet it.
\<close>

locale leakfree =
  fixes m :: "'w Module"
    and opened :: "'w \<Rightarrow> 'h set"
    and held :: "'w \<Rightarrow> 'h set"
  assumes start_ok: "opened w = {} \<Longrightarrow> held w = {} \<Longrightarrow> moduleStart m w = (Inr u, w') \<Longrightarrow> opened w' = held w'"
    and start_err: "opened w = {} \<Longrightarrow> held w = {} \<Longrightarrow> moduleStart m w = (Inl e, w') \<Longrightarrow>
      opened w' = {} \<and> held w' = {}"
    and stop_closes: "opened w = held w \<Longrightarrow> moduleStop m w = (r, w') \<Longrightarrow> opened w' = {} \<and> held w' = {}"
begin

text \<open>Retrying does not leak: whatever the number of attempts and however they end.\<close>

lemma startLoop_clean:
  assumes wait: "\<And>t w. opened (snd (waitTimer d t w)) = opened w \<and> held (snd (waitTimer d t w)) = held w"
  shows "startLoop n d m t w = (r, w') \<Longrightarrow> opened w = {} \<Longrightarrow> held w = {} \<Longrightarrow>
     (case r of Inl _ \<Rightarrow> opened w' = {} \<and> held w' = {} | Inr _ \<Rightarrow> opened w' = held w')"
proof (induction n arbitrary: t w)
  case 0
  then show ?case by (cases r) (auto dest: start_ok start_err)
next
  case (Suc n)
  obtain q w1 where s: "moduleStart m w = (q, w1)" by fastforce
  show ?case
  proof (cases q)
    case (Inr u)
    with Suc.prems s show ?thesis by (auto dest: start_ok)
  next
    case (Inl e)
    from start_err[OF Suc.prems(2,3) s[unfolded Inl]] have c1: "opened w1 = {}" "held w1 = {}" by auto
    obtain x w2 where t: "waitTimer d t w1 = (x, w2)" by fastforce
    from wait[of t w1] t c1 have c2: "opened w2 = {}" "held w2 = {}" by auto
    show ?thesis
    proof (cases x)
      case (Some e')
      with Suc.prems(1) s Inl t c2 show ?thesis by auto
    next
      case None
      with Suc.prems(1) s Inl t have "startLoop n d m (if t < 10 * second
                  then (let wait1 = i64 (t * 2) in if wait1 > 10 * second then 10 * second else wait1)
                  else t) w2 = (r, w')" by simp
      from Suc.IH[OF this c2] show ?thesis .
    qed
  qed
qed

lemma startModuleWithRetry_clean:
  assumes "\<And>t w. opened (snd (waitTimer d t w)) = opened w \<and> held (snd (waitTimer d t w)) = held w"
    and "opened w = {}" and "held w = {}" and "startModuleWithRetry d c m w = (r, w')"
  shows "case r of Inl _ \<Rightarrow> opened w' = {} \<and> held w' = {} | Inr _ \<Rightarrow> opened w' = held w'"
  using startLoop_clean[OF assms(1)] assms(2-) by (simp add: startModuleWithRetry_def)

lemma start_stop_clean:
  assumes "\<And>t w. opened (snd (waitTimer d t w)) = opened w \<and> held (snd (waitTimer d t w)) = held w"
    and "opened w = {}" and "held w = {}" and "startModuleWithRetry d c m w = (r, w')"
  shows "opened (snd (moduleStop m w')) = {}"
proof -
  have "opened w' = held w'" using startModuleWithRetry_clean[OF assms] by (auto split: sum.splits)
  then show ?thesis using stop_closes prod.collapse by metis
qed

end

text \<open>A handle that is not in use, for the clients in memory.\<close>

lemma foldr_max_fresh: "Suc (foldr max ks 0) \<notin> set ks"
proof -
  have "k \<le> foldr max ks 0" if "k \<in> set ks" for k using that by (induction ks) auto
  then show ?thesis by fastforce
qed

end
