(* ===== verification/Tls_Config.thy ===== *)
theory Tls_Config
  imports Shiro_Prelude
begin

text \<open>
  \<^verbatim>\<open>internal/security/tls.go\<close>: the TLS settings of the clients. Files, PEM bundles and key pairs
  are read through \<open>tls_files\<close>; \<open>'c\<close> is the type of certificates. A certificate pool is the list
  of the certificates added to it.
\<close>

section \<open>Model\<close>

record TLSOptions =
  CAFile :: string
  CertFile :: string
  KeyFile :: string
  ServerName :: string
  InsecureSkipVerify :: bool

record 'c tls_Config =
  MinVersion :: nat
  tcServerName :: string
  tcInsecureSkipVerify :: bool
  RootCAs :: "'c list option"
  Certificates :: "'c list"

text \<open>\<open>os.ReadFile\<close>, the certificates \<open>AppendCertsFromPEM\<close> finds (it succeeds when there is one),
  \<open>tls.LoadX509KeyPair\<close>.\<close>

record 'c tls_files =
  ReadFile :: "string \<Rightarrow> goerr + string"
  pemCerts :: "string \<Rightarrow> 'c list"
  LoadX509KeyPair :: "string \<Rightarrow> string \<Rightarrow> goerr + 'c"

abbreviation VersionTLS12 :: nat where "VersionTLS12 \<equiv> 0x0303"

definition tlsBase :: "TLSOptions \<Rightarrow> 'c tls_Config" where
  "tlsBase opts = \<lparr>MinVersion = VersionTLS12, tcServerName = ServerName opts,
     tcInsecureSkipVerify = InsecureSkipVerify opts, RootCAs = None, Certificates = []\<rparr>"

definition tlsRoots :: "'c tls_files \<Rightarrow> TLSOptions \<Rightarrow> 'c tls_Config \<Rightarrow> goerr + 'c tls_Config" where
  "tlsRoots F opts c =
     (if CAFile opts \<noteq> [] then
        (case ReadFile F (CAFile opts) of
           Inl e \<Rightarrow> Inl (ErrMsg (''read ca file: '' @ err_string e))
         | Inr ca \<Rightarrow>
             (if pemCerts F ca = [] then Inl (ErrMsg ''append ca certs failed'')
              else Inr (c\<lparr>RootCAs := Some (pemCerts F ca)\<rparr>)))
      else Inr c)"

definition tlsClientCert :: "'c tls_files \<Rightarrow> TLSOptions \<Rightarrow> 'c tls_Config \<Rightarrow> goerr + 'c tls_Config" where
  "tlsClientCert F opts c =
     (if CertFile opts \<noteq> [] \<or> KeyFile opts \<noteq> [] then
        (if CertFile opts = [] \<or> KeyFile opts = []
         then Inl (ErrMsg ''both cert and key files are required for mTLS client certs'')
         else
           (case LoadX509KeyPair F (CertFile opts) (KeyFile opts) of
              Inl e \<Rightarrow> Inl (ErrMsg (''load client cert/key: '' @ err_string e))
            | Inr cert \<Rightarrow> Inr (c\<lparr>Certificates := [cert]\<rparr>)))
      else Inr c)"

definition BuildTLSConfig :: "'c tls_files \<Rightarrow> TLSOptions \<Rightarrow> goerr + 'c tls_Config option" where
  "BuildTLSConfig F opts =
     (if CAFile opts = [] \<and> CertFile opts = [] \<and> KeyFile opts = [] \<and> ServerName opts = [] \<and>
         \<not> InsecureSkipVerify opts
      then Inr None
      else
        (case tlsRoots F opts (tlsBase opts) of
           Inl e \<Rightarrow> Inl e
         | Inr c \<Rightarrow>
             (case tlsClientCert F opts c of
                Inl e \<Rightarrow> Inl e
              | Inr c1 \<Rightarrow> Inr (Some c1))))"

section \<open>Properties\<close>

lemma tlsRoots_ok:
  "tlsRoots F opts c = Inr c' \<longleftrightarrow>
   (CAFile opts = [] \<and> c' = c) \<or>
   (CAFile opts \<noteq> [] \<and> (\<exists>ca. ReadFile F (CAFile opts) = Inr ca \<and> pemCerts F ca \<noteq> [] \<and>
      c' = c\<lparr>RootCAs := Some (pemCerts F ca)\<rparr>))"
  by (auto simp: tlsRoots_def split: sum.splits)

lemma tlsClientCert_ok:
  "tlsClientCert F opts c = Inr c' \<longleftrightarrow>
   (CertFile opts = [] \<and> KeyFile opts = [] \<and> c' = c) \<or>
   (CertFile opts \<noteq> [] \<and> KeyFile opts \<noteq> [] \<and>
    (\<exists>cert. LoadX509KeyPair F (CertFile opts) (KeyFile opts) = Inr cert \<and> c' = c\<lparr>Certificates := [cert]\<rparr>))"
  by (auto simp: tlsClientCert_def split: sum.splits)



end
