(* ===== verification/Nats_Bus.thy ===== *)
theory Nats_Bus
  imports Module_Lifecycle Tls_Config
begin

text \<open>
  The event bus of \<^verbatim>\<open>internal/modules/natsbus/module.go\<close> over an arbitrary NATS client \<open>nats_lib\<close>.
  A connection and a JetStream context are handles of types \<open>'c\<close> and \<open>'j\<close>; \<open>None\<close> is nil. Every
  operation returns the module it leaves and the world \<open>'x\<close> of the client. Spans are left out.
\<close>

section \<open>Model\<close>

datatype 'k natsOption = nats_Name string | nats_MaxReconnects int | nats_ReconnectWait duration
  | nats_Token string | nats_UserInfo string string | nats_Secure "'k tls_Config"

datatype StorageType = FileStorage
datatype RetentionPolicy = LimitsPolicy
datatype DiscardPolicy = DiscardOld

record StreamConfig =
  scName :: string
  scSubjects :: "string list"
  scStorage :: StorageType
  scRetention :: RetentionPolicy
  scDiscard :: DiscardPolicy
  scMaxAge :: duration

text \<open>A message with its headers; \<open>Header.Get\<close> of an absent header is the empty string.\<close>

record natsMsg =
  nmSubject :: string
  nmData :: string
  nmHeader :: "string \<rightharpoonup> string"

record PubAck =
  paStream :: string
  paSequence :: nat

record MsgMetadata =
  mdStream :: string
  mdStreamSeq :: nat
  mdConsumerSeq :: nat

record ('x, 'c, 'j, 'k) nats_lib =
  nats_Connect :: "string \<Rightarrow> 'k natsOption list \<Rightarrow> ('c, 'x) call"
  nc_JetStream :: "'c \<Rightarrow> ('j, 'x) call"
  nc_Close :: "'c \<Rightarrow> 'x \<Rightarrow> 'x"
  nc_IsConnected :: "'c \<Rightarrow> 'x \<Rightarrow> bool"
  nc_Drain :: "'c \<Rightarrow> (unit, 'x) call"
  nc_Subscribe :: "'c \<Rightarrow> string \<Rightarrow> (unit, 'x) call"
  js_StreamInfo :: "'j \<Rightarrow> string \<Rightarrow> (unit, 'x) call"
  js_AddStream :: "'j \<Rightarrow> StreamConfig \<Rightarrow> (unit, 'x) call"
  js_PublishMsg :: "'j \<Rightarrow> natsMsg \<Rightarrow> (PubAck, 'x) call"
  ctx_Err :: "'x \<Rightarrow> goerr option"

record ('c, 'j) natsModule =
  nbUrl :: string
  nbStreamName :: string
  nbUser :: string
  nbPassword :: string
  nbToken :: string
  nbTls :: TLSOptions
  nbNc :: "'c option"
  nbJs :: "'j option"

definition natsNew :: "string \<Rightarrow> string \<Rightarrow> string \<Rightarrow> string \<Rightarrow> string \<Rightarrow> TLSOptions \<Rightarrow> ('c, 'j) natsModule" where
  "natsNew url streamName user password token tlsOpts =
     \<lparr>nbUrl = url, nbStreamName = streamName, nbUser = user, nbPassword = password, nbToken = token,
      nbTls = tlsOpts, nbNc = None, nbJs = None\<rparr>"

definition natsOpts :: "('c, 'j) natsModule \<Rightarrow> 'k tls_Config option \<Rightarrow> 'k natsOption list" where
  "natsOpts m tlsConfig =
     [nats_Name ''shiro-distributed-system'', nats_MaxReconnects (- 1), nats_ReconnectWait (2 * second)] @
     (if nbToken m \<noteq> [] then [nats_Token (nbToken m)]
      else if nbUser m \<noteq> [] then [nats_UserInfo (nbUser m) (nbPassword m)] else []) @
     (case tlsConfig of None \<Rightarrow> [] | Some c \<Rightarrow> [nats_Secure c])"

definition natsStream :: "('c, 'j) natsModule \<Rightarrow> StreamConfig" where
  "natsStream m = \<lparr>scName = nbStreamName m, scSubjects = [''events.>''], scStorage = FileStorage,
     scRetention = LimitsPolicy, scDiscard = DiscardOld, scMaxAge = 7 * 24 * (60 * minute)\<rparr>"

text \<open>The stream is there, or it is created.\<close>

definition natsEnsureStream ::
  "('x, 'c, 'j, 'k) nats_lib \<Rightarrow> ('c, 'j) natsModule \<Rightarrow> 'j \<Rightarrow> (unit, 'x) call" where
  "natsEnsureStream L m js x =
     (case js_StreamInfo L js (nbStreamName m) x of
        (Inr _, x1) \<Rightarrow> (Inr (), x1)
      | (Inl _, x1) \<Rightarrow> js_AddStream L js (natsStream m) x1)"

definition natsStart ::
  "('x, 'c, 'j, 'k) nats_lib \<Rightarrow> 'k tls_files \<Rightarrow> ('c, 'j) natsModule \<Rightarrow> 'x \<Rightarrow>
   (goerr + unit) \<times> ('c, 'j) natsModule \<times> 'x" where
  "natsStart L F m x =
     (case BuildTLSConfig F (nbTls m) of
        Inl e \<Rightarrow> (Inl e, m, x)
      | Inr tlsConfig \<Rightarrow>
          (case nats_Connect L (nbUrl m) (natsOpts m tlsConfig) x of
             (Inl e, x1) \<Rightarrow> (Inl e, m, x1)
           | (Inr nc, x1) \<Rightarrow>
               (case nc_JetStream L nc x1 of
                  (Inl e, x2) \<Rightarrow> (Inl e, m, nc_Close L nc x2)
                | (Inr js, x2) \<Rightarrow>
                    (case natsEnsureStream L m js x2 of
                       (Inl addErr, x3) \<Rightarrow> (Inl addErr, m, nc_Close L nc x3)
                     | (Inr _, x3) \<Rightarrow> (Inr (), m\<lparr>nbNc := Some nc, nbJs := Some js\<rparr>, x3)))))"

definition natsReady :: "('x, 'c, 'j, 'k) nats_lib \<Rightarrow> ('c, 'j) natsModule \<Rightarrow> 'x \<Rightarrow> goerr + unit" where
  "natsReady L m x =
     (case nbNc m of
        None \<Rightarrow> Inl (ErrMsg ''nats not connected'')
      | Some nc \<Rightarrow> (if \<not> nc_IsConnected L nc x then Inl (ErrMsg ''nats not connected'') else Inr ()))"

definition natsStop ::
  "('x, 'c, 'j, 'k) nats_lib \<Rightarrow> ('c, 'j) natsModule \<Rightarrow> 'x \<Rightarrow> (goerr + unit) \<times> ('c, 'j) natsModule \<times> 'x" where
  "natsStop L m x =
     (let m1 = m\<lparr>nbNc := None, nbJs := None\<rparr> in
      case nbNc m of
        None \<Rightarrow> (Inr (), m1, x)
      | Some nc \<Rightarrow>
          (case nc_Drain L nc x of
             (Inl e, x1) \<Rightarrow> (Inl e, m1, nc_Close L nc x1)
           | (Inr _, x1) \<Rightarrow> (Inr (), m1, x1)))"

definition MsgIdHdr :: string where "MsgIdHdr = ''Nats-Msg-Id''"

definition natsMessage :: "string \<Rightarrow> string \<Rightarrow> string \<Rightarrow> natsMsg" where
  "natsMessage subject data messageID =
     \<lparr>nmSubject = subject, nmData = data,
      nmHeader = (if messageID \<noteq> [] then [MsgIdHdr \<mapsto> messageID] else Map.empty)\<rparr>"

definition natsPublish ::
  "('x, 'c, 'j, 'k) nats_lib \<Rightarrow> ('c, 'j) natsModule \<Rightarrow> string \<Rightarrow> string \<Rightarrow> string \<Rightarrow> (string, 'x) call" where
  "natsPublish L m subject data messageID x =
     (case nbJs m of
        None \<Rightarrow> (Inl (ErrMsg ''jetstream not ready''), x)
      | Some js \<Rightarrow>
          (case ctx_Err L x of
             Some e \<Rightarrow> (Inl e, x)
           | None \<Rightarrow>
               (case js_PublishMsg L js (natsMessage subject data messageID) x of
                  (Inl e, x1) \<Rightarrow> (Inl (ErrMsg (''publish '' @ subject @ '': '' @ err_string e)), x1)
                | (Inr ack, x1) \<Rightarrow> (Inr (paStream ack @ '':'' @ Itoa (int (paSequence ack))), x1))))"

text \<open>What the callback of \<open>Subscribe\<close> hands to its handler for a delivered message.\<close>

definition natsDeliver :: "natsMsg \<Rightarrow> goerr + MsgMetadata \<Rightarrow> time \<Rightarrow> BusMessage" where
  "natsDeliver msg metadata now =
     (let id0 = (case nmHeader msg MsgIdHdr of None \<Rightarrow> [] | Some v \<Rightarrow> v);
          messageID =
            (if id0 = [] then
               (case metadata of
                  Inl _ \<Rightarrow> id0
                | Inr meta \<Rightarrow> mdStream meta @ '':'' @ Itoa (int (mdStreamSeq meta)) @ '':'' @ Itoa (int (mdConsumerSeq meta)))
             else id0)
      in \<lparr>bmSubject = nmSubject msg, bmMessageID = messageID, bmData = nmData msg, bmReceivedAt = now\<rparr>)"

definition natsSubscribe ::
  "('x, 'c, 'j, 'k) nats_lib \<Rightarrow> ('c, 'j) natsModule \<Rightarrow> string \<Rightarrow> (unit, 'x) call" where
  "natsSubscribe L m subject x =
     (case nbNc m of
        None \<Rightarrow> (Inl (ErrMsg ''nats not connected''), x)
      | Some nc \<Rightarrow> nc_Subscribe L nc subject x)"

text \<open>The module as the core sees it: its state and the world of the client make up the world.\<close>

definition natsAsModule ::
  "('x, 'c, 'j, 'k) nats_lib \<Rightarrow> 'k tls_files \<Rightarrow> (('c, 'j) natsModule \<times> 'x) Module" where
  "natsAsModule L F =
     \<lparr>moduleName = ''natsbus'',
      moduleStart = (\<lambda>(m, x). natsStart L F m x),
      moduleReady = (\<lambda>(m, x). (natsReady L m x, (m, x))),
      moduleStop = (\<lambda>(m, x). natsStop L m x)\<rparr>"

definition natsAsBus :: "('x, 'c, 'j, 'k) nats_lib \<Rightarrow> (('c, 'j) natsModule \<times> 'x) EventBus" where
  "natsAsBus L =
     \<lparr>busPublishOp = (\<lambda>subject data messageID (m, x).
        let (r, x1) = natsPublish L m subject data messageID x in (r, (m, x1))),
      busSubscribeOp = (\<lambda>subject (m, x). let (r, x1) = natsSubscribe L m subject x in (r, (m, x1)))\<rparr>"

section \<open>The client\<close>

text \<open>What the module relies on, as the NATS client documents it: \<open>opn\<close> is the set of open
  connections, \<open>acked\<close> the set of messages JetStream has acknowledged.\<close>

definition nats_keeps :: "('x \<Rightarrow> 'c set) \<Rightarrow> ('x \<Rightarrow> natsMsg set) \<Rightarrow> ('x \<Rightarrow> 'a \<times> 'x) \<Rightarrow> bool" where
  "nats_keeps opn acked f \<longleftrightarrow> (\<forall>x. opn (snd (f x)) = opn x \<and> acked x \<subseteq> acked (snd (f x)))"

definition nats_connects :: "('x, 'c, 'j, 'k) nats_lib \<Rightarrow> ('x \<Rightarrow> 'c set) \<Rightarrow> ('x \<Rightarrow> natsMsg set) \<Rightarrow> bool" where
  "nats_connects L opn acked \<longleftrightarrow>
     (\<forall>u os x. acked x \<subseteq> acked (snd (nats_Connect L u os x)) \<and>
        (case nats_Connect L u os x of
           (Inl _, x1) \<Rightarrow> opn x1 = opn x
         | (Inr c, x1) \<Rightarrow> c \<notin> opn x \<and> opn x1 = insert c (opn x)))"

definition nats_publishes :: "('x, 'c, 'j, 'k) nats_lib \<Rightarrow> ('x \<Rightarrow> natsMsg set) \<Rightarrow> bool" where
  "nats_publishes L acked \<longleftrightarrow>
     (\<forall>j msg x ack x1. js_PublishMsg L j msg x = (Inr ack, x1) \<longrightarrow> msg \<in> acked x1)"

definition nats_closes :: "('x, 'c, 'j, 'k) nats_lib \<Rightarrow> ('x \<Rightarrow> 'c set) \<Rightarrow> ('x \<Rightarrow> natsMsg set) \<Rightarrow> bool" where
  "nats_closes L opn acked \<longleftrightarrow>
     (\<forall>c x. opn (nc_Close L c x) = opn x - {c} \<and> acked x \<subseteq> acked (nc_Close L c x)) \<and>
     (\<forall>c x. acked x \<subseteq> acked (snd (nc_Drain L c x)) \<and> opn x - {c} \<subseteq> opn (snd (nc_Drain L c x)) \<and>
        opn (snd (nc_Drain L c x)) \<subseteq> opn x \<and>
        (\<forall>u. fst (nc_Drain L c x) = Inr u \<longrightarrow> c \<notin> opn (snd (nc_Drain L c x))))"

definition nats_ok :: "('x, 'c, 'j, 'k) nats_lib \<Rightarrow> ('x \<Rightarrow> 'c set) \<Rightarrow> ('x \<Rightarrow> natsMsg set) \<Rightarrow> bool" where
  "nats_ok L opn acked \<longleftrightarrow>
     nats_connects L opn acked \<and> nats_publishes L acked \<and> nats_closes L opn acked \<and>
     (\<forall>c. nats_keeps opn acked (nc_JetStream L c)) \<and>
     (\<forall>j s. nats_keeps opn acked (js_StreamInfo L j s)) \<and>
     (\<forall>j sc. nats_keeps opn acked (js_AddStream L j sc)) \<and>
     (\<forall>c s. nats_keeps opn acked (nc_Subscribe L c s)) \<and>
     (\<forall>j msg. nats_keeps opn acked (js_PublishMsg L j msg))"

lemma nats_keepsD: "nats_keeps opn acked f \<Longrightarrow> f x = (r, x') \<Longrightarrow> opn x' = opn x \<and> acked x \<subseteq> acked x'"
  unfolding nats_keeps_def by (metis snd_conv)

lemma nats_okD:
  assumes "nats_ok L opn acked"
  shows "nats_Connect L u os x = (Inl e, x1) \<Longrightarrow> opn x1 = opn x"
    and "nats_Connect L u os x = (Inr c, x1) \<Longrightarrow> c \<notin> opn x \<and> opn x1 = insert c (opn x)"
    and "nc_JetStream L c x = (j, x1) \<Longrightarrow> opn x1 = opn x"
    and "js_StreamInfo L js s x = (i, x1) \<Longrightarrow> opn x1 = opn x"
    and "js_AddStream L js sc x = (i, x1) \<Longrightarrow> opn x1 = opn x"
    and "js_PublishMsg L js msg x = (r, x1) \<Longrightarrow> opn x1 = opn x \<and> acked x \<subseteq> acked x1"
    and "js_PublishMsg L js msg x = (Inr ack, x1) \<Longrightarrow> msg \<in> acked x1"
    and "opn (nc_Close L c x) = opn x - {c}"
    and "nc_Drain L c x = (d, x1) \<Longrightarrow> opn x1 - {c} = opn x - {c}"
    and "nc_Drain L c x = (Inr v, x1) \<Longrightarrow> opn x1 = opn x - {c}"
proof -
  have cn: "nats_connects L opn acked" and pb: "nats_publishes L acked" and cl: "nats_closes L opn acked"
    and js: "nats_keeps opn acked (nc_JetStream L c)" and si: "nats_keeps opn acked (js_StreamInfo L js s)"
    and as: "nats_keeps opn acked (js_AddStream L js sc)" and pm: "nats_keeps opn acked (js_PublishMsg L js msg)"
    using assms by (simp_all add: nats_ok_def)
  have conn: "case nats_Connect L u os x of (Inl _, x1) \<Rightarrow> opn x1 = opn x
      | (Inr c, x1) \<Rightarrow> c \<notin> opn x \<and> opn x1 = insert c (opn x)"
    using cn by (simp add: nats_connects_def)
  then show "nats_Connect L u os x = (Inl e, x1) \<Longrightarrow> opn x1 = opn x"
    and "nats_Connect L u os x = (Inr c, x1) \<Longrightarrow> c \<notin> opn x \<and> opn x1 = insert c (opn x)"
    by simp_all
  show "nc_JetStream L c x = (j, x1) \<Longrightarrow> opn x1 = opn x" using nats_keepsD[OF js] by (rule conjunct1)
  show "js_StreamInfo L js s x = (i, x1) \<Longrightarrow> opn x1 = opn x" using nats_keepsD[OF si] by (rule conjunct1)
  show "js_AddStream L js sc x = (i, x1) \<Longrightarrow> opn x1 = opn x" using nats_keepsD[OF as] by (rule conjunct1)
  show "js_PublishMsg L js msg x = (r, x1) \<Longrightarrow> opn x1 = opn x \<and> acked x \<subseteq> acked x1" by (rule nats_keepsD[OF pm])
  show "js_PublishMsg L js msg x = (Inr ack, x1) \<Longrightarrow> msg \<in> acked x1" using pb by (simp add: nats_publishes_def)
  show "opn (nc_Close L c x) = opn x - {c}" using cl by (simp add: nats_closes_def)
  have d: "opn x - {c} \<subseteq> opn (snd (nc_Drain L c x)) \<and> opn (snd (nc_Drain L c x)) \<subseteq> opn x \<and>
        (\<forall>u. fst (nc_Drain L c x) = Inr u \<longrightarrow> c \<notin> opn (snd (nc_Drain L c x)))"
    using cl by (simp add: nats_closes_def)
  show "nc_Drain L c x = (d, x1) \<Longrightarrow> opn x1 - {c} = opn x - {c}" using d by auto
  show "nc_Drain L c x = (Inr v, x1) \<Longrightarrow> opn x1 = opn x - {c}" using d by auto
qed

section \<open>Lifecycle\<close>

definition nats_held :: "('c, 'j) natsModule \<times> 'x \<Rightarrow> 'c set" where
  "nats_held w = set_option (nbNc (fst w))"

lemma natsEnsureStream_opn:
  assumes "nats_ok L opn acked" and "natsEnsureStream L m js x = (r, x1)"
  shows "opn x1 = opn x"
  using assms(2) nats_okD(4,5)[OF assms(1)]
  by (fastforce simp: natsEnsureStream_def split: prod.splits sum.splits)

text \<open>A start opens the connection the module then holds, or nothing.\<close>

lemma natsStart_opn:
  assumes ok: "nats_ok L opn acked" and st: "natsStart L F m x = (r, m', x')"
  shows "case r of
     Inl _ \<Rightarrow> m' = m \<and> opn x' = opn x
   | Inr _ \<Rightarrow> (\<exists>nc js. m' = m\<lparr>nbNc := Some nc, nbJs := Some js\<rparr> \<and> nc \<notin> opn x \<and> opn x' = insert nc (opn x))"
proof (cases "BuildTLSConfig F (nbTls m)")
  case (Inl e)
  with st show ?thesis by (auto simp: natsStart_def)
next
  case (Inr tlsConfig)
  obtain c x1 where c: "nats_Connect L (nbUrl m) (natsOpts m tlsConfig) x = (c, x1)" by fastforce
  show ?thesis
  proof (cases c)
    case (Inl e)
    with Inr c st nats_okD(1)[OF ok] show ?thesis by (auto simp: natsStart_def)
  next
    case conn: (Inr nc)
    note o1 = nats_okD(2)[OF ok c[unfolded conn]]
    obtain j x2 where j: "nc_JetStream L nc x1 = (j, x2)" by fastforce
    note o2 = nats_okD(3)[OF ok j]
    show ?thesis
    proof (cases j)
      case (Inl e)
      with Inr c conn j st o1 o2 nats_okD(8)[OF ok] show ?thesis by (auto simp: natsStart_def)
    next
      case js: (Inr js)
      obtain s x3 where s: "natsEnsureStream L m js x2 = (s, x3)" by fastforce
      from Inr c conn j js s st o1 o2 natsEnsureStream_opn[OF ok s] nats_okD(8)[OF ok] show ?thesis
        by (auto simp: natsStart_def split: sum.splits)
    qed
  qed
qed

lemma natsStop_opn:
  assumes ok: "nats_ok L opn acked" and st: "natsStop L m x = (r, m', x')"
  shows "nbNc m' = None \<and> nbJs m' = None \<and> opn x' = opn x - set_option (nbNc m)"
proof (cases "nbNc m")
  case None
  with st show ?thesis by (auto simp: natsStop_def Let_def)
next
  case (Some nc)
  obtain d x1 where d: "nc_Drain L nc x = (d, x1)" by fastforce
  show ?thesis
  proof (cases d)
    case (Inl e)
    with Some d st nats_okD(8,9)[OF ok] show ?thesis by (auto simp: natsStop_def Let_def)
  next
    case (Inr u)
    with Some d st nats_okD(10)[OF ok] show ?thesis by (auto simp: natsStop_def Let_def)
  qed
qed

lemma nats_leakfree:
  assumes ok: "nats_ok L opn acked"
  shows "leakfree (natsAsModule L F) (\<lambda>(m, x). opn x) nats_held"
proof
  fix w u w'
  assume "(\<lambda>(m, x). opn x) w = {}" "nats_held w = {}" "moduleStart (natsAsModule L F) w = (Inr u, w')"
  moreover obtain m x m' x' where "w = (m, x)" "w' = (m', x')" by fastforce
  ultimately show "(\<lambda>(m, x). opn x) w' = nats_held w'"
    using natsStart_opn[OF ok, of F m x "Inr u" m' x'] by (auto simp: natsAsModule_def nats_held_def)
next
  fix w e w'
  assume "(\<lambda>(m, x). opn x) w = {}" "nats_held w = {}" "moduleStart (natsAsModule L F) w = (Inl e, w')"
  moreover obtain m x m' x' where "w = (m, x)" "w' = (m', x')" by fastforce
  ultimately show "(\<lambda>(m, x). opn x) w' = {} \<and> nats_held w' = {}"
    using natsStart_opn[OF ok, of F m x "Inl e" m' x'] by (auto simp: natsAsModule_def nats_held_def)
next
  fix w r w'
  assume "(\<lambda>(m, x). opn x) w = nats_held w" "moduleStop (natsAsModule L F) w = (r, w')"
  moreover obtain m x m' x' where "w = (m, x)" "w' = (m', x')" by fastforce
  ultimately show "(\<lambda>(m, x). opn x) w' = {} \<and> nats_held w' = {}"
    using natsStop_opn[OF ok, of m x r m' x'] by (auto simp: natsAsModule_def nats_held_def)
qed

section \<open>Publishing and delivery\<close>

lemma natsPublish_cases:
  assumes "natsPublish L m subject data messageID x = (r, x')"
  shows "(nbJs m = None \<and> r = Inl (ErrMsg ''jetstream not ready'') \<and> x' = x) \<or>
     (\<exists>js e. nbJs m = Some js \<and> ctx_Err L x = Some e \<and> r = Inl e \<and> x' = x) \<or>
     (\<exists>js q. nbJs m = Some js \<and> ctx_Err L x = None \<and>
        js_PublishMsg L js (natsMessage subject data messageID) x = (q, x') \<and>
        r = (case q of Inl e \<Rightarrow> Inl (ErrMsg (''publish '' @ subject @ '': '' @ err_string e))
             | Inr ack \<Rightarrow> Inr (paStream ack @ '':'' @ Itoa (int (paSequence ack)))))"
  using assms by (auto simp: natsPublish_def split: option.splits prod.splits sum.splits)

lemma natsPublish_opn:
  assumes "nats_ok L opn acked" and "natsPublish L m subject data messageID x = (r, x')"
  shows "opn x' = opn x \<and> acked x \<subseteq> acked x'"
  using natsPublish_cases[OF assms(2)] nats_okD(6)[OF assms(1)] by blast

lemma natsPublish_acked:
  assumes "nats_ok L opn acked" and "natsPublish L m subject data messageID x = (Inr b, x')"
  shows "natsMessage subject data messageID \<in> acked x'"
  using natsPublish_cases[OF assms(2)] nats_okD(7)[OF assms(1)] by (fastforce split: sum.splits)

lemma natsDeliver_message:
  "natsDeliver (natsMessage subject data messageID) metadata now =
   \<lparr>bmSubject = subject,
    bmMessageID = (if messageID \<noteq> [] then messageID
      else case metadata of Inl _ \<Rightarrow> []
        | Inr meta \<Rightarrow> mdStream meta @ '':'' @ Itoa (int (mdStreamSeq meta)) @ '':'' @ Itoa (int (mdConsumerSeq meta))),
    bmData = data, bmReceivedAt = now\<rparr>"
  by (auto simp: natsDeliver_def natsMessage_def Let_def split: sum.splits)

section \<open>A client in memory\<close>

text \<open>A NATS client that keeps everything in memory and meets the documented behaviour: the
  connections, the streams and the log of acknowledged messages.\<close>

record memNats =
  mnDown :: bool
  mnOpen :: "nat list"
  mnStreams :: "string list"
  mnLog :: "natsMsg list"

definition mem_nats :: "(memNats, nat, nat, unit) nats_lib" where
  "mem_nats = \<lparr>
     nats_Connect = (\<lambda>u os x. if mnDown x then (Inl (ErrMsg ''nats: no servers available''), x)
        else (let c = Suc (foldr max (mnOpen x) 0) in (Inr c, x\<lparr>mnOpen := c # mnOpen x\<rparr>))),
     nc_JetStream = (\<lambda>c x. (Inr c, x)),
     nc_Close = (\<lambda>c x. x\<lparr>mnOpen := filter (\<lambda>k. k \<noteq> c) (mnOpen x)\<rparr>),
     nc_IsConnected = (\<lambda>c x. \<not> mnDown x \<and> c \<in> set (mnOpen x)),
     nc_Drain = (\<lambda>c x. if mnDown x then (Inl (ErrMsg ''nats: connection closed''), x)
        else (Inr (), x\<lparr>mnOpen := filter (\<lambda>k. k \<noteq> c) (mnOpen x)\<rparr>)),
     nc_Subscribe = (\<lambda>c s x. (Inr (), x)),
     js_StreamInfo = (\<lambda>j s x. if s \<in> set (mnStreams x) then (Inr (), x) else (Inl (ErrMsg ''nats: stream not found''), x)),
     js_AddStream = (\<lambda>j sc x. if mnDown x then (Inl (ErrMsg ''nats: timeout''), x)
        else (Inr (), x\<lparr>mnStreams := scName sc # mnStreams x\<rparr>)),
     js_PublishMsg = (\<lambda>j msg x. if mnDown x then (Inl (ErrMsg ''nats: timeout''), x)
        else (Inr \<lparr>paStream = ''EVENTS'', paSequence = Suc (length (mnLog x))\<rparr>, x\<lparr>mnLog := msg # mnLog x\<rparr>)),
     ctx_Err = (\<lambda>x. None)\<rparr>"

lemma mem_nats_ok: "nats_ok mem_nats (\<lambda>x. set (mnOpen x)) (\<lambda>x. set (mnLog x))"
  unfolding nats_ok_def nats_keeps_def nats_connects_def nats_publishes_def nats_closes_def
  by (auto simp: mem_nats_def Let_def foldr_max_fresh split: if_splits)

interpretation mem_bus: leakfree "natsAsModule mem_nats F" "\<lambda>(m, x). set (mnOpen x)" nats_held
  by (rule nats_leakfree[OF mem_nats_ok])


definition nats0 :: "(nat, nat) natsModule \<times> memNats" where
  "nats0 = (natsNew ''nats://localhost'' ''EVENTS'' [] [] []
       \<lparr>CAFile = [], CertFile = [], KeyFile = [], ServerName = [], InsecureSkipVerify = False\<rparr>,
     \<lparr>mnDown = False, mnOpen = [], mnStreams = [], mnLog = []\<rparr>)"

definition noFiles :: "unit tls_files" where
  "noFiles = \<lparr>ReadFile = \<lambda>_. Inl (ErrMsg ''no such file''), pemCerts = \<lambda>_. [],
     LoadX509KeyPair = \<lambda>_ _. Inl (ErrMsg ''no such file'')\<rparr>"


end
