(* ===== verification/Etcd_Coord.thy ===== *)
theory Etcd_Coord
  imports Module_Lifecycle Tls_Config
begin

text \<open>
  The coordinator of \<^verbatim>\<open>internal/modules/etcdcoord/module.go\<close>. The first part is the lifecycle over
  an arbitrary etcd client; the second part is the election: the two goroutines that \<open>Start\<close>
  launches as step functions over the fields they share, interleaved in any order, one atomic load
  or store at a time.
\<close>

section \<open>Lifecycle\<close>

record 'k etcdConfig =
  ecEndpoints :: "string list"
  ecDialTimeout :: duration
  ecUsername :: string
  ecPassword :: string
  ecTLS :: "'k tls_Config option"

text \<open>Clients, sessions and elections are handles.\<close>

record ('x, 'cl, 'se, 'el, 'k) etcd_lib =
  clientv3_New :: "'k etcdConfig \<Rightarrow> ('cl, 'x) call"
  NewSession :: "'cl \<Rightarrow> int \<Rightarrow> ('se, 'x) call"
  NewElection :: "'se \<Rightarrow> string \<Rightarrow> 'el"
  cl_Status :: "'cl \<Rightarrow> string \<Rightarrow> (unit, 'x) call"
  cl_Close :: "'cl \<Rightarrow> (unit, 'x) call"
  se_Close :: "'se \<Rightarrow> (unit, 'x) call"
  el_Resign :: "'el \<Rightarrow> (unit, 'x) call"

text \<open>The state the goroutines share with the methods: the election they work on, whether their
  context has ended, and the two atomics. \<open>Start\<close> creates the context and the goroutines.\<close>

datatype campaignPC = CampLoad | Campaigning | CampStoreLeader | CampStoreID | CampAwait | CampClear | CampEnd
datatype observePC = ObsLoad | ObsSelect | ObsStoreID string | ObsStoreFlag string | ObsEnd

record 'el coordState =
  csElection :: "'el option"
  csCtxDone :: bool
  csIsLeader :: bool
  csLeaderID :: string
  csCamp :: campaignPC
  csObs :: observePC

record ('cl, 'se, 'el) etcdModule =
  edNodeID :: string
  edEndpoints :: "string list"
  edElectionKey :: string
  edUser :: string
  edPassword :: string
  edTls :: TLSOptions
  edClient :: "'cl option"
  edSession :: "'se option"
  edCancel :: bool
  edCoord :: "'el coordState"

text \<open>Before \<open>Start\<close> there is no goroutine.\<close>

definition etcdNew :: "string \<Rightarrow> string list \<Rightarrow> string \<Rightarrow> string \<Rightarrow> string \<Rightarrow> TLSOptions \<Rightarrow> ('cl, 'se, 'el) etcdModule" where
  "etcdNew nodeID endpoints electionKey user password tlsOpts =
     \<lparr>edNodeID = nodeID, edEndpoints = endpoints, edElectionKey = electionKey, edUser = user,
      edPassword = password, edTls = tlsOpts, edClient = None, edSession = None, edCancel = False,
      edCoord = \<lparr>csElection = None, csCtxDone = False, csIsLeader = False, csLeaderID = [],
        csCamp = CampEnd, csObs = ObsEnd\<rparr>\<rparr>"

definition etcdStart ::
  "('x, 'cl, 'se, 'el, 'k) etcd_lib \<Rightarrow> 'k tls_files \<Rightarrow> ('cl, 'se, 'el) etcdModule \<Rightarrow> 'x \<Rightarrow>
   (goerr + unit) \<times> ('cl, 'se, 'el) etcdModule \<times> 'x" where
  "etcdStart L F m x =
     (case BuildTLSConfig F (edTls m) of
        Inl e \<Rightarrow> (Inl e, m, x)
      | Inr tlsConfig \<Rightarrow>
          (case clientv3_New L \<lparr>ecEndpoints = edEndpoints m, ecDialTimeout = 5 * second, ecUsername = edUser m,
                  ecPassword = edPassword m, ecTLS = tlsConfig\<rparr> x of
             (Inl e, x1) \<Rightarrow> (Inl e, m, x1)
           | (Inr client, x1) \<Rightarrow>
               (case NewSession L client 10 x1 of
                  (Inl e, x2) \<Rightarrow> (Inl e, m, snd (cl_Close L client x2))
                | (Inr session, x2) \<Rightarrow>
                    (Inr (),
                     m\<lparr>edClient := Some client, edSession := Some session, edCancel := True,
                       edCoord := (edCoord m)\<lparr>csElection := Some (NewElection L session (edElectionKey m)),
                         csCtxDone := False, csCamp := CampLoad, csObs := ObsLoad\<rparr>\<rparr>, x2))))"

text \<open>\<open>m.endpoints[0]\<close> panics when there is no endpoint.\<close>

definition etcdReady :: "('x, 'cl, 'se, 'el, 'k) etcd_lib \<Rightarrow> ('cl, 'se, 'el) etcdModule \<Rightarrow> (unit, 'x) call" where
  "etcdReady L m x =
     (case edClient m of
        None \<Rightarrow> (Inl (ErrMsg ''etcd not connected''), x)
      | Some client \<Rightarrow>
          (case edEndpoints m of
             [] \<Rightarrow> (Inl (ErrMsg ''runtime error: index out of range [0] with length 0''), x)
           | ep # _ \<Rightarrow> cl_Status L client ep x))"

text \<open>The locked section of \<open>Stop\<close> with the call of \<open>cancel\<close>, and then its calls on the client.
  The goroutines may run in between: \<open>leader\<close> is what \<open>m.isLeader.Load()\<close> returns there.\<close>

definition stopCoord :: "bool \<Rightarrow> 'el coordState \<Rightarrow> 'el coordState" where
  "stopCoord hasCancel c = c\<lparr>csElection := None, csCtxDone := csCtxDone c \<or> hasCancel\<rparr>"

definition etcdStopCalls ::
  "('x, 'cl, 'se, 'el, 'k) etcd_lib \<Rightarrow> 'el option \<Rightarrow> 'se option \<Rightarrow> 'cl option \<Rightarrow> bool \<Rightarrow> (unit, 'x) call" where
  "etcdStopCalls L election session client leader x =
     (let x1 = (case election of Some el \<Rightarrow> if leader then snd (el_Resign L el x) else x | None \<Rightarrow> x);
          x2 = (case session of Some se \<Rightarrow> snd (se_Close L se x1) | None \<Rightarrow> x1)
      in case client of Some cl \<Rightarrow> cl_Close L cl x2 | None \<Rightarrow> (Inr (), x2))"

definition etcdStop ::
  "('x, 'cl, 'se, 'el, 'k) etcd_lib \<Rightarrow> ('cl, 'se, 'el) etcdModule \<Rightarrow> 'x \<Rightarrow>
   (goerr + unit) \<times> ('cl, 'se, 'el) etcdModule \<times> 'x" where
  "etcdStop L m x =
     (let m1 = m\<lparr>edCancel := False, edSession := None, edClient := None,
                 edCoord := stopCoord (edCancel m) (edCoord m)\<rparr>;
          (r, x1) = etcdStopCalls L (csElection (edCoord m)) (edSession m) (edClient m)
             (csIsLeader (edCoord m1)) x
      in (r, m1, x1))"

definition etcdIsLeader :: "('cl, 'se, 'el) etcdModule \<Rightarrow> bool" where
  "etcdIsLeader m = csIsLeader (edCoord m)"

definition etcdLeaderID :: "('cl, 'se, 'el) etcdModule \<Rightarrow> string" where
  "etcdLeaderID m = csLeaderID (edCoord m)"

definition etcdAsModule ::
  "('x, 'cl, 'se, 'el, 'k) etcd_lib \<Rightarrow> 'k tls_files \<Rightarrow> (('cl, 'se, 'el) etcdModule \<times> 'x) Module" where
  "etcdAsModule L F =
     \<lparr>moduleName = ''etcdcoord'',
      moduleStart = (\<lambda>(m, x). etcdStart L F m x),
      moduleReady = (\<lambda>(m, x). let (r, x1) = etcdReady L m x in (r, (m, x1))),
      moduleStop = (\<lambda>(m, x). etcdStop L m x)\<rparr>"

definition etcdAsCoordinator :: "(('cl, 'se, 'el) etcdModule \<times> 'x) Coordinator" where
  "etcdAsCoordinator = \<lparr>coordIsLeader = (\<lambda>w. etcdIsLeader (fst w)), coordLeaderID = (\<lambda>w. etcdLeaderID (fst w))\<rparr>"

section \<open>Election\<close>

text \<open>One step of \<open>runElection\<close>; the first argument is how \<open>Campaign\<close> returns. \<open>None\<close>: the
  goroutine is blocked or has ended.\<close>

fun runElection :: "string \<Rightarrow> goerr option \<Rightarrow> 'el coordState \<Rightarrow> 'el coordState option" where
  "runElection node outcome c =
     (case csCamp c of
        CampLoad \<Rightarrow> Some (c\<lparr>csCamp := if csElection c = None then CampEnd else Campaigning\<rparr>)
      | Campaigning \<Rightarrow> Some (c\<lparr>csCamp := if outcome \<noteq> None then CampEnd else CampStoreLeader\<rparr>)
      | CampStoreLeader \<Rightarrow> Some (c\<lparr>csIsLeader := True, csCamp := CampStoreID\<rparr>)
      | CampStoreID \<Rightarrow> Some (c\<lparr>csLeaderID := node, csCamp := CampAwait\<rparr>)
      | CampAwait \<Rightarrow> if csCtxDone c then Some (c\<lparr>csCamp := CampClear\<rparr>) else None
      | CampClear \<Rightarrow> Some (c\<lparr>csIsLeader := False, csCamp := CampEnd\<rparr>)
      | CampEnd \<Rightarrow> None)"

text \<open>One step of \<open>observeLeader\<close>; the first argument is what the \<open>select\<close> takes: the end of the
  context, the closed channel, or a response with the values of its keys.\<close>

datatype obsEvent = ObsCtx | ObsClosed | ObsResp "string list"

fun observeLeader :: "string \<Rightarrow> obsEvent \<Rightarrow> 'el coordState \<Rightarrow> 'el coordState option" where
  "observeLeader node ev c =
     (case csObs c of
        ObsLoad \<Rightarrow> Some (c\<lparr>csObs := if csElection c = None then ObsEnd else ObsSelect\<rparr>)
      | ObsSelect \<Rightarrow>
          (case ev of
             ObsCtx \<Rightarrow> if csCtxDone c then Some (c\<lparr>csObs := ObsEnd\<rparr>) else None
           | ObsClosed \<Rightarrow> Some (c\<lparr>csObs := ObsEnd\<rparr>)
           | ObsResp [] \<Rightarrow> Some c
           | ObsResp (leader # _) \<Rightarrow> Some (c\<lparr>csObs := ObsStoreID leader\<rparr>))
      | ObsStoreID leader \<Rightarrow> Some (c\<lparr>csLeaderID := leader, csObs := ObsStoreFlag leader\<rparr>)
      | ObsStoreFlag leader \<Rightarrow> Some (c\<lparr>csIsLeader := (leader = node), csObs := ObsSelect\<rparr>)
      | ObsEnd \<Rightarrow> None)"

text \<open>The labels of a run: a step of a goroutine with what it got from outside, the call of \<open>Stop\<close>,
  the end of the context that \<open>Start\<close> was given.\<close>

datatype coordLabel = LElect "goerr option" | LObserve obsEvent | LStop | LCtxEnd

fun coordStep :: "string \<Rightarrow> coordLabel \<Rightarrow> 'el coordState \<Rightarrow> 'el coordState option" where
  "coordStep node (LElect outcome) c = runElection node outcome c"
| "coordStep node (LObserve ev) c = observeLeader node ev c"
| "coordStep node LStop c = Some (stopCoord True c)"
| "coordStep node LCtxEnd c = Some (c\<lparr>csCtxDone := True\<rparr>)"

inductive coord_run :: "string \<Rightarrow> 'el coordState \<Rightarrow> coordLabel list \<Rightarrow> 'el coordState \<Rightarrow> bool" for node where
  run_nil: "coord_run node c [] c"
| run_snoc: "coord_run node c ls c1 \<Longrightarrow> coordStep node l c1 = Some c2 \<Longrightarrow> coord_run node c (ls @ [l]) c2"

inductive_cases coord_run_nilE: "coord_run node c [] c'"

text \<open>The state \<open>Start\<close> leaves.\<close>

definition coordStarted :: "'el \<Rightarrow> 'el coordState" where
  "coordStarted el = \<lparr>csElection = Some el, csCtxDone = False, csIsLeader = False, csLeaderID = [],
     csCamp = CampLoad, csObs = ObsLoad\<rparr>"

section \<open>Who is the leader\<close>

text \<open>A response that names \<open>v\<close> as the leader.\<close>

definition observed :: "string \<Rightarrow> coordLabel list \<Rightarrow> bool" where
  "observed v ls \<longleftrightarrow> (\<exists>vs. LObserve (ObsResp (v # vs)) \<in> set ls)"

lemma observed_snoc [simp]:
  "observed v (ls @ [l]) \<longleftrightarrow> observed v ls \<or> (\<exists>vs. l = LObserve (ObsResp (v # vs)))"
  by (auto simp: observed_def)

lemma observed_Nil [simp]: "\<not> observed v []"
  by (simp add: observed_def)

text \<open>The invariant of a run with the labels \<open>ls\<close>: why the flag is up, where the leader comes from,
  and what the observer is about to store.\<close>

definition coord_inv :: "string \<Rightarrow> coordLabel list \<Rightarrow> 'el coordState \<Rightarrow> bool" where
  "coord_inv node ls c \<longleftrightarrow>
     (csIsLeader c \<longrightarrow> csCamp c \<in> {CampStoreID, CampAwait, CampClear} \<or> observed node ls) \<and>
     (csLeaderID c = [] \<or> csLeaderID c = node \<or> observed (csLeaderID c) ls) \<and>
     (case csObs c of ObsStoreID v \<Rightarrow> observed v ls | ObsStoreFlag v \<Rightarrow> observed v ls | _ \<Rightarrow> True)"

lemma coord_inv_elect:
  "coord_inv node ls c \<Longrightarrow> runElection node out c = Some c' \<Longrightarrow> coord_inv node (ls @ [LElect out]) c'"
  by (cases "csCamp c"; cases "csObs c"; clarsimp simp: coord_inv_def split: if_splits)

lemma coord_inv_observe:
  "coord_inv node ls c \<Longrightarrow> observeLeader node ev c = Some c' \<Longrightarrow> coord_inv node (ls @ [LObserve ev]) c'"
  by (cases "csObs c"; cases ev; clarsimp simp: coord_inv_def split: if_splits list.splits; blast)

lemma coord_inv_step:
  assumes "coord_inv node ls c" and "coordStep node l c = Some c'"
  shows "coord_inv node (ls @ [l]) c'"
proof (cases l)
  case (LElect out)
  with assms coord_inv_elect show ?thesis by (metis coordStep.simps(1))
next
  case (LObserve ev)
  with assms coord_inv_observe show ?thesis by (metis coordStep.simps(2))
next
  case LStop
  with assms show ?thesis by (cases "csObs c"; clarsimp simp: coord_inv_def stopCoord_def)
next
  case LCtxEnd
  with assms show ?thesis by (cases "csObs c"; clarsimp simp: coord_inv_def)
qed

lemma coord_inv_run: "coord_run node (coordStarted el) ls c \<Longrightarrow> coord_inv node ls c"
proof (induction "coordStarted el" ls c rule: coord_run.induct)
  case run_nil
  show ?case by (simp add: coord_inv_def coordStarted_def)
next
  case (run_snoc ls c1 l c2)
  then show ?case by (blast intro: coord_inv_step)
qed

text \<open>A node that has been told of another leader, with its campaign decided.\<close>

definition demoted :: "string \<Rightarrow> 'el coordState \<Rightarrow> bool" where
  "demoted node c \<longleftrightarrow> \<not> csIsLeader c \<and> csCamp c \<in> {CampAwait, CampClear, CampEnd} \<and>
     csObs c \<noteq> ObsStoreID node \<and> csObs c \<noteq> ObsStoreFlag node"

lemma demoted_elect: "demoted node c \<Longrightarrow> runElection node out c = Some c' \<Longrightarrow> demoted node c'"
  by (cases "csCamp c"; clarsimp simp: demoted_def split: if_splits)

lemma demoted_observe:
  "demoted node c \<Longrightarrow> observeLeader node ev c = Some c' \<Longrightarrow> \<not> observed node [LObserve ev] \<Longrightarrow> demoted node c'"
  by (cases "csObs c"; cases ev; clarsimp simp: demoted_def observed_def split: if_splits list.splits)

lemma demoted_run:
  "coord_run node c ls c' \<Longrightarrow> demoted node c \<Longrightarrow> \<not> observed node ls \<Longrightarrow> demoted node c'"
proof (induction rule: coord_run.induct)
  case (run_nil c)
  then show ?case by simp
next
  case (run_snoc c ls c1 l c2)
  then have d: "demoted node c1" and no: "\<not> observed node [l]" by (auto simp: observed_def)
  show ?case
  proof (cases l)
    case (LElect out)
    with d run_snoc.hyps(2) show ?thesis by (metis demoted_elect coordStep.simps(1))
  next
    case (LObserve ev)
    with d no run_snoc.hyps(2) show ?thesis by (metis demoted_observe coordStep.simps(2))
  next
    case LStop
    with d run_snoc.hyps(2) show ?thesis by (clarsimp simp: demoted_def stopCoord_def)
  next
    case LCtxEnd
    with d run_snoc.hyps(2) show ?thesis by (clarsimp simp: demoted_def)
  qed
qed

text \<open>C33: Leadership is never claimed without grounds. In every interleaving of the two goroutines with \<open>Stop\<close> and
  the end of the context, the flag is up only while the campaign of this node is won and its end
  not yet handled, or after etcd named this node as the leader; and the reported leader is none, this node or
  one that etcd named. Once the campaign is decided and the flag is down, it stays down until etcd names this
  node again.\<close>

theorem leader_flag_justified:
  "(coord_run node (coordStarted el) ls c \<longrightarrow>
     (csIsLeader c \<longrightarrow> csCamp c \<in> {CampStoreID, CampAwait, CampClear} \<or> observed node ls) \<and>
     csLeaderID c \<in> {[], node} \<union> {v. observed v ls}) \<and>
   (coord_run node c ls' c' \<and> demoted node c \<and> \<not> observed node ls' \<longrightarrow> \<not> csIsLeader c')"
  using coord_inv_run[of node el ls c] demoted_run[of node c ls' c']
  by (auto simp: coord_inv_def demoted_def)

fun coordExec :: "string \<Rightarrow> coordLabel list \<Rightarrow> 'el coordState \<Rightarrow> 'el coordState option" where
  "coordExec node [] c = Some c"
| "coordExec node (l # ls) c =
     (case coordStep node l c of None \<Rightarrow> None | Some c1 \<Rightarrow> coordExec node ls c1)"

lemma coord_run_cons:
  "coord_run node c1 ls c2 \<Longrightarrow> coordStep node l c = Some c1 \<Longrightarrow> coord_run node c (l # ls) c2"
proof (induction rule: coord_run.induct)
  case (run_nil c1)
  then show ?case using run_snoc[OF coord_run.run_nil, of node l c c1] by simp
next
  case (run_snoc c1 ls c2 l' c3)
  then show ?case using coord_run.run_snoc[of node c "l # ls" c2 l' c3] by simp
qed

lemma coordExec_run: "coordExec node ls c = Some c' \<Longrightarrow> coord_run node c ls c'"
proof (induction ls arbitrary: c)
  case Nil
  then show ?case by (simp add: coord_run.run_nil)
next
  case (Cons l ls)
  then show ?case by (auto split: option.splits intro: coord_run_cons)
qed

theorem leader_flag_justified_witness:
  "coordExec ''n1'' [LElect None, LObserve ObsClosed, LElect None, LElect None, LElect None] (coordStarted ()) =
     Some \<lparr>csElection = Some (), csCtxDone = False, csIsLeader = True, csLeaderID = ''n1'',
        csCamp = CampAwait, csObs = ObsSelect\<rparr> \<and>
   csLeaderID \<lparr>csElection = Some (), csCtxDone = False, csIsLeader = True, csLeaderID = ''n1'',
        csCamp = CampAwait, csObs = ObsSelect\<rparr> \<in> {[], ''n1''} \<union>
     {v. observed v [LElect None, LObserve ObsClosed, LElect None, LElect None, LElect None]}"
proof -
  have e: "coordExec ''n1'' [LElect None, LObserve ObsClosed, LElect None, LElect None, LElect None] (coordStarted ()) =
     Some \<lparr>csElection = Some (), csCtxDone = False, csIsLeader = True, csLeaderID = ''n1'',
        csCamp = CampAwait, csObs = ObsSelect\<rparr>" by (simp add: coordStarted_def)
  show ?thesis by (rule conjI[OF e conjunct2[OF mp[OF conjunct1[OF leader_flag_justified] coordExec_run[OF e]]]])
qed

text \<open>C38: The goroutines race. Both write the flag and the leader in two separate stores, so a run
  exists in which etcd has only ever named another leader, and the node ends up reporting its own id as the
  leader's with its flag down; and a run exists in which the flag is up although \<open>Stop\<close> has been called and both goroutines have
  ended.\<close>

theorem leader_flag_race:
  "(\<exists>ls c. coord_run ''n1'' (coordStarted el) (ls @ [LElect None]) c \<and>
      observed ''n2'' ls \<and> \<not> observed ''n1'' ls \<and> \<not> csIsLeader c \<and> csLeaderID c = ''n1'' \<and> csObs c = ObsSelect \<and>
      csCamp c = CampAwait) \<and>
   (\<exists>ls c. coord_run ''n1'' (coordStarted el) ls c \<and> LStop \<in> set ls \<and>
      csCamp c = CampEnd \<and> csObs c = ObsEnd \<and> csIsLeader c)"
proof
  let ?ls = "[LObserve ObsCtx, LElect None, LElect None, LElect None, LObserve (ObsResp [''n2'']), LObserve ObsCtx, LObserve ObsCtx]"
  have "coordExec ''n1'' (?ls @ [LElect None]) (coordStarted el) =
      Some \<lparr>csElection = Some el, csCtxDone = False, csIsLeader = False, csLeaderID = ''n1'', csCamp = CampAwait, csObs = ObsSelect\<rparr>"
    by (simp add: coordStarted_def)
  from coordExec_run[OF this] show "\<exists>ls c. coord_run ''n1'' (coordStarted el) (ls @ [LElect None]) c \<and>
      observed ''n2'' ls \<and> \<not> observed ''n1'' ls \<and> \<not> csIsLeader c \<and> csLeaderID c = ''n1'' \<and> csObs c = ObsSelect \<and> csCamp c = CampAwait"
    by (intro exI[of _ ?ls] exI conjI) (assumption, auto simp: observed_def)
next
  let ?ls = "[LObserve ObsCtx, LElect None, LElect None, LElect None, LElect None, LObserve (ObsResp [''n1'']), LObserve ObsCtx,
     LStop, LElect None, LElect None, LObserve ObsCtx, LObserve ObsCtx]"
  have "coordExec ''n1'' ?ls (coordStarted el) =
      Some \<lparr>csElection = None, csCtxDone = True, csIsLeader = True, csLeaderID = ''n1'', csCamp = CampEnd, csObs = ObsEnd\<rparr>"
    by (simp add: coordStarted_def stopCoord_def)
  from coordExec_run[OF this] show "\<exists>ls c. coord_run ''n1'' (coordStarted el) ls c \<and> LStop \<in> set ls \<and>
      csCamp c = CampEnd \<and> csObs c = ObsEnd \<and> csIsLeader c"
    by (intro exI[of _ ?ls] exI conjI) (assumption, auto)
qed

section \<open>The client\<close>

text \<open>What the module relies on, as the etcd client documents it: \<open>opn\<close> is the set of open clients
  and sessions; a \<open>Close\<close> releases its handle whatever it returns.\<close>

definition etcd_opens :: "('x \<Rightarrow> 'h set) \<Rightarrow> ('a \<Rightarrow> 'h) \<Rightarrow> ('a, 'x) call \<Rightarrow> bool" where
  "etcd_opens opn h f \<longleftrightarrow>
     (\<forall>x. case f x of (Inl _, x1) \<Rightarrow> opn x1 = opn x | (Inr c, x1) \<Rightarrow> h c \<notin> opn x \<and> opn x1 = insert (h c) (opn x))"

definition etcd_ok :: "('x, 'cl, 'se, 'el, 'k) etcd_lib \<Rightarrow> ('x \<Rightarrow> ('cl + 'se) set) \<Rightarrow> bool" where
  "etcd_ok L opn \<longleftrightarrow>
     (\<forall>c. etcd_opens opn Inl (clientv3_New L c)) \<and> (\<forall>cl ttl. etcd_opens opn Inr (NewSession L cl ttl)) \<and>
     (\<forall>cl x. opn (snd (cl_Close L cl x)) = opn x - {Inl cl}) \<and>
     (\<forall>se x. opn (snd (se_Close L se x)) = opn x - {Inr se}) \<and>
     (\<forall>el x. opn (snd (el_Resign L el x)) = opn x) \<and> (\<forall>cl ep x. opn (snd (cl_Status L cl ep x)) = opn x)"

lemma etcd_opensD:
  assumes "etcd_opens opn h f"
  shows "f x = (Inl e, x1) \<Longrightarrow> opn x1 = opn x"
    and "f x = (Inr c, x1) \<Longrightarrow> h c \<notin> opn x \<and> opn x1 = insert (h c) (opn x)"
proof -
  have "case f x of (Inl _, x1) \<Rightarrow> opn x1 = opn x | (Inr c, x1) \<Rightarrow> h c \<notin> opn x \<and> opn x1 = insert (h c) (opn x)"
    using assms by (simp add: etcd_opens_def)
  then show "f x = (Inl e, x1) \<Longrightarrow> opn x1 = opn x"
    and "f x = (Inr c, x1) \<Longrightarrow> h c \<notin> opn x \<and> opn x1 = insert (h c) (opn x)" by simp_all
qed

definition etcd_held :: "('cl, 'se, 'el) etcdModule \<times> 'x \<Rightarrow> ('cl + 'se) set" where
  "etcd_held w = Inl ` set_option (edClient (fst w)) \<union> Inr ` set_option (edSession (fst w))"

lemma etcdStart_opn:
  assumes ok: "etcd_ok L opn" and st: "etcdStart L F m x = (r, m', x')"
  shows "case r of
     Inl _ \<Rightarrow> m' = m \<and> opn x' = opn x
   | Inr _ \<Rightarrow> (\<exists>cl se. edClient m' = Some cl \<and> edSession m' = Some se \<and> opn x' = {Inl cl, Inr se} \<union> opn x)"
proof (cases "BuildTLSConfig F (edTls m)")
  case (Inl e)
  with st show ?thesis by (auto simp: etcdStart_def)
next
  case (Inr t)
  let ?c = "\<lparr>ecEndpoints = edEndpoints m, ecDialTimeout = 5 * second, ecUsername = edUser m, ecPassword = edPassword m, ecTLS = t\<rparr>"
  have n: "etcd_opens opn Inl (clientv3_New L ?c)" and s: "etcd_opens opn Inr (NewSession L cl 10)"
    and cl: "opn (snd (cl_Close L cl y)) = opn y - {Inl cl}" for cl y using ok by (simp_all add: etcd_ok_def)
  obtain c x1 where c: "clientv3_New L ?c x = (c, x1)" by fastforce
  show ?thesis
  proof (cases c)
    case (Inl e)
    with Inr c st etcd_opensD(1)[OF n] show ?thesis by (auto simp: etcdStart_def)
  next
    case conn: (Inr client)
    note o1 = etcd_opensD(2)[OF n c[unfolded conn]]
    obtain q x2 where q: "NewSession L client 10 x1 = (q, x2)" by fastforce
    show ?thesis
    proof (cases q)
      case (Inl e)
      with Inr c conn q st o1 etcd_opensD(1)[OF s] cl show ?thesis by (auto simp: etcdStart_def)
    next
      case sess: (Inr session)
      from etcd_opensD(2)[OF s q[unfolded sess]] Inr c conn q sess st o1 show ?thesis by (auto simp: etcdStart_def)
    qed
  qed
qed

lemma etcdStop_opn:
  assumes ok: "etcd_ok L opn" and st: "etcdStop L m x = (r, m', x')"
  shows "edClient m' = None \<and> edSession m' = None \<and> opn x' = opn x - etcd_held (m, x)"
proof -
  have c: "opn (snd (cl_Close L cl y)) = opn y - {Inl cl}" "opn (snd (se_Close L se y)) = opn y - {Inr se}"
    "opn (snd (el_Resign L el y)) = opn y" for cl se el y using ok by (simp_all add: etcd_ok_def)
  have "opn (snd (etcdStopCalls L el se cl leader x)) =
      opn x - (Inl ` set_option cl \<union> Inr ` set_option se)" for el se cl leader
    by (cases el; cases se; cases cl) (auto simp: etcdStopCalls_def c)
  moreover have "x' = snd (etcdStopCalls L (csElection (edCoord m)) (edSession m) (edClient m)
     (csIsLeader (stopCoord (edCancel m) (edCoord m))) x)" "edClient m' = None" "edSession m' = None"
    using st by (auto simp: etcdStop_def Let_def split: prod.splits)
  ultimately show ?thesis by (simp add: etcd_held_def)
qed

lemma etcd_leakfree:
  assumes ok: "etcd_ok L opn"
  shows "leakfree (etcdAsModule L F) (\<lambda>(m, x). opn x) etcd_held"
proof
  fix w u w'
  assume "(\<lambda>(m, x). opn x) w = {}" "etcd_held w = {}" "moduleStart (etcdAsModule L F) w = (Inr u, w')"
  moreover obtain m x m' x' where "w = (m, x)" "w' = (m', x')" by fastforce
  ultimately show "(\<lambda>(m, x). opn x) w' = etcd_held w'"
    using etcdStart_opn[OF ok, of F m x "Inr u" m' x'] by (auto simp: etcdAsModule_def etcd_held_def)
next
  fix w e w'
  assume "(\<lambda>(m, x). opn x) w = {}" "etcd_held w = {}" "moduleStart (etcdAsModule L F) w = (Inl e, w')"
  moreover obtain m x m' x' where "w = (m, x)" "w' = (m', x')" by fastforce
  ultimately show "(\<lambda>(m, x). opn x) w' = {} \<and> etcd_held w' = {}"
    using etcdStart_opn[OF ok, of F m x "Inl e" m' x'] by (auto simp: etcdAsModule_def etcd_held_def)
next
  fix w r w'
  assume "(\<lambda>(m, x). opn x) w = etcd_held w" "moduleStop (etcdAsModule L F) w = (r, w')"
  moreover obtain m x m' x' where "w = (m, x)" "w' = (m', x')" by fastforce
  ultimately show "(\<lambda>(m, x). opn x) w' = {} \<and> etcd_held w' = {}"
    using etcdStop_opn[OF ok, of m x r m' x'] by (auto simp: etcdAsModule_def etcd_held_def)
qed

text \<open>A client in memory that meets it: the number of the handles handed out and the open ones.\<close>

record memEtcd =
  meDown :: bool
  meOpen :: "(nat + nat) list"

definition mem_etcd_open :: "(nat \<Rightarrow> nat + nat) \<Rightarrow> (nat, memEtcd) call" where
  "mem_etcd_open h x =
     (let n = Suc (foldr max (map (\<lambda>k. case k of Inl a \<Rightarrow> a | Inr a \<Rightarrow> a) (meOpen x)) 0)
      in if meDown x then (Inl (ErrMsg ''etcdserver: unavailable''), x) else (Inr n, x\<lparr>meOpen := h n # meOpen x\<rparr>))"

definition mem_etcd_close :: "nat + nat \<Rightarrow> (unit, memEtcd) call" where
  "mem_etcd_close k x = (Inr (), x\<lparr>meOpen := filter (\<lambda>j. j \<noteq> k) (meOpen x)\<rparr>)"

definition mem_etcd :: "(memEtcd, nat, nat, nat, unit) etcd_lib" where
  "mem_etcd = \<lparr>clientv3_New = (\<lambda>_. mem_etcd_open Inl), NewSession = (\<lambda>_ _. mem_etcd_open Inr),
     NewElection = (\<lambda>s _. s), cl_Status = (\<lambda>_ _ x. (Inr (), x)), cl_Close = (\<lambda>c. mem_etcd_close (Inl c)),
     se_Close = (\<lambda>s. mem_etcd_close (Inr s)), el_Resign = (\<lambda>_ x. (Inr (), x))\<rparr>"

lemma mem_etcd_fresh:
  assumes "k \<in> set ks"
  shows "k \<noteq> Inl (Suc (foldr max (map (\<lambda>k. case k of Inl a \<Rightarrow> a | Inr a \<Rightarrow> a) ks) 0)) \<and>
    k \<noteq> Inr (Suc (foldr max (map (\<lambda>k. case k of Inl a \<Rightarrow> a | Inr a \<Rightarrow> a) ks) (0::nat)))"
proof -
  have "(case k of Inl a \<Rightarrow> a | Inr a \<Rightarrow> a) \<le> foldr max (map (\<lambda>k. case k of Inl a \<Rightarrow> a | Inr a \<Rightarrow> a) ks) 0"
    using assms by (induction ks) auto
  then show ?thesis by auto
qed

lemma mem_etcd_ok: "etcd_ok mem_etcd (\<lambda>x. set (meOpen x))"
  unfolding etcd_ok_def etcd_opens_def
  by (auto simp: mem_etcd_def mem_etcd_open_def mem_etcd_close_def Let_def dest: mem_etcd_fresh)

interpretation mem_coord: leakfree "etcdAsModule mem_etcd F" "\<lambda>(m, x). set (meOpen x)" etcd_held
  by (rule etcd_leakfree[OF mem_etcd_ok])

end
