(* ===== verification/Cass_Session.thy ===== *)
theory Cass_Session
  imports Module_Lifecycle Tls_Config
begin

text \<open>
  Start, readiness and stop of the event store, \<^verbatim>\<open>internal/modules/cassstore/module.go\<close>: the hosts,
  the cluster settings, the keyspace and the ten tables, over an arbitrary gocql driver. A session is
  a handle of type \<open>'se\<close>. What the operations do on an open session is \<open>Cassstore\<close>.
\<close>

section \<open>Hosts\<close>

fun hostsLoop :: "string list \<Rightarrow> string list \<Rightarrow> int \<Rightarrow> string list \<times> int" where
  "hostsLoop [] hosts port = (hosts, port)"
| "hostsLoop (h0 # rest) hosts port =
     (let h = TrimSpace h0 in
      if h = [] then hostsLoop rest hosts port
      else
        (case SplitHostPort h of
           Some (host, p) \<Rightarrow>
             hostsLoop rest (hosts @ [host]) (case Atoi p of Some parsed \<Rightarrow> parsed | None \<Rightarrow> port)
         | None \<Rightarrow> hostsLoop rest (hosts @ [h]) port))"

definition normalizeHosts :: "string list \<Rightarrow> string list \<times> int" where
  "normalizeHosts inp =
     (let (hosts, port) = hostsLoop inp [] 9042
      in (if hosts = [] then [''localhost''] else hosts, port))"

section \<open>Schema\<close>

datatype cqlType = CqlText | CqlTimestamp | CqlTimeuuid | CqlInt | CqlBoolean

text \<open>A table: its columns, its partition key, its clustering key, whether rows of a partition are
  stored in descending order.\<close>

record tableDef =
  tdName :: string
  tdColumns :: "(string \<times> cqlType) list"
  tdPartition :: "string list"
  tdClustering :: "string list"
  tdDesc :: bool

definition tdef :: "string \<Rightarrow> (string \<times> cqlType) list \<Rightarrow> string list \<Rightarrow> string list \<Rightarrow> bool \<Rightarrow> tableDef" where
  "tdef n cols pk ck dsc = \<lparr>tdName = n, tdColumns = cols, tdPartition = pk, tdClustering = ck, tdDesc = dsc\<rparr>"

definition ddl :: "tableDef list" where
  "ddl = [
     tdef ''events_by_stream''
       [(''stream'', CqlText), (''occurred_at'', CqlTimestamp), (''event_id'', CqlTimeuuid), (''subject'', CqlText),
        (''event_type'', CqlText), (''payload'', CqlText)]
       [''stream''] [''occurred_at'', ''event_id''] True,
     tdef ''events_by_id''
       [(''event_id'', CqlTimeuuid), (''stream'', CqlText), (''occurred_at'', CqlTimestamp), (''subject'', CqlText),
        (''event_type'', CqlText), (''payload'', CqlText)]
       [''event_id''] [] False,
     tdef ''idempotency_keys''
       [(''stream'', CqlText), (''idempotency_key'', CqlText), (''event_id'', CqlTimeuuid), (''payload_hash'', CqlText),
        (''created_at'', CqlTimestamp)]
       [''stream''] [''idempotency_key''] False,
     tdef ''idempotency_by_created''
       [(''bucket'', CqlText), (''created_at'', CqlTimestamp), (''stream'', CqlText), (''idempotency_key'', CqlText),
        (''event_id'', CqlTimeuuid)]
       [''bucket''] [''created_at'', ''stream'', ''idempotency_key''] False,
     tdef ''outbox_events''
       [(''event_id'', CqlTimeuuid), (''stream'', CqlText), (''subject'', CqlText), (''event_type'', CqlText),
        (''payload'', CqlText), (''occurred_at'', CqlTimestamp), (''publish_state'', CqlText),
        (''published_at'', CqlTimestamp), (''broker_message_id'', CqlText)]
       [''event_id''] [] False,
     tdef ''outbox_retry_state''
       [(''event_id'', CqlTimeuuid), (''retry_count'', CqlInt), (''next_attempt_at'', CqlTimestamp),
        (''last_error'', CqlText), (''lease_owner'', CqlText), (''lease_until'', CqlTimestamp),
        (''quarantined'', CqlBoolean), (''quarantined_at'', CqlTimestamp), (''first_failed_at'', CqlTimestamp)]
       [''event_id''] [] False,
     tdef ''outbox_by_state''
       [(''publish_state'', CqlText), (''occurred_at'', CqlTimestamp), (''event_id'', CqlTimeuuid), (''stream'', CqlText),
        (''subject'', CqlText), (''event_type'', CqlText), (''payload'', CqlText)]
       [''publish_state''] [''occurred_at'', ''event_id''] False,
     tdef ''inbox_consumed''
       [(''consumer'', CqlText), (''message_id'', CqlText), (''consumed_at'', CqlTimestamp)]
       [''consumer''] [''message_id''] False,
     tdef ''dead_letters_by_time''
       [(''bucket'', CqlText), (''quarantined_at'', CqlTimestamp), (''event_id'', CqlTimeuuid), (''stream'', CqlText),
        (''subject'', CqlText), (''event_type'', CqlText), (''payload'', CqlText), (''retry_count'', CqlInt),
        (''last_error'', CqlText)]
       [''bucket''] [''quarantined_at'', ''event_id''] False,
     tdef ''dead_letters_by_id''
       [(''event_id'', CqlTimeuuid), (''quarantined_at'', CqlTimestamp), (''stream'', CqlText), (''subject'', CqlText),
        (''event_type'', CqlText), (''payload'', CqlText), (''retry_count'', CqlInt), (''last_error'', CqlText)]
       [''event_id''] [] False]"

section \<open>Session\<close>

datatype cassStmt = CreateKeyspace string | CreateTable tableDef | SelectLocalKey

record 'k ClusterConfig =
  ccHosts :: "string list"
  ccPort :: int
  ccTimeout :: duration
  ccConnectTimeout :: duration
  ccQuorum :: bool
  ccAuth :: "(string \<times> string) option"
  ccSsl :: "('k tls_Config \<times> bool) option"
  ccKeyspace :: string

record ('x, 'se, 'k) cass_lib =
  CreateSession :: "'k ClusterConfig \<Rightarrow> ('se, 'x) call"
  cassExec :: "'se \<Rightarrow> cassStmt \<Rightarrow> (unit, 'x) call"
  cassClose :: "'se \<Rightarrow> 'x \<Rightarrow> 'x"

record 'se cassModule =
  cmHosts :: "string list"
  cmKeyspace :: string
  cmUser :: string
  cmPassword :: string
  cmTls :: TLSOptions
  cmSession :: "'se option"

definition cassNew :: "string list \<Rightarrow> string \<Rightarrow> string \<Rightarrow> string \<Rightarrow> TLSOptions \<Rightarrow> 'se cassModule" where
  "cassNew hosts keyspace user password tlsOpts =
     \<lparr>cmHosts = hosts, cmKeyspace = keyspace, cmUser = user, cmPassword = password, cmTls = tlsOpts, cmSession = None\<rparr>"

definition cassCluster :: "'se cassModule \<Rightarrow> 'k tls_Config option \<Rightarrow> 'k ClusterConfig" where
  "cassCluster m tlsConfig =
     (let (hosts, port) = normalizeHosts (cmHosts m) in
      \<lparr>ccHosts = hosts, ccPort = port, ccTimeout = 8 * second, ccConnectTimeout = 8 * second, ccQuorum = True,
       ccAuth = (if cmUser m \<noteq> [] then Some (cmUser m, cmPassword m) else None),
       ccSsl = map_option (\<lambda>c. (c, \<not> InsecureSkipVerify (cmTls m))) tlsConfig,
       ccKeyspace = []\<rparr>)"

fun cassTables :: "('x, 'se, 'k) cass_lib \<Rightarrow> 'se \<Rightarrow> tableDef list \<Rightarrow> (unit, 'x) call" where
  "cassTables L session [] x = (Inr (), x)"
| "cassTables L session (t # ts) x =
     (case cassExec L session (CreateTable t) x of
        (Inl e, x1) \<Rightarrow> (Inl e, cassClose L session x1)
      | (Inr _, x1) \<Rightarrow> cassTables L session ts x1)"

text \<open>What \<open>Start\<close> does with the bootstrap session, which is closed on every way out.\<close>

definition cassBootstrap ::
  "('x, 'se, 'k) cass_lib \<Rightarrow> 'se cassModule \<Rightarrow> 'k ClusterConfig \<Rightarrow> 'se \<Rightarrow> ('se, 'x) call" where
  "cassBootstrap L m cluster bootstrap x =
     (case cassExec L bootstrap (CreateKeyspace (cmKeyspace m)) x of
        (Inl e, x1) \<Rightarrow> (Inl e, x1)
      | (Inr _, x1) \<Rightarrow>
          (case CreateSession L (cluster\<lparr>ccKeyspace := cmKeyspace m\<rparr>) x1 of
             (Inl e, x2) \<Rightarrow> (Inl e, x2)
           | (Inr session, x2) \<Rightarrow>
               (case cassTables L session ddl x2 of
                  (Inl e, x3) \<Rightarrow> (Inl e, x3)
                | (Inr _, x3) \<Rightarrow> (Inr session, x3))))"

definition cassStart ::
  "('x, 'se, 'k) cass_lib \<Rightarrow> 'k tls_files \<Rightarrow> 'se cassModule \<Rightarrow> 'x \<Rightarrow> (goerr + unit) \<times> 'se cassModule \<times> 'x" where
  "cassStart L F m x =
     (case BuildTLSConfig F (cmTls m) of
        Inl e \<Rightarrow> (Inl e, m, x)
      | Inr tlsConfig \<Rightarrow>
          (case CreateSession L (cassCluster m tlsConfig) x of
             (Inl e, x1) \<Rightarrow> (Inl e, m, x1)
           | (Inr bootstrap, x1) \<Rightarrow>
               (case cassBootstrap L m (cassCluster m tlsConfig) bootstrap x1 of
                  (Inl e, x2) \<Rightarrow> (Inl e, m, cassClose L bootstrap x2)
                | (Inr session, x2) \<Rightarrow>
                    (Inr (), m\<lparr>cmSession := Some session\<rparr>, cassClose L bootstrap x2))))"

definition cassReady :: "('x, 'se, 'k) cass_lib \<Rightarrow> 'se cassModule \<Rightarrow> (unit, 'x) call" where
  "cassReady L m x =
     (case cmSession m of
        None \<Rightarrow> (Inl (ErrMsg ''cassandra session not available''), x)
      | Some session \<Rightarrow> cassExec L session SelectLocalKey x)"

definition cassStop ::
  "('x, 'se, 'k) cass_lib \<Rightarrow> 'se cassModule \<Rightarrow> 'x \<Rightarrow> (goerr + unit) \<times> 'se cassModule \<times> 'x" where
  "cassStop L m x =
     (Inr (), m\<lparr>cmSession := None\<rparr>, (case cmSession m of None \<Rightarrow> x | Some session \<Rightarrow> cassClose L session x))"

definition cassAsModule :: "('x, 'se, 'k) cass_lib \<Rightarrow> 'k tls_files \<Rightarrow> ('se cassModule \<times> 'x) Module" where
  "cassAsModule L F =
     \<lparr>moduleName = ''cassstore'',
      moduleStart = (\<lambda>(m, x). cassStart L F m x),
      moduleReady = (\<lambda>(m, x). let (r, x1) = cassReady L m x in (r, (m, x1))),
      moduleStop = (\<lambda>(m, x). cassStop L m x)\<rparr>"

section \<open>Hosts, without a loop\<close>

definition given_hosts :: "string list \<Rightarrow> string list" where
  "given_hosts inp = filter (\<lambda>h. h \<noteq> []) (map TrimSpace inp)"

definition host_part :: "string \<Rightarrow> string" where
  "host_part h = (case SplitHostPort h of Some (host, p) \<Rightarrow> host | None \<Rightarrow> h)"

definition port_part :: "string \<Rightarrow> int option" where
  "port_part h = (case SplitHostPort h of Some (host, p) \<Rightarrow> Atoi p | None \<Rightarrow> None)"

lemma hostsLoop_spec:
  "hostsLoop inp hosts port =
   (hosts @ map host_part (given_hosts inp), last (port # List.map_filter port_part (given_hosts inp)))"
proof (induction inp arbitrary: hosts port)
  case Nil
  then show ?case by (simp add: given_hosts_def List.map_filter_def)
next
  case (Cons h inp)
  then show ?case
    by (auto simp: given_hosts_def host_part_def port_part_def List.map_filter_def Let_def split: option.splits)
qed

lemma host_port_parts:
  assumes "set h \<inter> {CHR '':'', CHR ''['', CHR '']''} = {}" and "0 \<le> p" and "p < 2 ^ 63"
  shows "host_part (h @ '':'' @ Itoa p) = h" "port_part (h @ '':'' @ Itoa p) = Some p"
proof -
  have d: "c \<notin> {CHR '':'', CHR ''['', CHR '']''}" if "c \<in> set (Itoa p)" for c
    using Itoa_chars[OF that] by (auto simp: is_digit_def)
  have "SplitHostPort (h @ CHR '':'' # Itoa p) = Some (h, Itoa p)"
    by (rule SplitHostPort_plain) (use assms(1) d in blast)+
  then show "host_part (h @ '':'' @ Itoa p) = h" "port_part (h @ '':'' @ Itoa p) = Some p"
    using assms by (simp_all add: host_part_def port_part_def ParseInt_Itoa)
qed

text \<open>C35: Hosts. \<open>normalizeHosts\<close> keeps one host per entry that is not blank, in order, with the port cut off, and
  \<open>localhost\<close> when there is none; the port is the last one that is given and is a number, for all hosts
  alike, and 9042 without one. A list of hosts that all carry the same port comes back as these hosts and that
  port.\<close>

theorem hosts_normalized:
  "normalizeHosts inp =
     ((if given_hosts inp = [] then [''localhost''] else map host_part (given_hosts inp)),
      last (9042 # List.map_filter port_part (given_hosts inp))) \<and>
   ((\<forall>h \<in> set hs. TrimSpace (h @ '':'' @ Itoa p) = h @ '':'' @ Itoa p \<and> set h \<inter> {CHR '':'', CHR ''['', CHR '']''} = {}) \<and>
    hs \<noteq> [] \<and> 0 \<le> p \<and> p < 2 ^ 63 \<longrightarrow>
    normalizeHosts (map (\<lambda>h. h @ '':'' @ Itoa p) hs) = (hs, p))"
proof
  have spec: "normalizeHosts inp =
     ((if given_hosts inp = [] then [''localhost''] else map host_part (given_hosts inp)),
      last (9042 # List.map_filter port_part (given_hosts inp)))" for inp
    by (simp add: normalizeHosts_def hostsLoop_spec)
  then show "normalizeHosts inp =
     ((if given_hosts inp = [] then [''localhost''] else map host_part (given_hosts inp)),
      last (9042 # List.map_filter port_part (given_hosts inp)))" .
  show "(\<forall>h \<in> set hs. TrimSpace (h @ '':'' @ Itoa p) = h @ '':'' @ Itoa p \<and> set h \<inter> {CHR '':'', CHR ''['', CHR '']''} = {}) \<and>
    hs \<noteq> [] \<and> 0 \<le> p \<and> p < 2 ^ 63 \<longrightarrow>
    normalizeHosts (map (\<lambda>h. h @ '':'' @ Itoa p) hs) = (hs, p)"
  proof (rule impI, elim conjE)
    assume a: "\<forall>h \<in> set hs. TrimSpace (h @ '':'' @ Itoa p) = h @ '':'' @ Itoa p \<and> set h \<inter> {CHR '':'', CHR ''['', CHR '']''} = {}"
      and ne: "hs \<noteq> []" and p: "0 \<le> p" "p < 2 ^ 63"
    let ?in = "map (\<lambda>h. h @ '':'' @ Itoa p) hs"
    have g: "given_hosts ?in = ?in" unfolding given_hosts_def using a by (induction hs) auto
    have h: "map host_part ?in = hs" using a host_port_parts(1)[OF _ p] by (induction hs) auto
    have "List.map_filter port_part ?in = replicate (length hs) p"
      using a host_port_parts(2)[OF _ p] by (induction hs) (auto simp: List.map_filter_def)
    then have l: "last (9042 # List.map_filter port_part ?in) = p" using ne by (cases hs) auto
    have "normalizeHosts ?in = (hs, last (9042 # List.map_filter port_part ?in))"
      unfolding spec[of ?in] g h using ne by simp
    then show "normalizeHosts ?in = (hs, p)" unfolding l .
  qed
qed

theorem hosts_normalized_witness:
  "normalizeHosts (map (\<lambda>h. h @ '':'' @ Itoa 80) [''a'', ''b'']) = ([''a'', ''b''], 80) \<and>
   normalizeHosts ['' c:9043 '', [], ''d:9044'', ''e''] = ([''c'', ''d'', ''e''], 9044)"
proof
  have "(\<forall>h \<in> set [''a'', ''b'']. TrimSpace (h @ '':'' @ Itoa 80) = h @ '':'' @ Itoa 80 \<and>
      set h \<inter> {CHR '':'', CHR ''['', CHR '']''} = {}) \<and> [''a'', ''b''] \<noteq> [] \<and> (0::int) \<le> 80 \<and> (80::int) < 2 ^ 63"
    by code_simp
  then show "normalizeHosts (map (\<lambda>h. h @ '':'' @ Itoa 80) [''a'', ''b'']) = ([''a'', ''b''], 80)"
    by (rule mp[OF conjunct2[OF hosts_normalized]])
  show "normalizeHosts ['' c:9043 '', [], ''d:9044'', ''e''] = ([''c'', ''d'', ''e''], 9044)" by code_simp
qed

section \<open>The driver\<close>

text \<open>What the module relies on, as gocql documents it: \<open>opn\<close> is the set of open sessions, \<open>made\<close>
  the statements that have succeeded.\<close>

definition cass_creates :: "('x, 'se, 'k) cass_lib \<Rightarrow> ('x \<Rightarrow> 'se set) \<Rightarrow> ('x \<Rightarrow> cassStmt set) \<Rightarrow> bool" where
  "cass_creates L opn made \<longleftrightarrow>
     (\<forall>c x. case CreateSession L c x of
        (Inl _, x1) \<Rightarrow> opn x1 = opn x \<and> made x \<subseteq> made x1
      | (Inr se, x1) \<Rightarrow> se \<notin> opn x \<and> opn x1 = insert se (opn x) \<and> made x \<subseteq> made x1)"

definition cass_execs :: "('x, 'se, 'k) cass_lib \<Rightarrow> ('x \<Rightarrow> 'se set) \<Rightarrow> ('x \<Rightarrow> cassStmt set) \<Rightarrow> bool" where
  "cass_execs L opn made \<longleftrightarrow>
     (\<forall>se st x. case cassExec L se st x of
        (Inl _, x1) \<Rightarrow> opn x1 = opn x \<and> made x \<subseteq> made x1
      | (Inr _, x1) \<Rightarrow> opn x1 = opn x \<and> made x \<subseteq> made x1 \<and> st \<in> made x1)"

definition cass_closes :: "('x, 'se, 'k) cass_lib \<Rightarrow> ('x \<Rightarrow> 'se set) \<Rightarrow> ('x \<Rightarrow> cassStmt set) \<Rightarrow> bool" where
  "cass_closes L opn made \<longleftrightarrow>
     (\<forall>se x. opn (cassClose L se x) = opn x - {se} \<and> made x \<subseteq> made (cassClose L se x))"

definition cass_ok :: "('x, 'se, 'k) cass_lib \<Rightarrow> ('x \<Rightarrow> 'se set) \<Rightarrow> ('x \<Rightarrow> cassStmt set) \<Rightarrow> bool" where
  "cass_ok L opn made \<longleftrightarrow> cass_creates L opn made \<and> cass_execs L opn made \<and> cass_closes L opn made"

lemma cass_okD:
  assumes "cass_ok L opn made"
  shows "CreateSession L c x = (Inl e, x1) \<Longrightarrow> opn x1 = opn x \<and> made x \<subseteq> made x1"
    and "CreateSession L c x = (Inr se, x1) \<Longrightarrow> se \<notin> opn x \<and> opn x1 = insert se (opn x) \<and> made x \<subseteq> made x1"
    and "cassExec L se st x = (r, x1) \<Longrightarrow> opn x1 = opn x \<and> made x \<subseteq> made x1"
    and "cassExec L se st x = (Inr u, x1) \<Longrightarrow> st \<in> made x1"
    and "opn (cassClose L se x) = opn x - {se}" and "made x \<subseteq> made (cassClose L se x)"
proof -
  have c: "case CreateSession L c x of (Inl _, x1) \<Rightarrow> opn x1 = opn x \<and> made x \<subseteq> made x1
      | (Inr se, x1) \<Rightarrow> se \<notin> opn x \<and> opn x1 = insert se (opn x) \<and> made x \<subseteq> made x1"
    using assms by (simp add: cass_ok_def cass_creates_def)
  then show "CreateSession L c x = (Inl e, x1) \<Longrightarrow> opn x1 = opn x \<and> made x \<subseteq> made x1"
    and "CreateSession L c x = (Inr se, x1) \<Longrightarrow> se \<notin> opn x \<and> opn x1 = insert se (opn x) \<and> made x \<subseteq> made x1"
    by simp_all
  have e: "case cassExec L se st x of (Inl _, x1) \<Rightarrow> opn x1 = opn x \<and> made x \<subseteq> made x1
      | (Inr _, x1) \<Rightarrow> opn x1 = opn x \<and> made x \<subseteq> made x1 \<and> st \<in> made x1"
    using assms by (simp add: cass_ok_def cass_execs_def)
  then show "cassExec L se st x = (r, x1) \<Longrightarrow> opn x1 = opn x \<and> made x \<subseteq> made x1"
    and "cassExec L se st x = (Inr u, x1) \<Longrightarrow> st \<in> made x1" by (auto split: sum.splits)
  show "opn (cassClose L se x) = opn x - {se}" "made x \<subseteq> made (cassClose L se x)"
    using assms by (simp_all add: cass_ok_def cass_closes_def)
qed

lemma cassTables_opn:
  assumes ok: "cass_ok L opn made"
  shows "cassTables L se ts x = (r, x') \<Longrightarrow>
    made x \<subseteq> made x' \<and>
    (case r of Inl _ \<Rightarrow> opn x' = opn x - {se} | Inr _ \<Rightarrow> opn x' = opn x \<and> CreateTable ` set ts \<subseteq> made x')"
proof (induction ts arbitrary: x)
  case Nil
  then show ?case by auto
next
  case (Cons t ts)
  obtain q x1 where q: "cassExec L se (CreateTable t) x = (q, x1)" by fastforce
  note o1 = cass_okD(3)[OF ok q]
  show ?case
  proof (cases q)
    case (Inl e)
    with Cons.prems q o1 cass_okD(5,6)[OF ok] show ?thesis by fastforce
  next
    case (Inr u)
    with Cons.prems q have t: "cassTables L se ts x1 = (r, x')" by simp
    from Cons.IH[OF t] o1 cass_okD(4)[OF ok q[unfolded Inr]] show ?thesis by (cases r) auto
  qed
qed

lemma cassBootstrap_opn:
  assumes ok: "cass_ok L opn made" and st: "cassBootstrap L m cl bs x = (r, x')"
  shows "case r of Inl _ \<Rightarrow> opn x' = opn x
    | Inr se \<Rightarrow> se \<notin> opn x \<and> opn x' = insert se (opn x) \<and> {CreateKeyspace (cmKeyspace m)} \<union> CreateTable ` set ddl \<subseteq> made x'"
proof -
  obtain q x1 where q: "cassExec L bs (CreateKeyspace (cmKeyspace m)) x = (q, x1)" by fastforce
  note o1 = cass_okD(3)[OF ok q]
  show ?thesis
  proof (cases q)
    case (Inl e)
    with st q o1 show ?thesis by (auto simp: cassBootstrap_def)
  next
    case (Inr u)
    note k = cass_okD(4)[OF ok q[unfolded Inr]]
    obtain s x2 where s: "CreateSession L (cl\<lparr>ccKeyspace := cmKeyspace m\<rparr>) x1 = (s, x2)" by fastforce
    show ?thesis
    proof (cases s)
      case (Inl e)
      with st q Inr s o1 cass_okD(1)[OF ok] show ?thesis by (auto simp: cassBootstrap_def)
    next
      case se: (Inr se)
      note o2 = cass_okD(2)[OF ok s[unfolded se]]
      obtain t x3 where t: "cassTables L se ddl x2 = (t, x3)" by fastforce
      from cassTables_opn[OF ok t] st q Inr s se t o1 o2 k show ?thesis
        by (cases t) (auto simp: cassBootstrap_def)
    qed
  qed
qed

lemma cassStart_opn:
  assumes ok: "cass_ok L opn made" and st: "cassStart L F m x = (r, m', x')"
  shows "case r of Inl _ \<Rightarrow> m' = m \<and> opn x' = opn x
    | Inr _ \<Rightarrow> \<exists>se. m' = m\<lparr>cmSession := Some se\<rparr> \<and> se \<notin> opn x \<and> opn x' = insert se (opn x) \<and>
        {CreateKeyspace (cmKeyspace m)} \<union> CreateTable ` set ddl \<subseteq> made x'"
proof (cases "BuildTLSConfig F (cmTls m)")
  case (Inl e)
  with st show ?thesis by (auto simp: cassStart_def)
next
  case (Inr t)
  obtain b x1 where b: "CreateSession L (cassCluster m t) x = (b, x1)" by fastforce
  show ?thesis
  proof (cases b)
    case (Inl e)
    with st Inr b cass_okD(1)[OF ok] show ?thesis by (auto simp: cassStart_def)
  next
    case bs: (Inr bs)
    note o1 = cass_okD(2)[OF ok b[unfolded bs]]
    obtain s x2 where s: "cassBootstrap L m (cassCluster m t) bs x1 = (s, x2)" by fastforce
    note o2 = cassBootstrap_opn[OF ok s]
    show ?thesis
    proof (cases s)
      case (Inl e)
      with st Inr b bs s o1 o2 cass_okD(5)[OF ok] show ?thesis by (auto simp: cassStart_def)
    next
      case (Inr se)
      with st \<open>BuildTLSConfig F (cmTls m) = Inr t\<close> b bs s
      have r: "r = Inr ()" "m' = m\<lparr>cmSession := Some se\<rparr>" "x' = cassClose L bs x2" by (auto simp: cassStart_def)
      have made: "{CreateKeyspace (cmKeyspace m)} \<union> CreateTable ` set ddl \<subseteq> made x'"
        using o2 Inr cass_okD(6)[OF ok, of x2 bs] by (auto simp: r)
      have "se \<notin> opn x" "opn x' = insert se (opn x)" using o1 o2 Inr by (auto simp: r cass_okD(5)[OF ok])
      with made r show ?thesis by auto
    qed
  qed
qed

definition cass_held :: "'se cassModule \<times> 'x \<Rightarrow> 'se set" where
  "cass_held w = set_option (cmSession (fst w))"

lemma cass_leakfree:
  assumes ok: "cass_ok L opn made"
  shows "leakfree (cassAsModule L F) (\<lambda>(m, x). opn x) cass_held"
proof
  fix w u w'
  assume "(\<lambda>(m, x). opn x) w = {}" "cass_held w = {}" "moduleStart (cassAsModule L F) w = (Inr u, w')"
  moreover obtain m x m' x' where "w = (m, x)" "w' = (m', x')" by fastforce
  ultimately show "(\<lambda>(m, x). opn x) w' = cass_held w'"
    using cassStart_opn[OF ok, of F m x "Inr u" m' x'] by (auto simp: cassAsModule_def cass_held_def)
next
  fix w e w'
  assume "(\<lambda>(m, x). opn x) w = {}" "cass_held w = {}" "moduleStart (cassAsModule L F) w = (Inl e, w')"
  moreover obtain m x m' x' where "w = (m, x)" "w' = (m', x')" by fastforce
  ultimately show "(\<lambda>(m, x). opn x) w' = {} \<and> cass_held w' = {}"
    using cassStart_opn[OF ok, of F m x "Inl e" m' x'] by (auto simp: cassAsModule_def cass_held_def)
next
  fix w r w'
  assume "(\<lambda>(m, x). opn x) w = cass_held w" "moduleStop (cassAsModule L F) w = (r, w')"
  moreover obtain m x m' x' where "w = (m, x)" "w' = (m', x')" by fastforce
  ultimately show "(\<lambda>(m, x). opn x) w' = {} \<and> cass_held w' = {}"
    by (auto simp: cassAsModule_def cass_held_def cassStop_def cass_okD(5)[OF ok] split: option.splits)
qed

text \<open>A driver in memory that meets it; the \<open>mcFail\<close>-th statement from now on fails.\<close>

record memCass =
  mcFail :: "nat option"
  mcOpen :: "nat list"
  mcMade :: "cassStmt list"

definition mem_cass :: "(memCass, nat, unit) cass_lib" where
  "mem_cass = \<lparr>
     CreateSession = (\<lambda>_ x. let n = Suc (foldr max (mcOpen x) 0) in (Inr n, x\<lparr>mcOpen := n # mcOpen x\<rparr>)),
     cassExec = (\<lambda>_ st x. case mcFail x of
        Some 0 \<Rightarrow> (Inl CtxDone, x)
      | Some (Suc k) \<Rightarrow> (Inr (), x\<lparr>mcFail := Some k, mcMade := st # mcMade x\<rparr>)
      | None \<Rightarrow> (Inr (), x\<lparr>mcMade := st # mcMade x\<rparr>)),
     cassClose = (\<lambda>se x. x\<lparr>mcOpen := filter (\<lambda>k. k \<noteq> se) (mcOpen x)\<rparr>)\<rparr>"

lemma mem_cass_ok: "cass_ok mem_cass (\<lambda>x. set (mcOpen x)) (\<lambda>x. set (mcMade x))"
  unfolding cass_ok_def cass_creates_def cass_execs_def cass_closes_def
  by (auto simp: mem_cass_def Let_def foldr_max_fresh split: option.splits nat.splits)

interpretation mem_store: leakfree "cassAsModule mem_cass F" "\<lambda>(m, x). set (mcOpen x)" cass_held
  by (rule cass_leakfree[OF mem_cass_ok])

end
