(* ===== verification/Cass_Contract.thy ===== *)
theory Cass_Contract
  imports Cass_Properties
begin

text \<open>
  What the core relies on when it calls the store, for a store with or without a session: operations
  other than \<open>MarkOutboxPublished\<close> publish nothing, no operation changes a stored event, and the events
  that \<open>AppendEventExactlyOnce\<close> and \<open>PendingOutboxEvents\<close> return are the stored ones.
\<close>

text \<open>What a transaction other than a mark does to the tables.\<close>

definition db_calm :: "tables \<Rightarrow> tables \<Rightarrow> bool" where
  "db_calm v v' \<longleftrightarrow> (store_inv v \<longrightarrow> store_inv v' \<and> published_ids v' \<subseteq> published_ids v \<and> events_by_id v \<subseteq>\<^sub>m events_by_id v')"

lemma txs_map_le: "(tx_on N)\<^sup>*\<^sup>* v v' \<Longrightarrow> events_by_id v \<subseteq>\<^sub>m events_by_id v'"
  by (auto simp: map_le_def dest: txs_keep_event)

lemma db_calm_refl [simp]: "db_calm v v"
  by (simp add: db_calm_def)

lemma db_calm_tx: "(tx_on N)\<^sup>*\<^sup>* v v' \<Longrightarrow> (\<And>i. Send i \<notin> N) \<Longrightarrow> db_calm v v'"
  using txs_published[of N v v'] by (auto simp: db_calm_def txs_map_le dest: txs_inv)

lemma db_calm_gc: "tx_gc\<^sup>*\<^sup>* v v' \<Longrightarrow> db_calm v v'"
  using tx_gcs_keep[of v v'] by (auto simp: db_calm_def published_ids_def dest: tx_gcs_inv)

lemma store_calm:
  assumes ok: "cql_ok S view" and s: "s \<in> {None, Some S}"
  shows "db_calm (view x) (view (snd (AppendEventExactlyOnce s ev x)))"
    and "db_calm (view x) (view (snd (PendingOutboxEvents s n x)))"
    and "db_calm (view x) (view (snd (ClaimInboxMessage s c m x)))"
    and "db_calm (view x) (view (snd (RecentEvents s st n x)))"
    and "db_calm (view x) (view (snd (ClaimOutboxLease s i ow dur x)))"
    and "db_calm (view x) (view (snd (RecordOutboxFailure s i e bb mb jp qa x)))"
    and "db_calm (view x) (view (snd (ListDeadLetters s n x)))"
    and "db_calm (view x) (view (snd (CleanupExpired s t t' n x)))"
  using s
  by (auto simp: db_calm_gc db_calm_tx[OF refines_Append[OF ok]] db_calm_tx[OF refines_ClaimInbox[OF ok]]
      db_calm_tx[OF refines_ClaimLease[OF ok]] db_calm_tx[OF refines_RecordFailure[OF ok]] refines_Cleanup[OF ok] view_Pending[OF ok] view_Recent[OF ok] view_ListDL[OF ok],
    simp_all add: AppendEventExactlyOnce_def PendingOutboxEvents_def ClaimInboxMessage_def RecentEvents_def
      ClaimOutboxLease_def RecordOutboxFailure_def ListDeadLetters_def CleanupExpired_def)

lemma store_calm_replay:
  assumes ok: "cql_ok S view" and s: "s \<in> {None, Some S}"
  shows "db_calm (view x) (view (snd (ReplayDeadLetter s i x)))"
proof (cases "store_inv (view x)")
  case True
  with s show ?thesis by (auto simp: db_calm_tx[OF refines_Replay[OF ok]]) (simp add: ReplayDeadLetter_def)
qed (simp add: db_calm_def)

lemma store_append_known:
  assumes ok: "cql_ok S view" and s: "s \<in> {None, Some S}" and a: "AppendEventExactlyOnce s ev x = (Inr r, x')"
  obtains i where "evID (arEvent r) = UUIDString S i"
    and "\<exists>t. events_by_id (view x') i = Some (t, event_msg (arEvent r))"
    and "arPublished r \<Longrightarrow> i \<in> published_ids (view x')"
proof -
  have a': "AppendEventExactlyOnce (Some S) ev x = (Inr r, x')" using s a by (auto simp: AppendEventExactlyOnce_def)
  show thesis
  proof (cases "evIdempotencyKey ev = [] \<or> idempotency_keys (view x) (stream_of ev, evIdempotencyKey ev) = None")
    case True
    from append_new[OF ok True a'] obtain ev1 i v0 where
      "r = \<lparr>arEvent = ev1\<lparr>evID := UUIDString S i\<rparr>, arDuplicate = False, arPublished = False\<rparr>"
      "view x' = fold apply_cql (append_stmts ev1 i) v0" by metis
    then show thesis by (intro that[of i]) (simp_all add: append_stmts_def event_msg_def)
  next
    case False
    then obtain i q where k: "evIdempotencyKey ev \<noteq> []"
      "idempotency_keys (view x) (stream_of ev, evIdempotencyKey ev) = Some (i, q)" by auto
    from append_taken[OF ok k a'] obtain ev1 w3 where v: "view x' = view x" "view w3 = view x"
      and d: "appendDuplicate S ev1 i w3 = (Inr r, x')" by auto
    from appendDuplicate_result[OF ok d] v show thesis
      by (intro that[of i]) (auto simp: outbox_published_def published_ids_def)
  qed
qed

lemma store_pending_known:
  assumes ok: "cql_ok S view" and s: "s \<in> {None, Some S}" and inv: "store_inv (view x)"
    and p: "PendingOutboxEvents s n x = (Inr evs, x')" and ev: "ev \<in> set evs" and k: "ParseUUID S (evID ev) = Inr i"
  shows "\<exists>t. events_by_id (view x') i = Some (t, event_msg ev)"
proof -
  have p': "PendingOutboxEvents (Some S) n x = (Inr evs, x')" using s p by (auto simp: PendingOutboxEvents_def)
  let ?l = "pending_limit n"
  obtain rows err x1 where it: "iterPending S ''pending'' (pending_fetch ?l) x = ((rows, err), x1)" by (metis surj_pair)
  obtain broke out x2 where lp: "pendingLoop S ?l rows [] x1 = ((broke, out), x2)" by (metis surj_pair)
  have out: "evs = out" using p' it lp by (auto simp: PendingOutboxEvents_def Let_def split: if_splits option.splits)
  have v: "view x1 = view x" "view x' = view x"
    using iter_view(1)[OF ok it] view_Pending[OF ok, of n x] p' by simp_all
  obtain L c where "set L = pending_rows ''pending'' (view x)" "rows = take c L"
    using scansD[OF cql_iter_pending[OF ok] it] by blast
  then have rows: "set rows \<subseteq> pending_rows ''pending'' (view x)" by (auto dest: in_set_takeD)
  have "int (length ([] :: EventRecord list)) < ?l" using pending_limit_bounds[of n] by simp
  from pendingLoop_result[OF ok this lp] obtain sel where sel: "subseq sel rows"
    "out = map (\<lambda>row. pending_event S row (retry_count (view x1) (fst (snd row)))) sel" by (auto simp: selection_def)
  with ev out obtain t j m where r: "(t, j, m) \<in> set rows" "ev = pending_event S (t, j, m) (retry_count (view x1) j)"
    using subseq_subset[OF sel(1)] by force
  with k have "j = i" by (simp add: pending_event_def cql_parse[OF ok])
  moreover have "outbox_by_state (view x) (''pending'', t, j) = Some m" using r(1) rows by (auto simp: pending_rows_def)
  ultimately obtain row where "outbox_events (view x) i = Some row" "ob_msg row = Some m" using inv_index[OF inv] by blast
  with inv_outbox[OF inv] have "\<exists>t. events_by_id (view x) i = Some (t, m)" by fastforce
  with r(2) v show ?thesis by (cases m) (simp add: pending_event_def event_msg_def)
qed

lemma store_mark_law:
  assumes ok: "cql_ok S view" and s: "s \<in> {None, Some S}" and m: "MarkOutboxPublished s eid b x = (r, x')" and inv: "store_inv (view x)"
  shows "store_inv (view x') \<and> events_by_id (view x) \<subseteq>\<^sub>m events_by_id (view x') \<and>
    published_ids (view x') \<subseteq> published_ids (view x) \<union> {i. ParseUUID S eid = Inr i}"
    and "r = Inr u \<Longrightarrow> {i. ParseUUID S eid = Inr i} \<subseteq> published_ids (view x')"
proof -
  have t: "(tx_on (Send ` {i. ParseUUID S eid = Inr i}))\<^sup>*\<^sup>* (view x) (view x')"
  proof (cases s)
    case None
    with m show ?thesis by (simp add: MarkOutboxPublished_def)
  next
    case (Some S')
    with s refines_Mark[OF ok, of eid "Send ` {i. ParseUUID S eid = Inr i}" x b] m show ?thesis by simp
  qed
  have "{i. Send i \<in> Send ` {i. ParseUUID S eid = Inr i}} = {i. ParseUUID S eid = Inr i}" by auto
  with txs_inv[OF t inv] txs_published[OF t] txs_map_le[OF t]
  show "store_inv (view x') \<and> events_by_id (view x) \<subseteq>\<^sub>m events_by_id (view x') \<and>
    published_ids (view x') \<subseteq> published_ids (view x) \<union> {i. ParseUUID S eid = Inr i}" by simp
  assume "r = Inr u"
  with m s obtain i where i: "ParseUUID S eid = Inr i" and s': "s = Some S"
    by (cases "ParseUUID S eid") (auto simp: MarkOutboxPublished_def)
  obtain q w1 where o: "selOutbox S i x = (q, w1)" by fastforce
  from m \<open>r = Inr u\<close> i s' o obtain row where q: "q = Inr row" by (cases q) (auto simp: MarkOutboxPublished_def)
  obtain t w2 where n: "time_Now S w1 = (t, w2)" by fastforce
  have "qBatch S (mark_stmts i (scan_time (ob_occurred row)) t b) w2 = (Inr u, x')"
    using m \<open>r = Inr u\<close> i s' o q n by (simp add: MarkOutboxPublished_def)
  from cql_batch[OF ok this] have "view x' = fold apply_cql (mark_stmts i (scan_time (ob_occurred row)) t b) (view w2)" by simp
  then have "i \<in> published_ids (view x')" by (simp add: published_ids_def mark_stmts_def)
  with i show "{i. ParseUUID S eid = Inr i} \<subseteq> published_ids (view x')" by auto
qed

end
