(* ===== verification/Control_Plane.thy ===== *)
theory Control_Plane
  imports Http_Truth Nats_Bus Etcd_Coord Cass_Session Cass_Contract
begin

text \<open>
  The control plane as \<^verbatim>\<open>cmd/controlplane/main.go\<close> puts it together: the core over the NATS bus, the
  etcd coordinator and the Cassandra store. The world consists of the three modules, each with the
  world of its client, and of the world \<open>wDb\<close> of the CQL session (tables, clock, random source).
  The models of the bus and of the store meet the contract of \<open>Http_Outbox\<close>, and so what the core
  guarantees under the contract holds of the whole service.
\<close>

section \<open>Wiring\<close>

record ('n, 'e, 'c, 'w) world =
  wNats :: 'n
  wEtcd :: 'e
  wCass :: 'c
  wDb :: 'w

text \<open>An operation on one part of the world.\<close>

definition on_nats :: "('n \<Rightarrow> 'a \<times> 'n) \<Rightarrow> ('n, 'e, 'c, 'w) world \<Rightarrow> 'a \<times> ('n, 'e, 'c, 'w) world" where
  "on_nats f w = (let (r, x) = f (wNats w) in (r, w\<lparr>wNats := x\<rparr>))"

definition on_etcd :: "('e \<Rightarrow> 'a \<times> 'e) \<Rightarrow> ('n, 'e, 'c, 'w) world \<Rightarrow> 'a \<times> ('n, 'e, 'c, 'w) world" where
  "on_etcd f w = (let (r, x) = f (wEtcd w) in (r, w\<lparr>wEtcd := x\<rparr>))"

definition on_cass :: "('c \<Rightarrow> 'a \<times> 'c) \<Rightarrow> ('n, 'e, 'c, 'w) world \<Rightarrow> 'a \<times> ('n, 'e, 'c, 'w) world" where
  "on_cass f w = (let (r, x) = f (wCass w) in (r, w\<lparr>wCass := x\<rparr>))"

definition on_db :: "('w \<Rightarrow> 'a \<times> 'w) \<Rightarrow> ('n, 'e, 'c, 'w) world \<Rightarrow> 'a \<times> ('n, 'e, 'c, 'w) world" where
  "on_db f w = (let (r, x) = f (wDb w) in (r, w\<lparr>wDb := x\<rparr>))"

lemmas on_defs = on_nats_def on_etcd_def on_cass_def on_db_def

definition liftModule :: "((unit, 'x) call \<Rightarrow> (unit, 'w) call) \<Rightarrow> 'x Module \<Rightarrow> 'w Module" where
  "liftModule up m = \<lparr>moduleName = moduleName m, moduleStart = up (moduleStart m), moduleReady = up (moduleReady m),
     moduleStop = up (moduleStop m)\<rparr>"

text \<open>The store's methods read the session from the module: without one they fail.\<close>

type_synonym ('c, 'j, 'xn, 'cl, 'se, 'el, 'xe, 's, 'xc, 'w) cpWorld =
  "(('c, 'j) natsModule \<times> 'xn, ('cl, 'se, 'el) etcdModule \<times> 'xe, 's cassModule \<times> 'xc, 'w) world"

definition withSession ::
  "'w session \<Rightarrow> ('w session option \<Rightarrow> 'w \<Rightarrow> 'a \<times> 'w) \<Rightarrow>
   ('n, 'e, 's cassModule \<times> 'xc, 'w) world \<Rightarrow> 'a \<times> ('n, 'e, 's cassModule \<times> 'xc, 'w) world" where
  "withSession S f w = on_db (f (map_option (\<lambda>_. S) (cmSession (fst (wCass w))))) w"

definition cassAsStore :: "'w session \<Rightarrow> ('n, 'e, 's cassModule \<times> 'xc, 'w) world EventStore" where
  "cassAsStore S =
     \<lparr>storeAppendOp = (\<lambda>ev. withSession S (\<lambda>s. AppendEventExactlyOnce s ev)),
      storeMarkOp = (\<lambda>i b. withSession S (\<lambda>s. MarkOutboxPublished s i b)),
      storePendingOp = (\<lambda>n. withSession S (\<lambda>s. PendingOutboxEvents s n)),
      storeClaimInboxOp = (\<lambda>c m. withSession S (\<lambda>s. ClaimInboxMessage s c m)),
      storeRecentOp = (\<lambda>st n. withSession S (\<lambda>s. RecentEvents s st n))\<rparr>"

definition cassAsAdvanced :: "'w session \<Rightarrow> ('n, 'e, 's cassModule \<times> 'xc, 'w) world AdvancedOps" where
  "cassAsAdvanced S =
     \<lparr>storeLeaseOp = (\<lambda>i ow dur. withSession S (\<lambda>s. ClaimOutboxLease s i ow dur)),
      storeFailureOp = (\<lambda>i e bb mb jp qa. withSession S (\<lambda>s. RecordOutboxFailure s i e bb mb jp qa)),
      storeListDLOp = (\<lambda>n. withSession S (\<lambda>s. ListDeadLetters s n)),
      storeReplayOp = (\<lambda>i. withSession S (\<lambda>s. ReplayDeadLetter s i)),
      storeCleanupOp = (\<lambda>t t' n. withSession S (\<lambda>s. CleanupExpired s t t' n))\<rparr>"

text \<open>What the process gets from outside: the three clients, the certificate files, the CQL session, the
  timers and the token buckets.\<close>

record ('xn, 'c, 'j, 'xe, 'cl, 'se, 'el, 'xc, 's, 'w, 'k, 'l) platform =
  natsLib :: "('xn, 'c, 'j, 'k) nats_lib"
  etcdLib :: "('xe, 'cl, 'se, 'el, 'k) etcd_lib"
  cassLib :: "('xc, 's, 'k) cass_lib"
  tlsFiles :: "'k tls_files"
  cqlSession :: "'w session"
  timer :: "duration \<Rightarrow> 'w \<Rightarrow> goerr option \<times> 'w"
  buckets :: "'l rate_lib"
  mapOrder :: "(string \<times> 'l ipLimiterEntry) list \<Rightarrow> (string \<times> 'l ipLimiterEntry) list"

text \<open>The type assertions of \<open>New\<close> on the modules that \<open>main\<close> passes: the bus is the only \<open>EventBus\<close>,
  the coordinator the only \<open>Coordinator\<close>, and the store the only \<open>EventStore\<close>, an advanced one.\<close>

definition wire ::
  "('xn, 'c, 'j, 'xe, 'cl, 'se, 'el, 'xc, 's, 'w, 'k, 'l) platform \<Rightarrow>
   (('c, 'j, 'xn, 'cl, 'se, 'el, 'xe, 's, 'xc, 'w) cpWorld, 'l) deps" where
  "wire P =
     \<lparr>bus = Some \<lparr>busPublishOp = (\<lambda>s p m. on_nats (busPublishOp (natsAsBus (natsLib P)) s p m)),
                  busSubscribeOp = (\<lambda>s. on_nats (busSubscribeOp (natsAsBus (natsLib P)) s))\<rparr>,
      coord = Some \<lparr>coordIsLeader = (\<lambda>w. coordIsLeader etcdAsCoordinator (wEtcd w)),
                    coordLeaderID = (\<lambda>w. coordLeaderID etcdAsCoordinator (wEtcd w))\<rparr>,
      store = Some (cassAsStore (cqlSession P)),
      adv = Some (cassAsAdvanced (cqlSession P)),
      mods = [liftModule on_nats (natsAsModule (natsLib P) (tlsFiles P)),
              liftModule on_etcd (etcdAsModule (etcdLib P) (tlsFiles P)),
              liftModule on_cass (cassAsModule (cassLib P) (tlsFiles P))],
      nowOp = on_db (time_Now (cqlSession P)),
      waitTimer = (\<lambda>t. on_db (timer P t)),
      rateLib = buckets P,
      rangeOrd = mapOrder P\<rparr>"

text \<open>The modules as \<open>main\<close> creates them from the configuration.\<close>

definition configTls :: "Config \<Rightarrow> TLSOptions" where
  "configTls c = \<lparr>CAFile = TLSCAFile c, CertFile = TLSCertFile c, KeyFile = TLSKeyFile c,
     ServerName = TLSServerName c, InsecureSkipVerify = TLSInsecureSkipVerify c\<rparr>"

definition newModules ::
  "Config \<Rightarrow> 'xn \<Rightarrow> 'xe \<Rightarrow> 'xc \<Rightarrow> 'w \<Rightarrow> ('c, 'j, 'xn, 'cl, 'se, 'el, 'xe, 's, 'xc, 'w) cpWorld" where
  "newModules c xn xe xc w =
     \<lparr>wNats = (natsNew (NATSURL c) (NATSStream c) (NATSUser c) (NATSPassword c) (NATSToken c) (configTls c), xn),
      wEtcd = (etcdNew (NodeID c) (EtcdEndpoints c) (LeaderElectionKey c) (EtcdUser c) (EtcdPassword c) (configTls c), xe),
      wCass = (cassNew (CassandraHosts c) (CassandraKeyspace c) (CassandraUser c) (CassandraPassword c) (configTls c), xc),
      wDb = w\<rparr>"

section \<open>The contract holds\<close>

text \<open>What is assumed of the platform: the documented behaviour of the CQL session and of the NATS client,
  and timers, a random source and a metrics page that leave the tables alone.\<close>

definition plane_ok ::
  "('xn, 'c, 'j, 'xe, 'cl, 'se, 'el, 'xc, 's, 'w, 'k, 'l) platform \<Rightarrow> ('w \<Rightarrow> tables) \<Rightarrow> ('xn \<Rightarrow> 'c set) \<Rightarrow>
   ('xn \<Rightarrow> natsMsg set) \<Rightarrow> bool" where
  "plane_ok P view opn acked \<longleftrightarrow>
     cql_ok (cqlSession P) view \<and> nats_ok (natsLib P) opn acked \<and> (\<forall>t. reads view (timer P t))"

definition pages_ok :: "('w \<Rightarrow> tables) \<Rightarrow> (('n, 'e, 'c, 'w) world, 'l) http_lib \<Rightarrow> bool" where
  "pages_ok view H \<longleftrightarrow>
     (\<forall>w. \<exists>x. snd (randHex H w) = w\<lparr>wDb := x\<rparr> \<and> view x = view (wDb w)) \<and>
     (\<forall>r rw a w. \<exists>x. snd (snd (metricsHandler H r rw a w)) = w\<lparr>wDb := x\<rparr> \<and> view x = view (wDb w))"

text \<open>How the contract reads the world; \<open>Q\<close> is a further invariant of the modules.\<close>

definition cpKey :: "'w session \<Rightarrow> string \<Rightarrow> uuid option" where
  "cpKey S i = (case ParseUUID S i of Inl _ \<Rightarrow> None | Inr k \<Rightarrow> Some k)"

definition cpInv :: "('w \<Rightarrow> tables) \<Rightarrow> (('n, 'e, 'c, 'w) world \<Rightarrow> bool) \<Rightarrow> ('n, 'e, 'c, 'w) world \<Rightarrow> bool" where
  "cpInv view Q w \<longleftrightarrow> store_inv (view (wDb w)) \<and> Q w"

definition cpPub :: "('w \<Rightarrow> tables) \<Rightarrow> ('n, 'e, 'c, 'w) world \<Rightarrow> uuid set" where
  "cpPub view w = published_ids (view (wDb w))"

definition cpAck :: "'w session \<Rightarrow> ('xn \<Rightarrow> natsMsg set) \<Rightarrow> ('m \<times> 'xn, 'e, 'c, 'w) world \<Rightarrow> (uuid \<times> string \<times> string) set" where
  "cpAck S acked w = {(k, s, p). \<exists>i. cpKey S i = Some k \<and> natsMessage s p i \<in> acked (snd (wNats w))}"

definition cpEvt :: "('w \<Rightarrow> tables) \<Rightarrow> ('n, 'e, 'c, 'w) world \<Rightarrow> uuid \<rightharpoonup> string \<times> string" where
  "cpEvt view w k = map_option (\<lambda>(t, m). (m_subject m, m_payload m)) (events_by_id (view (wDb w)) k)"

lemmas cp_defs = cpInv_def cpPub_def cpAck_def cpEvt_def

text \<open>An invariant of the modules that publishing, subscribing and probing keep.\<close>

definition module_inv ::
  "('xn, 'c, 'j, 'xe, 'cl, 'se, 'el, 'xc, 's, 'w, 'k, 'l) platform \<Rightarrow>
   (('c, 'j, 'xn, 'cl, 'se, 'el, 'xe, 's, 'xc, 'w) cpWorld \<Rightarrow> bool) \<Rightarrow> bool" where
  "module_inv P Q \<longleftrightarrow>
     (\<forall>w x. Q w \<longrightarrow> Q (w\<lparr>wDb := x\<rparr>)) \<and>
     (\<forall>w s p m. Q w \<longrightarrow> Q (snd (on_nats (busPublishOp (natsAsBus (natsLib P)) s p m) w))) \<and>
     (\<forall>w s. Q w \<longrightarrow> Q (snd (on_nats (busSubscribeOp (natsAsBus (natsLib P)) s) w))) \<and>
     (\<forall>md \<in> set (mods (wire P)). \<forall>w. Q w \<longrightarrow> Q (snd (moduleReady md w)))"

lemma module_inv_True: "module_inv P (\<lambda>_. True)"
  by (simp add: module_inv_def)

lemma map_le_map_option: "m \<subseteq>\<^sub>m m' \<Longrightarrow> (\<lambda>k. map_option f (m k)) \<subseteq>\<^sub>m (\<lambda>k. map_option f (m' k))"
  unfolding map_le_def by (metis (mono_tags, lifting) domIff option.map_disc_iff)

lemma db_quiet:
  assumes "module_inv P Q" and "\<And>x. db_calm (view x) (view (snd (f x)))"
  shows "quiet (cpInv view Q) (cpPub view) (cpAck S acked) (cpEvt view) (on_db f)"
  unfolding quiet_def
proof (intro allI impI)
  fix w
  assume i: "cpInv view Q w"
  let ?x = "snd (f (wDb w))"
  have w': "snd (on_db f w) = w\<lparr>wDb := ?x\<rparr>" by (simp add: on_db_def split_beta)
  have q: "Q (w\<lparr>wDb := ?x\<rparr>)" using assms(1) i by (simp add: module_inv_def cpInv_def)
  have c: "store_inv (view ?x)" "published_ids (view ?x) \<subseteq> published_ids (view (wDb w))"
    "events_by_id (view (wDb w)) \<subseteq>\<^sub>m events_by_id (view ?x)"
    using assms(2)[of "wDb w"] i by (auto simp: db_calm_def cpInv_def)
  have "cpEvt view w \<subseteq>\<^sub>m cpEvt view (w\<lparr>wDb := ?x\<rparr>)" using map_le_map_option[OF c(3)] by (simp add: cpEvt_def[abs_def])
  with q c show "calm (cpInv view Q) (cpPub view) (cpAck S acked) (cpEvt view) w (snd (on_db f w))"
    unfolding w' by (simp add: calm_def onward_def cpInv_def cpPub_def cpAck_def)
qed

lemma session_quiet:
  assumes "module_inv P Q" and "\<And>s x. s \<in> {None, Some S} \<Longrightarrow> db_calm (view x) (view (snd (f s x)))"
  shows "quiet (cpInv view Q) (cpPub view) (cpAck S acked) (cpEvt view) (withSession S f)"
proof -
  have q: "quiet (cpInv view Q) (cpPub view) (cpAck S acked) (cpEvt view) (on_db (f s))" if "s \<in> {None, Some S}" for s
    by (rule db_quiet[OF assms(1)]) (rule assms(2)[OF that])
  show ?thesis unfolding quiet_def
  proof (intro allI impI)
    fix w
    assume "cpInv view Q w"
    moreover have "map_option (\<lambda>_. S) (cmSession (fst (wCass w))) \<in> {None, Some S}"
      by (cases "cmSession (fst (wCass w))") simp_all
    ultimately show "calm (cpInv view Q) (cpPub view) (cpAck S acked) (cpEvt view) w (snd (withSession S f w))"
      using q by (simp add: quiet_def withSession_def)
  qed
qed

text \<open>A step of a client that loses no acknowledgement.\<close>

lemma client_quiet:
  assumes "\<And>w. Q w \<Longrightarrow> Q (snd (f w))" and "\<And>w. wDb (snd (f w)) = wDb w"
    and "\<And>w. acked (snd (wNats w)) \<subseteq> acked (snd (wNats (snd (f w))))"
  shows "quiet (cpInv view Q) (cpPub view) (cpAck S acked) (cpEvt view) f"
  unfolding quiet_def calm_def onward_def using assms by (fastforce simp: cp_defs map_le_def)

lemma session_cases:
  assumes "withSession S f w = (r, w')"
  obtains s x' where "s \<in> {None, Some S}" and "f s (wDb w) = (r, x')" and "w' = w\<lparr>wDb := x'\<rparr>"
proof -
  let ?s = "map_option (\<lambda>_. S) (cmSession (fst (wCass w)))"
  have "?s \<in> {None, Some S}" by (cases "cmSession (fst (wCass w))") simp_all
  moreover obtain r' x' where "f ?s (wDb w) = (r', x')" by fastforce
  ultimately show thesis using assms by (intro that[of ?s x']) (auto simp: withSession_def on_db_def)
qed

lemma publish_acked:
  assumes "nats_ok L opn acked" and "on_nats (busPublishOp (natsAsBus L) s p m) w = (r, w')"
  shows "acked (snd (wNats w)) \<subseteq> acked (snd (wNats w')) \<and> wDb w' = wDb w \<and>
    (\<forall>x. r = Inr x \<longrightarrow> natsMessage s p m \<in> acked (snd (wNats w')))"
proof -
  obtain md x where n: "wNats w = (md, x)" by fastforce
  obtain q x' where p: "natsPublish L md s p m x = (q, x')" by fastforce
  have "r = q" "w' = w\<lparr>wNats := (md, x')\<rparr>" using assms(2) n p by (auto simp: on_nats_def natsAsBus_def)
  with natsPublish_opn[OF assms(1) p] natsPublish_acked[OF assms(1)] p n show ?thesis by auto
qed

lemma subscribe_acked:
  assumes "nats_ok L opn acked" and "on_nats (busSubscribeOp (natsAsBus L) s) w = (r, w')"
  shows "acked (snd (wNats w)) \<subseteq> acked (snd (wNats w')) \<and> wDb w' = wDb w"
proof -
  have k: "nats_keeps opn acked (nc_Subscribe L c s)" for c using assms(1) by (simp add: nats_ok_def)
  have "acked x \<subseteq> acked x'" if "nc_Subscribe L c s x = (q, x')" for c x q x' using nats_keepsD[OF k that] ..
  with assms(2) show ?thesis
    by (fastforce simp: on_nats_def natsAsBus_def natsSubscribe_def Let_def split: prod.splits option.splits)
qed

lemma ready_parts:
  assumes "md \<in> set (mods (wire P))" and "moduleReady md w = (r, w')"
  shows "wNats w' = wNats w \<and> wDb w' = wDb w"
  using assms by (auto simp: wire_def liftModule_def on_defs natsAsModule_def split: prod.splits)

text \<open>The models meet the contract.\<close>

lemma store_quiet:
  assumes ok: "cql_ok S view" and Q: "module_inv P Q"
  shows "quiet (cpInv view Q) (cpPub view) (cpAck S acked) (cpEvt view) (storeAppendOp (cassAsStore S) ev)"
    and "quiet (cpInv view Q) (cpPub view) (cpAck S acked) (cpEvt view) (storePendingOp (cassAsStore S) n)"
    and "quiet (cpInv view Q) (cpPub view) (cpAck S acked) (cpEvt view) (storeClaimInboxOp (cassAsStore S) c m)"
    and "quiet (cpInv view Q) (cpPub view) (cpAck S acked) (cpEvt view) (storeRecentOp (cassAsStore S) st n)"
    and "quiet (cpInv view Q) (cpPub view) (cpAck S acked) (cpEvt view) (storeLeaseOp (cassAsAdvanced S) i ow dur)"
    and "quiet (cpInv view Q) (cpPub view) (cpAck S acked) (cpEvt view) (storeFailureOp (cassAsAdvanced S) i e bb mb jp qa)"
    and "quiet (cpInv view Q) (cpPub view) (cpAck S acked) (cpEvt view) (storeListDLOp (cassAsAdvanced S) n)"
    and "quiet (cpInv view Q) (cpPub view) (cpAck S acked) (cpEvt view) (storeReplayOp (cassAsAdvanced S) i)"
    and "quiet (cpInv view Q) (cpPub view) (cpAck S acked) (cpEvt view) (storeCleanupOp (cassAsAdvanced S) t t' n)"
  unfolding cassAsStore_def cassAsAdvanced_def EventStore.simps AdvancedOps.simps
  by (rule session_quiet[OF Q], erule store_calm[OF ok] store_calm_replay[OF ok])+

lemma nats_quiet:
  assumes nok: "nats_ok (natsLib P) opn acked" and Q: "module_inv P Q"
  shows "quiet (cpInv view Q) (cpPub view) (cpAck S acked) (cpEvt view) (on_nats (busPublishOp (natsAsBus (natsLib P)) s p m))"
    and "quiet (cpInv view Q) (cpPub view) (cpAck S acked) (cpEvt view) (on_nats (busSubscribeOp (natsAsBus (natsLib P)) s))"
    and "md \<in> set (mods (wire P)) \<Longrightarrow> quiet (cpInv view Q) (cpPub view) (cpAck S acked) (cpEvt view) (moduleReady md)"
proof -
  show "quiet (cpInv view Q) (cpPub view) (cpAck S acked) (cpEvt view) (on_nats (busPublishOp (natsAsBus (natsLib P)) s p m))"
    by (rule client_quiet) (use Q in \<open>simp_all add: module_inv_def publish_acked[OF nok prod.collapse[symmetric]]\<close>)
  show "quiet (cpInv view Q) (cpPub view) (cpAck S acked) (cpEvt view) (on_nats (busSubscribeOp (natsAsBus (natsLib P)) s))"
    by (rule client_quiet) (use Q in \<open>simp_all add: module_inv_def subscribe_acked[OF nok prod.collapse[symmetric]]\<close>)
  assume "md \<in> set (mods (wire P))"
  then show "quiet (cpInv view Q) (cpPub view) (cpAck S acked) (cpEvt view) (moduleReady md)"
    by (intro client_quiet) (use Q in \<open>simp_all add: module_inv_def ready_parts[OF _ prod.collapse[symmetric]]\<close>)
qed

lemma append_contract:
  assumes ok: "cql_ok S view" and a: "storeAppendOp (cassAsStore S) ev w = (Inr res, w')"
  shows "\<exists>k. cpKey S (evID (arEvent res)) = Some k \<and>
    cpEvt view w' k = Some (evSubject (arEvent res), evPayload (arEvent res)) \<and> (arPublished res \<longrightarrow> k \<in> cpPub view w')"
proof -
  from session_cases[OF a[unfolded cassAsStore_def EventStore.simps]] obtain s x'
    where s: "s \<in> {None, Some S}" and x: "AppendEventExactlyOnce s ev (wDb w) = (Inr res, x')" and w': "w' = w\<lparr>wDb := x'\<rparr>" .
  from store_append_known[OF ok s x] obtain i t where "evID (arEvent res) = UUIDString S i"
    "events_by_id (view x') i = Some (t, event_msg (arEvent res))" "arPublished res \<Longrightarrow> i \<in> published_ids (view x')" by metis
  then show ?thesis by (auto simp: w' cpKey_def cpEvt_def cpPub_def event_msg_def cql_parse[OF ok])
qed

lemma pending_contract:
  assumes ok: "cql_ok S view" and i: "cpInv view Q w" and p: "storePendingOp (cassAsStore S) n w = (Inr evs, w')"
    and ev: "ev \<in> set evs" "cpKey S (evID ev) = Some k"
  shows "cpEvt view w' k = Some (evSubject ev, evPayload ev)"
proof -
  from session_cases[OF p[unfolded cassAsStore_def EventStore.simps]] obtain s x'
    where s: "s \<in> {None, Some S}" and x: "PendingOutboxEvents s n (wDb w) = (Inr evs, x')" and w': "w' = w\<lparr>wDb := x'\<rparr>" .
  have "ParseUUID S (evID ev) = Inr k" using ev(2) by (simp add: cpKey_def split: sum.splits)
  from store_pending_known[OF ok s _ x ev(1) this] i show ?thesis by (auto simp: w' cpInv_def cpEvt_def event_msg_def)
qed

lemma mark_contract:
  assumes ok: "cql_ok S view" and Q: "module_inv P Q" and i: "cpInv view Q w" and m: "storeMarkOp (cassAsStore S) e b w = (r, w')"
  shows "onward (cpInv view Q) (cpAck S acked) (cpEvt view) w w' \<and> cpPub view w' \<subseteq> cpPub view w \<union> set_option (cpKey S e)"
    and "r = Inr u \<Longrightarrow> set_option (cpKey S e) \<subseteq> cpPub view w'"
proof -
  from session_cases[OF m[unfolded cassAsStore_def EventStore.simps]] obtain s x'
    where s: "s \<in> {None, Some S}" and x: "MarkOutboxPublished s e b (wDb w) = (r, x')" and w': "w' = w\<lparr>wDb := x'\<rparr>" .
  have k: "set_option (cpKey S e) = {i. ParseUUID S e = Inr i}" by (auto simp: cpKey_def split: sum.splits)
  have inv: "store_inv (view (wDb w))" "Q (w\<lparr>wDb := x'\<rparr>)" using i Q by (simp_all add: cpInv_def module_inv_def)
  note law = store_mark_law[OF ok s x inv(1)]
  have "cpEvt view w \<subseteq>\<^sub>m cpEvt view w'" using map_le_map_option[OF conjunct1[OF conjunct2[OF law(1)]]] by (simp add: w' cpEvt_def[abs_def])
  with law(1) inv(2) k
  show "onward (cpInv view Q) (cpAck S acked) (cpEvt view) w w' \<and> cpPub view w' \<subseteq> cpPub view w \<union> set_option (cpKey S e)"
    by (simp add: onward_def cpInv_def cpAck_def cpPub_def w')
  show "r = Inr u \<Longrightarrow> set_option (cpKey S e) \<subseteq> cpPub view w'" using law(2) k by (simp add: cpPub_def w')
qed

lemma now_published:
  assumes "cql_ok S view"
  shows "cpPub view (snd (on_db (time_Now S) w)) = cpPub view w"
  using cql_now[OF assms prod.collapse[symmetric], of "wDb w"] by (simp add: on_db_def split_beta cpPub_def)

lemma time_quiet:
  assumes pl: "plane_ok P view opn acked" and Q: "module_inv P Q"
  shows "quiet (cpInv view Q) (cpPub view) (cpAck S acked) (cpEvt view) (on_db (time_Now (cqlSession P)))"
    and "quiet (cpInv view Q) (cpPub view) (cpAck S acked) (cpEvt view) (on_db (timer P t))"
proof -
  have "view (snd (time_Now (cqlSession P) x)) = view x" "view (snd (timer P t x)) = view x" for x
    using pl cql_now[OF _ prod.collapse[symmetric]] by (auto simp: plane_ok_def reads_def)
  then show "quiet (cpInv view Q) (cpPub view) (cpAck S acked) (cpEvt view) (on_db (time_Now (cqlSession P)))"
    and "quiet (cpInv view Q) (cpPub view) (cpAck S acked) (cpEvt view) (on_db (timer P t))"
    by (auto intro!: db_quiet[OF Q])
qed

lemma pages_calm:
  assumes pg: "pages_ok view H" and Q: "module_inv P Q" and i: "cpInv view Q w"
  shows "calm (cpInv view Q) (cpPub view) (cpAck S acked) (cpEvt view) w (snd (randHex H w))"
    and "metricsHandler H r rw a w = (rw', a', w') \<Longrightarrow> calm (cpInv view Q) (cpPub view) (cpAck S acked) (cpEvt view) w w'"
proof -
  have env: "calm (cpInv view Q) (cpPub view) (cpAck S acked) (cpEvt view) w (w\<lparr>wDb := x\<rparr>)" if "view x = view (wDb w)" for x
    using that Q i by (simp add: calm_def onward_def cp_defs[abs_def] module_inv_def map_le_def)
  from pg obtain x where "snd (randHex H w) = w\<lparr>wDb := x\<rparr>" "view x = view (wDb w)" unfolding pages_ok_def by blast
  with env show "calm (cpInv view Q) (cpPub view) (cpAck S acked) (cpEvt view) w (snd (randHex H w))" by simp
  assume m: "metricsHandler H r rw a w = (rw', a', w')"
  from pg obtain x where "snd (snd (metricsHandler H r rw a w)) = w\<lparr>wDb := x\<rparr>" "view x = view (wDb w)"
    unfolding pages_ok_def by blast
  with env m show "calm (cpInv view Q) (cpPub view) (cpAck S acked) (cpEvt view) w w'" by simp
qed

lemma plane_contract:
  assumes pl: "plane_ok P view opn acked" and pg: "pages_ok view H" and Q: "module_inv P Q"
  shows "http_contract (wire P) (cpInv view Q) (cpPub view) (cpAck (cqlSession P) acked) (cpEvt view) (cpKey (cqlSession P)) H"
proof -
  let ?S = "cqlSession P"
  have ok: "cql_ok ?S view" and nok: "nats_ok (natsLib P) opn acked" using pl by (simp_all add: plane_ok_def)
  have w: "store (wire P) = Some (cassAsStore ?S)" "adv (wire P) = Some (cassAsAdvanced ?S)"
    "nowOp (wire P) = on_db (time_Now ?S)" "waitTimer (wire P) t = on_db (timer P t)"
    "bus (wire P) = Some \<lparr>busPublishOp = (\<lambda>s p m. on_nats (busPublishOp (natsAsBus (natsLib P)) s p m)),
                  busSubscribeOp = (\<lambda>s. on_nats (busSubscribeOp (natsAsBus (natsLib P)) s))\<rparr>" for t
    by (simp_all add: wire_def)
  have pa: "(k, s, p) \<in> cpAck ?S acked w'"
    if "on_nats (busPublishOp (natsAsBus (natsLib P)) s p m) w = (Inr x, w')" "cpKey ?S m = Some k" for s p m w x w' k
    using publish_acked[OF nok that(1)] that(2) by (auto simp: cpAck_def)
  show ?thesis
    apply unfold_locales
    subgoal by (simp add: w time_quiet(1)[OF pl Q])
    subgoal by (simp add: w now_published[OF ok])
    subgoal by (simp add: w time_quiet(2)[OF pl Q])
    subgoal by (auto simp: w nats_quiet(1)[OF nok Q])
    subgoal by (auto simp: w intro: pa)
    subgoal by (auto simp: w nats_quiet(2)[OF nok Q])
    subgoal by (rule nats_quiet(3)[OF nok Q])
    subgoal by (simp only: w option.inject, hypsubst) (rule append_contract[OF ok])
    subgoal by (auto simp: w store_quiet(1)[OF ok Q])
    subgoal by (auto simp: w store_quiet(2)[OF ok Q])
    subgoal by (simp only: w option.inject, hypsubst) (rule pending_contract[OF ok])
    subgoal by (auto simp: w store_quiet(3)[OF ok Q])
    subgoal by (auto simp: w store_quiet(4)[OF ok Q])
    subgoal by (simp only: w option.inject, hypsubst) (rule mark_contract(1)[OF ok Q])
    subgoal by (simp only: w option.inject, hypsubst) (rule mark_contract(2)[OF ok Q], assumption, assumption, rule refl)
    subgoal by (auto simp: w store_quiet(5)[OF ok Q])
    subgoal by (auto simp: w store_quiet(6)[OF ok Q])
    subgoal by (auto simp: w store_quiet(7)[OF ok Q])
    subgoal by (auto simp: w store_quiet(8)[OF ok Q])
    subgoal by (auto simp: w store_quiet(9)[OF ok Q])
    subgoal by (simp add: quiet_def pages_calm(1)[OF pg Q])
    subgoal by (rule pages_calm(2)[OF pg Q])
    done
qed

section \<open>A concrete plane\<close>

text \<open>The whole service over the in-memory clients, to apply the theorems to: \<open>new0\<close> is the world of a new process, \<open>up0\<close> the
  one with its modules started. The configuration is that of an empty environment, without authentication.\<close>

type_synonym memWorld = "(nat, nat, memNats, nat, nat, nat, memEtcd, nat, memCass, mem) cpWorld"

definition memPlane :: "(memNats, nat, nat, memEtcd, nat, nat, nat, memCass, nat, mem, unit, int) platform" where
  "memPlane = \<lparr>natsLib = mem_nats, etcdLib = mem_etcd, cassLib = mem_cass, tlsFiles = noFiles, cqlSession = mem_session False,
     timer = (\<lambda>t w. (None, w)), buckets = counter_lib, mapOrder = (\<lambda>xs. xs)\<rparr>"

definition memHttp :: "(memWorld, int) http_lib" where
  "memHttp = \<lparr>quoted = (\<lambda>s. s), urlString = (\<lambda>p _. p), randHex = (\<lambda>w. (Some ''abc'', w)),
     timedOut = (\<lambda>_ _. False), messages = (\<lambda>_ _. []), metricsHandler = (\<lambda>r rw a w. (writeBody (Text ''metrics'') rw, a, w))\<rparr>"

lemma memPlane_ok: "plane_ok memPlane mem_view (\<lambda>x. set (mnOpen x)) (\<lambda>x. set (mnLog x))"
  by (simp add: plane_ok_def memPlane_def mem_session_ok mem_nats_ok reads_def)

lemma memHttp_ok: "pages_ok mem_view memHttp"
  unfolding pages_ok_def memHttp_def
  by simp (metis world.update_convs(4) world.surjective world.select_convs(4))

interpretation mem_plane: http_contract "wire memPlane" "cpInv mem_view (\<lambda>_. True)" "cpPub mem_view"
  "cpAck (cqlSession memPlane) (\<lambda>x. set (mnLog x))" "cpEvt mem_view" "cpKey (cqlSession memPlane)" memHttp
  by (rule plane_contract[OF memPlane_ok memHttp_ok module_inv_True])

lemma root_post_open:
  assumes r: "rqMethod r = ''POST''" "rqPath r = ''/events''" "TrimSpace (rqHeader r ''X-Request-Id'') = rid" "rid \<noteq> []"
    and a: "\<not> CORSEnabled (cfg a)" "DisableAPITokenAuth (cfg a)" "acquireGuard (appGuard a) = (True, g)"
    and t: "\<And>r w. \<not> timedOut H r w" "nowOp d w = (t1, w1)" "nowOp d w1 = (t2, w2)"
    and l: "iplAllow (rateLib d) (rangeOrd d) t1 t2 (clientIP (rqRemoteAddr r)) (limiter a) = (True, l)"
    and h: "handleEvents d H (r\<lparr>rqRequestID := rid\<rparr>) (newRW\<lparr>rwFlusher := False, rwRec := 200\<rparr>)
        (a\<lparr>appGuard := g, limiter := l\<rparr>) w2 = (tw, a', w')" "\<not> rwPanic tw"
  shows "\<exists>rw' a''. rootHandler d H r newRW a w = (rw', a'', w') \<and> fst (response rw') = fst (response tw)"
proof -
  have c: "cleanPath ''/events'' = ''/events''" by code_simp
  let ?r = "r\<lparr>rqRequestID := rid\<rparr>" and ?rw = "newRW\<lparr>rwFlusher := False\<rparr>"
  have m: "mux d H ?r rw (a\<lparr>appGuard := g, limiter := l\<rparr>) w2 = handleEvents d H ?r rw (a\<lparr>appGuard := g, limiter := l\<rparr>) w2" for rw
    using r a by (simp add: mux_def c secure_def)
  have "\<exists>a1. instrument (mux d H) ?r ?rw (a\<lparr>appGuard := g, limiter := l\<rparr>) w2 = (tw\<lparr>rwFlusher := False\<rparr>, a1, w')"
    using m h by (simp add: instrument_def newRW_def)
  then have "\<exists>a1. withConcurrencyLimit (withRateLimit d (instrument (mux d H))) ?r ?rw a w = (tw\<lparr>rwFlusher := False\<rparr>, a1, w')"
    using a t l by (auto simp: withConcurrencyLimit_def withRateLimit_def)
  then obtain a1 where a1: "withConcurrencyLimit (withRateLimit d (instrument (mux d H))) ?r ?rw a w = (tw\<lparr>rwFlusher := False\<rparr>, a1, w')" ..
  have k: "rqPath ?r \<noteq> ''/stream''" using r by simp
  have "\<exists>rw' a''. withRequestTimeout H (withConcurrencyLimit (withRateLimit d (instrument (mux d H)))) ?r rw a w = (rw', a'', w') \<and>
      fst (response rw') = fst (response tw) \<and> \<not> rwPanic rw'" if "rwSent rw = None" "\<not> rwPanic rw" for rw
    using a1 k t(1) h(2) that unfolding withRequestTimeout_def timeoutHandler_def
    by (simp add: WriteHeader_def response_def Let_def split: option.splits)
  note post = this
  let ?h = "setHeader ''X-Request-Id'' rid (if SecurityHeadersEnabled (cfg a) then securityHeaders (cfg a) newRW else newRW)"
  have "rwSent ?h = None" "\<not> rwPanic ?h" by (simp_all add: setHeader_def securityHeaders_def newRW_def Let_def)
  from post[OF this] obtain rw' a'' where "withRequestTimeout H (withConcurrencyLimit (withRateLimit d (instrument (mux d H)))) ?r
      ?h a w = (rw', a'', w')" "fst (response rw') = fst (response tw)" "\<not> rwPanic rw'" by (elim exE conjE)
  then show ?thesis using r a by (simp add: rootHandler_def withRecovery_def withCORS_def withSecurityHeaders_def withRequestID_def)
qed

definition cfg0 :: Config where
  "cfg0 = (FromEnv (\<lambda>_. []) (Inr ''node''))\<lparr>DisableAPITokenAuth := True, MaxRequestBodyBytes := 64\<rparr>"

definition app1 :: "int App" where "app1 = New cfg0 [''natsbus'', ''etcdcoord'', ''cassstore''] 0"

definition new0 :: memWorld where
  "new0 = newModules cfg0 \<lparr>mnDown = False, mnOpen = [], mnStreams = [], mnLog = []\<rparr> \<lparr>meDown = False, meOpen = []\<rparr>
     \<lparr>mcFail = None, mcOpen = [], mcMade = []\<rparr> (mem_empty (5 * second))"

definition up0 :: memWorld where
  "up0 = snd (moduleStart (mods (wire memPlane) ! 2) (snd (moduleStart (mods (wire memPlane) ! 1) (snd (moduleStart (mods (wire memPlane) ! 0) new0)))))"

definition post0 :: Request where
  "post0 = \<lparr>rqMethod = ''POST'', rqPath = ''/events'', rqHeader = (\<lambda>k. if k = ''X-Request-Id'' then ''r1'' else []),
     rqQuery = (\<lambda>_. []), rqBody = ''{'' @ [CHR 0x22] @ ''subject'' @ [CHR 0x22] @ '':'' @ [CHR 0x22] @ ''orders.new'' @ [CHR 0x22] @ ''}'',
     rqRemoteAddr = ''10.0.0.1:5000'', rqRequestID = []\<rparr>"

text \<open>The state in which the request reaches its handler.\<close>

definition now0 :: "(time \<times> memWorld) \<times> time \<times> memWorld" where
  "now0 = (nowOp (wire memPlane) up0, nowOp (wire memPlane) (snd (nowOp (wire memPlane) up0)))"

definition lim0 :: "bool \<times> int ipRateLimiter" where
  "lim0 = iplAllow counter_lib (\<lambda>xs. xs) (fst (fst now0)) (fst (snd now0)) ''10.0.0.1'' (limiter app1)"

definition lane0 :: "int App" where
  "lane0 = app1\<lparr>appGuard := snd (acquireGuard (appGuard app1)), limiter := snd lim0\<rparr>"

abbreviation handled0 :: "RW \<times> int App \<times> memWorld" where
  "handled0 \<equiv> handleEvents (wire memPlane) memHttp (post0\<lparr>rqRequestID := ''r1''\<rparr>) (newRW\<lparr>rwFlusher := False, rwRec := 200\<rparr>)
     lane0 (snd (snd now0))"

lemma handled0: "fst (response (fst handled0)) = 201" "rwPanic (fst handled0) = False"
  "map (\<lambda>(k, row). (k, ob_state row)) (ml_outbox_events (wDb (snd (snd handled0)))) = [(1, Some ''published'')]"
  "fst lim0 = True" "fst (acquireGuard (appGuard app1)) = True" "clientIP (rqRemoteAddr post0) = ''10.0.0.1''"
  "CORSEnabled (cfg app1) = False" "DisableAPITokenAuth (cfg app1) = True" "TrimSpace (rqHeader post0 ''X-Request-Id'') = ''r1''"
  by code_simp+

lemma up0_view: "mem_view (wDb up0) = empty_tables"
proof -
  have "wDb up0 = mem_empty (5 * second)" by code_simp
  then show ?thesis by (simp add: mem_view_def mem_empty_def empty_tables_def fun_eq_iff)
qed

lemma post0_run:
  obtains rw' a' where "rootHandler (wire memPlane) memHttp post0 newRW app1 up0 = (rw', a', snd (snd handled0))"
    and "fst (response rw') = 201" and "1 \<in> published_ids (mem_view (wDb (snd (snd handled0))))"
proof -
  let ?w' = "snd (snd handled0)"
  have lim: "rateLib (wire memPlane) = counter_lib" "rangeOrd (wire memPlane) = (\<lambda>xs. xs)" by (simp_all add: wire_def memPlane_def)
  have t: "nowOp (wire memPlane) up0 = (fst (fst now0), snd (fst now0))"
    "nowOp (wire memPlane) (snd (fst now0)) = (fst (snd now0), snd (snd now0))" by (simp_all add: now0_def)
  have g: "acquireGuard (appGuard app1) = (True, snd (acquireGuard (appGuard app1)))"
    and l: "iplAllow counter_lib (\<lambda>xs. xs) (fst (fst now0)) (fst (snd now0)) ''10.0.0.1'' (limiter app1) = (True, snd lim0)"
    using handled0(4,5) by (simp_all add: prod_eq_iff lim0_def)
  have "\<exists>rw' a'. rootHandler (wire memPlane) memHttp post0 newRW app1 up0 = (rw', a', ?w') \<and> fst (response rw') = fst (response (fst handled0))"
    by (rule root_post_open[OF _ _ handled0(9) _ _ _ g _ t, where l = "snd lim0" and a' = "fst (snd handled0)"])
      (simp_all add: handled0 l lim lane0_def[symmetric] del: prod.collapse, simp_all add: post0_def memHttp_def)
  moreover from handled0(3) have "1 \<in> published_ids (mem_view (wDb ?w'))"
    by (auto simp: published_ids_def mem_view_def)
  ultimately show thesis using that handled0(1) by metis
qed

end
