(* ===== verification/Fleet.thy ===== *)
theory Fleet
  imports Control_Plane
begin

text \<open>
  Replicas of the control plane against one broker, one etcd and one Cassandra cluster: requests, ticks,
  elections, starts, stops, crashes and restarts of any replica in any order. A crash in the middle of
  a request is a request whose remaining calls fail.
\<close>

section \<open>Acknowledgements survive\<close>

lemma nats_ackD:
  assumes "nats_ok L opn acked"
  shows "nats_Connect L u os x = (r1, x1) \<Longrightarrow> acked x \<subseteq> acked x1"
    and "nc_JetStream L c x = (r2, x1) \<Longrightarrow> acked x \<subseteq> acked x1"
    and "natsEnsureStream L m js x = (r3, x1) \<Longrightarrow> acked x \<subseteq> acked x1"
    and "acked x \<subseteq> acked (nc_Close L c x)"
    and "nc_Drain L c x = (r4, x1) \<Longrightarrow> acked x \<subseteq> acked x1"
proof -
  have cn: "nats_connects L opn acked" and cl: "nats_closes L opn acked"
    and k: "nats_keeps opn acked (nc_JetStream L c)" "\<And>j s. nats_keeps opn acked (js_StreamInfo L j s)"
      "\<And>j sc. nats_keeps opn acked (js_AddStream L j sc)"
    using assms by (simp_all add: nats_ok_def)
  have "acked x \<subseteq> acked (snd (nats_Connect L u os x))" using cn by (simp add: nats_connects_def)
  then show "nats_Connect L u os x = (r1, x1) \<Longrightarrow> acked x \<subseteq> acked x1" by simp
  show "nc_JetStream L c x = (r2, x1) \<Longrightarrow> acked x \<subseteq> acked x1" using nats_keepsD[OF k(1)] by (rule conjunct2)
  have "acked x \<subseteq> acked (nc_Close L c x)" "acked x \<subseteq> acked (snd (nc_Drain L c x))" using cl by (simp_all add: nats_closes_def)
  then show "acked x \<subseteq> acked (nc_Close L c x)" "nc_Drain L c x = (r4, x1) \<Longrightarrow> acked x \<subseteq> acked x1" by simp_all
  assume "natsEnsureStream L m js x = (r3, x1)"
  then show "acked x \<subseteq> acked x1"
    using nats_keepsD[OF k(2), of js "nbStreamName m" x] nats_keepsD[OF k(3), of js "natsStream m"]
    by (fastforce simp: natsEnsureStream_def split: prod.splits sum.splits)
qed

lemma natsStart_acked:
  assumes ok: "nats_ok L opn acked" and st: "natsStart L F m x = (r, m', x')"
  shows "acked x \<subseteq> acked x'"
proof (cases "BuildTLSConfig F (nbTls m)")
  case (Inl e)
  with st show ?thesis by (auto simp: natsStart_def)
next
  case (Inr t)
  obtain c x1 where c: "nats_Connect L (nbUrl m) (natsOpts m t) x = (c, x1)" by fastforce
  note o1 = nats_ackD(1)[OF ok c]
  show ?thesis
  proof (cases c)
    case (Inl e)
    with Inr c st o1 show ?thesis by (auto simp: natsStart_def)
  next
    case conn: (Inr nc)
    obtain j x2 where j: "nc_JetStream L nc x1 = (j, x2)" by fastforce
    note o2 = nats_ackD(2)[OF ok j]
    show ?thesis
    proof (cases j)
      case (Inl e)
      with Inr c conn j st o1 o2 nats_ackD(4)[OF ok, of x2 nc] show ?thesis by (auto simp: natsStart_def)
    next
      case js: (Inr js)
      obtain s x3 where s: "natsEnsureStream L m js x2 = (s, x3)" by fastforce
      from Inr c conn j js s st o1 o2 nats_ackD(3)[OF ok s] nats_ackD(4)[OF ok, of x3 nc] show ?thesis
        by (auto simp: natsStart_def split: sum.splits)
    qed
  qed
qed

lemma natsStop_acked:
  assumes ok: "nats_ok L opn acked" and st: "natsStop L m x = (r, m', x')"
  shows "acked x \<subseteq> acked x'"
proof (cases "nbNc m")
  case None
  with st show ?thesis by (auto simp: natsStop_def Let_def)
next
  case (Some nc)
  obtain d x1 where d: "nc_Drain L nc x = (d, x1)" by fastforce
  note o = nats_ackD(5)[OF ok d] nats_ackD(4)[OF ok, of x1 nc]
  show ?thesis using Some d st o by (cases d) (auto simp: natsStop_def Let_def)
qed

lemma module_acked:
  assumes ok: "nats_ok (natsLib P) opn acked" and md: "md \<in> set (mods (wire P))"
    and st: "moduleStart md w = (r, w') \<or> moduleStop md w = (r, w')"
  shows "acked (snd (wNats w)) \<subseteq> acked (snd (wNats w')) \<and> wDb w' = wDb w"
proof -
  obtain m x where n: "wNats w = (m, x)" by fastforce
  obtain r1 m1 x1 where s: "natsStart (natsLib P) (tlsFiles P) m x = (r1, m1, x1)" by (metis surj_pair)
  obtain r2 m2 x2 where p: "natsStop (natsLib P) m x = (r2, m2, x2)" by (metis surj_pair)
  show ?thesis using md st n s p natsStart_acked[OF ok s] natsStop_acked[OF ok p]
    by (auto simp: wire_def liftModule_def on_defs natsAsModule_def split: prod.splits) blast+
qed

section \<open>Replicas\<close>

type_synonym ('c, 'j, 'cl, 'se, 'el, 's, 'l) replica =
  "'l App \<times> ('c, 'j) natsModule \<times> ('cl, 'se, 'el) etcdModule \<times> 's cassModule"

record ('xn, 'xe, 'xc, 'w) shared =
  shNats :: 'xn
  shEtcd :: 'xe
  shCass :: 'xc
  shDb :: 'w

definition enter ::
  "('c, 'j, 'cl, 'se, 'el, 's, 'l) replica \<Rightarrow> ('xn, 'xe, 'xc, 'w) shared \<Rightarrow> ('c, 'j, 'xn, 'cl, 'se, 'el, 'xe, 's, 'xc, 'w) cpWorld" where
  "enter r s = (case r of (a, n, e, c) \<Rightarrow>
     \<lparr>wNats = (n, shNats s), wEtcd = (e, shEtcd s), wCass = (c, shCass s), wDb = shDb s\<rparr>)"

definition leave :: "'l App \<Rightarrow> ('c, 'j, 'xn, 'cl, 'se, 'el, 'xe, 's, 'xc, 'w) cpWorld \<Rightarrow> ('c, 'j, 'cl, 'se, 'el, 's, 'l) replica" where
  "leave a w = (a, fst (wNats w), fst (wEtcd w), fst (wCass w))"

definition outside :: "('c, 'j, 'xn, 'cl, 'se, 'el, 'xe, 's, 'xc, 'w) cpWorld \<Rightarrow> ('xn, 'xe, 'xc, 'w) shared" where
  "outside w = \<lparr>shNats = snd (wNats w), shEtcd = snd (wEtcd w), shCass = snd (wCass w), shDb = wDb w\<rparr>"

text \<open>A process that \<open>main\<close> has just set up.\<close>

definition boot :: "Config \<Rightarrow> time \<Rightarrow> ('c, 'j, 'cl, 'se, 'el, 's, 'l) replica" where
  "boot c now = leave (New c [''natsbus'', ''etcdcoord'', ''cassstore''] now) (newModules c () () () ())"

inductive fleet_step ::
  "('xn, 'c, 'j, 'xe, 'cl, 'se, 'el, 'xc, 's, 'w, 'k, 'l) platform \<Rightarrow>
   (('c, 'j, 'xn, 'cl, 'se, 'el, 'xe, 's, 'xc, 'w) cpWorld, 'l) http_lib \<Rightarrow> ('w \<Rightarrow> tables) \<Rightarrow> ('xn \<Rightarrow> natsMsg set) \<Rightarrow>
   ('c, 'j, 'cl, 'se, 'el, 's, 'l) replica list \<times> ('xn, 'xe, 'xc, 'w) shared \<Rightarrow>
   ('c, 'j, 'cl, 'se, 'el, 's, 'l) replica list \<times> ('xn, 'xe, 'xc, 'w) shared \<Rightarrow> bool" for P H view acked where
  fl_join: "fleet_step P H view acked (rs, s) (rs @ [boot c now], s)"
| fl_restart: "k < length rs \<Longrightarrow> fleet_step P H view acked (rs, s) (rs[k := boot c now], s)"
| fl_serve: "k < length rs \<Longrightarrow> service (wire P) H (fst (rs ! k), enter (rs ! k) s) (a', w') \<Longrightarrow>
    fleet_step P H view acked (rs, s) (rs[k := leave a' w'], outside w')"
| fl_start: "k < length rs \<Longrightarrow> md \<in> set (mods (wire P)) \<Longrightarrow> moduleStart md (enter (rs ! k) s) = (q, w') \<Longrightarrow>
    fleet_step P H view acked (rs, s) (rs[k := leave (fst (rs ! k)) w'], outside w')"
| fl_stop: "k < length rs \<Longrightarrow> md \<in> set (mods (wire P)) \<Longrightarrow> moduleStop md (enter (rs ! k) s) = (q, w') \<Longrightarrow>
    fleet_step P H view acked (rs, s) (rs[k := leave (fst (rs ! k)) w'], outside w')"
| fl_elect: "k < length rs \<Longrightarrow> rs ! k = (a, n, e, c) \<Longrightarrow> coordStep (edNodeID e) l (edCoord e) = Some co \<Longrightarrow>
    fleet_step P H view acked (rs, s) (rs[k := (a, n, e\<lparr>edCoord := co\<rparr>, c)], s)"
| fl_outside: "view (shDb s') = view (shDb s) \<Longrightarrow> acked (shNats s) \<subseteq> acked (shNats s') \<Longrightarrow>
    fleet_step P H view acked (rs, s) (rs, s')"

text \<open>Every event that the store calls published has been acknowledged by JetStream, with its subject and
  its payload, under its identifier.\<close>

definition outbox_safe :: "'w session \<Rightarrow> ('w \<Rightarrow> tables) \<Rightarrow> ('xn \<Rightarrow> natsMsg set) \<Rightarrow> ('xn, 'xe, 'xc, 'w) shared \<Rightarrow> bool" where
  "outbox_safe S view acked s \<longleftrightarrow>
     store_inv (view (shDb s)) \<and>
     (\<forall>k \<in> published_ids (view (shDb s)). \<exists>t m i. events_by_id (view (shDb s)) k = Some (t, m) \<and> ParseUUID S i = Inr k \<and>
        natsMessage (m_subject m) (m_payload m) i \<in> acked (shNats s))"

lemma enter_parts [simp]:
  "wDb (enter r s) = shDb s" "snd (wNats (enter r s)) = shNats s"
  "shDb (outside w) = wDb w" "shNats (outside w) = snd (wNats w)"
  by (simp_all add: enter_def outside_def split: prod.splits)

lemma outbox_safe_more:
  assumes "outbox_safe S view acked s" "view (shDb s') = view (shDb s)" "acked (shNats s) \<subseteq> acked (shNats s')"
  shows "outbox_safe S view acked s'"
  using assms unfolding outbox_safe_def by (metis subsetD)

text \<open>The safety of the contract, read off the world of a replica.\<close>

lemma safe_outside:
  fixes P :: "('xn, 'c, 'j, 'xe, 'cl, 'se, 'el, 'xc, 's, 'w, 'k, 'l) platform"
  assumes c: "http_contract (wire P) (cpInv view Q) (cpPub view) (cpAck S acked) (cpEvt view) (cpKey S) H"
  shows "outbox_contract.safe (cpInv view Q) (cpPub view) (cpAck S acked) (cpEvt view) w \<longleftrightarrow>
    outbox_safe S view acked (outside (w :: ('c, 'j, 'xn, 'cl, 'se, 'el, 'xe, 's, 'xc, 'w) cpWorld)) \<and> Q w"
proof -
  have oc: "outbox_contract (wire P) (cpInv view Q) (cpPub view) (cpAck S acked) (cpEvt view) (cpKey S)"
    using c by (simp add: http_contract_def)
  have k: "cpKey S i = Some k \<longleftrightarrow> ParseUUID S i = Inr k" for i k by (auto simp: cpKey_def split: sum.splits)
  show ?thesis
    unfolding outbox_contract.safe_def[OF oc] outbox_contract.delivered_def[OF oc]
    by (auto simp: outbox_safe_def cp_defs k) fastforce+
qed

lemma fleet_safe:
  assumes pl: "plane_ok P view opn acked" and pg: "pages_ok view H"
    and st: "fleet_step P H view acked x y" and s: "outbox_safe (cqlSession P) view acked (snd x)"
  shows "outbox_safe (cqlSession P) view acked (snd y)"
proof -
  note c = plane_contract[OF pl pg module_inv_True]
  note so = safe_outside[OF c]
  have nok: "nats_ok (natsLib P) opn acked" using pl by (simp add: plane_ok_def)
  note more = outbox_safe_more[where S = "cqlSession P" and view = view and acked = acked]
  have eo: "outbox_safe (cqlSession P) view acked (outside (enter r s1)) = outbox_safe (cqlSession P) view acked s1" for r s1
    by (simp add: outbox_safe_def)
  from st s show ?thesis
  proof (induction rule: fleet_step.induct)
    case (fl_serve k rs s a' w')
    from http_contract.service_safe[OF c fl_serve(2)] fl_serve(3) show ?case by (simp add: so eo)
  next
    case (fl_start k rs md s q w')
    from module_acked[OF nok fl_start(2), of "enter (rs ! k) s" q w'] fl_start(3,4) show ?case using more[of s "outside w'"] by auto
  next
    case (fl_stop k rs md s q w')
    from module_acked[OF nok fl_stop(2), of "enter (rs ! k) s" q w'] fl_stop(3,4) show ?case using more[of s "outside w'"] by auto
  qed (auto intro: more)
qed

lemma fleet_run_safe:
  assumes "plane_ok P view opn acked" and "pages_ok view H"
  shows "(fleet_step P H view acked)\<^sup>*\<^sup>* x y \<Longrightarrow> outbox_safe (cqlSession P) view acked (snd x) \<Longrightarrow>
    outbox_safe (cqlSession P) view acked (snd y)"
  by (induction rule: rtranclp_induct) (auto intro: fleet_safe[OF assms])

text \<open>C1: The outbox is safe. Take any number of replicas of the control plane against one broker and one
  database, empty at first, and let them start, stop, crash and restart, hold elections, serve any
  requests with any outcome of their calls, and run the relay and the cleanup, in any order. Then the
  tables stay consistent, and every event that the store calls published has been acknowledged by JetStream
  under its own identifier, with the subject and the payload that the store holds: no event is taken
  out of the outbox before its message is in the stream.\<close>

theorem outbox_safety:
  assumes "plane_ok P view opn acked" and "pages_ok view H" and "view (shDb s0) = empty_tables"
    and "(fleet_step P H view acked)\<^sup>*\<^sup>* ([], s0) (rs, s)"
  shows "store_inv (view (shDb s)) \<and>
    (\<forall>k \<in> published_ids (view (shDb s)). \<exists>t m i. events_by_id (view (shDb s)) k = Some (t, m) \<and>
       ParseUUID (cqlSession P) i = Inr k \<and> natsMessage (m_subject m) (m_payload m) i \<in> acked (shNats s))"
proof -
  have "outbox_safe (cqlSession P) view acked s0"
    using assms(3) store_inv_empty by (simp add: outbox_safe_def published_ids_def empty_tables_def)
  with fleet_run_safe[OF assms(1,2,4)] show ?thesis by (simp add: outbox_safe_def)
qed

text \<open>A replica joins, starts its modules and serves a request.\<close>

lemma enter_leave: "enter (leave a w) (outside w) = w"
  by (simp add: enter_def leave_def outside_def)

lemma start_leave:
  assumes "md \<in> set (mods (wire P))"
  shows "fleet_step P H view acked ([leave a w], outside w) ([leave a (snd (moduleStart md w))], outside (snd (moduleStart md w)))"
  using fl_start[of 0 "[leave a w]" md P "outside w" "fst (moduleStart md w)" "snd (moduleStart md w)" H view acked] assms
  by (simp add: enter_leave) (simp add: leave_def)

lemma serve_leave:
  assumes "rootHandler (wire P) H r newRW a w = (rw, a', w')"
  shows "fleet_step P H view acked ([leave a w], outside w) ([leave a' w'], outside w')"
  using fl_serve[of 0 "[leave a w]" P H "outside w" a' w' view acked] sv_request[OF assms] by (simp add: enter_leave) (simp add: leave_def)

lemma boot0: "leave app1 new0 = boot cfg0 0"
  by (simp add: boot_def app1_def new0_def leave_def newModules_def)

lemma up0_reached: "(fleet_step memPlane memHttp mem_view (\<lambda>x. set (mnLog x)))\<^sup>*\<^sup>* ([], outside new0) ([leave app1 up0], outside up0)"
proof -
  have m: "mods (wire memPlane) ! k \<in> set (mods (wire memPlane))" if "k < 3" for k
    by (rule nth_mem) (use that in \<open>simp add: wire_def\<close>)
  let ?F = "fleet_step memPlane memHttp mem_view (\<lambda>x. set (mnLog x))"
  let ?w1 = "snd (moduleStart (mods (wire memPlane) ! 0) new0)"
  let ?w2 = "snd (moduleStart (mods (wire memPlane) ! 1) ?w1)"
  have "?F ([], outside new0) ([leave app1 new0], outside new0)"
    using fl_join[of memPlane memHttp mem_view "\<lambda>x. set (mnLog x)" "[]" "outside new0" cfg0 0] by (simp add: boot0)
  moreover have "?F ([leave app1 new0], outside new0) ([leave app1 ?w1], outside ?w1)" by (rule start_leave[OF m]) simp
  moreover have "?F ([leave app1 ?w1], outside ?w1) ([leave app1 ?w2], outside ?w2)" by (rule start_leave[OF m]) simp
  moreover have "?F ([leave app1 ?w2], outside ?w2) ([leave app1 up0], outside up0)" unfolding up0_def by (rule start_leave[OF m]) simp
  ultimately show ?thesis by (meson rtranclp.rtrancl_into_rtrancl rtranclp.rtrancl_refl)
qed

theorem outbox_safety_witness:
  "\<exists>rs s t m i. (fleet_step memPlane memHttp mem_view (\<lambda>x. set (mnLog x)))\<^sup>*\<^sup>* ([], outside new0) (rs, s) \<and>
     1 \<in> published_ids (mem_view (shDb s)) \<and> events_by_id (mem_view (shDb s)) 1 = Some (t, m) \<and>
     natsMessage (m_subject m) (m_payload m) i \<in> set (mnLog (shNats s))"
proof -
  obtain rw' a' where r: "rootHandler (wire memPlane) memHttp post0 newRW app1 up0 = (rw', a', snd (snd handled0))"
    and p: "1 \<in> published_ids (mem_view (wDb (snd (snd handled0))))" by (rule post0_run)
  have run: "(fleet_step memPlane memHttp mem_view (\<lambda>x. set (mnLog x)))\<^sup>*\<^sup>* ([], outside new0)
      ([leave a' (snd (snd handled0))], outside (snd (snd handled0)))"
    using up0_reached serve_leave[OF r] by (rule rtranclp.rtrancl_into_rtrancl)
  have "mem_view (shDb (outside new0)) = empty_tables"
    by (simp add: new0_def newModules_def mem_view_def mem_empty_def empty_tables_def fun_eq_iff)
  from outbox_safety[OF memPlane_ok memHttp_ok this run] p run show ?thesis by fastforce
qed

section \<open>Answers\<close>

text \<open>C2: A success that the service reports is true. When \<^verbatim>\<open>POST /events\<close> is answered with 201 or 200, through all
  the middleware, then the answer names an event that the store holds under this identifier, with the subject of the answer; its outbox
  row is published; and JetStream has acknowledged a message with the event's identifier, subject and payload.\<close>

theorem publish_answer_true:
  assumes "plane_ok P view opn acked" and "pages_ok view H" and "outbox_safe (cqlSession P) view acked (outside w)"
    and "rqMethod r = ''POST''" and "rqPath r = ''/events''"
    and "rootHandler (wire P) H r newRW a w = (rw', a', w')" and "fst (response rw') \<in> {200, 201}"
  shows "\<exists>i k t m st fs. last (rwBody rw') = Json (JObj ((''id'', JStr i) # (''stream'', JStr st) # (''subject'', JStr (m_subject m)) # fs)) \<and>
    ParseUUID (cqlSession P) i = Inr k \<and> events_by_id (view (wDb w')) k = Some (t, m) \<and> k \<in> published_ids (view (wDb w')) \<and>
    (\<exists>j. ParseUUID (cqlSession P) j = Inr k \<and> natsMessage (m_subject m) (m_payload m) j \<in> acked (snd (wNats w')))"
proof -
  note c = plane_contract[OF assms(1,2) module_inv_True]
  have s: "outbox_contract.safe (cpInv view (\<lambda>_. True)) (cpPub view) (cpAck (cqlSession P) acked) (cpEvt view) w"
    using assms(3) by (simp add: safe_outside[OF c])
  have s': "outbox_safe (cqlSession P) view acked (outside w')"
    using http_contract.safe_handlerD[OF c http_contract.root_safe[OF c] s assms(6)] by (simp add: safe_outside[OF c])
  have np: "\<not> rwPanic rw'" using assms(6)
    by (auto simp: rootHandler_def withRecovery_def http_Error_def writeBody_def WriteHeader_def setHeader_def split: prod.splits if_splits)
  have "http_contract.reports (cpPub view) (cpEvt view) (cpKey (cqlSession P)) rw' w'"
    by (rule http_contract.truthfulD[OF c http_contract.root_truthful[OF c] _ _ s assms(6) np assms(7)])
      (use assms(4,5) in \<open>simp_all add: http_contract.posts_def[OF c] newRW_def\<close>)
  then obtain i k st sb p fs where r: "cpKey (cqlSession P) i = Some k" "k \<in> cpPub view w'" "cpEvt view w' k = Some (sb, p)"
    "last (rwBody rw') = Json (JObj ((''id'', JStr i) # (''stream'', JStr st) # (''subject'', JStr sb) # fs))"
    unfolding http_contract.reports_def[OF c] by blast
  from r(3) obtain t m where m: "events_by_id (view (wDb w')) k = Some (t, m)" "sb = m_subject m" by (auto simp: cpEvt_def)
  have "ParseUUID (cqlSession P) i = Inr k" using r(1) by (auto simp: cpKey_def split: sum.splits)
  with r m s' show ?thesis by (fastforce simp: cpPub_def outbox_safe_def)
qed

theorem publish_answer_true_witness:
  "\<exists>rw a w t m. rootHandler (wire memPlane) memHttp post0 newRW app1 up0 = (rw, a, w) \<and> fst (response rw) = 201 \<and>
     events_by_id (mem_view (wDb w)) 1 = Some (t, m) \<and> 1 \<in> published_ids (mem_view (wDb w)) \<and>
     (\<exists>j. natsMessage (m_subject m) (m_payload m) j \<in> set (mnLog (snd (wNats w))))"
proof -
  obtain rw' a' where r: "rootHandler (wire memPlane) memHttp post0 newRW app1 up0 = (rw', a', snd (snd handled0))"
    and c: "fst (response rw') = 201" by (rule post0_run)
  have s: "outbox_safe (cqlSession memPlane) mem_view (\<lambda>x. set (mnLog x)) (outside up0)"
    using up0_view store_inv_empty by (simp add: outbox_safe_def published_ids_def empty_tables_def)
  have k: "k = 1" if "k \<in> published_ids (mem_view (wDb (snd (snd handled0))))" for k
    using handled0(3) that by (auto simp: published_ids_def mem_view_def dest: map_of_SomeD)
  from publish_answer_true[OF memPlane_ok memHttp_ok s _ _ r] c r k show ?thesis
    by (fastforce simp: post0_def)
qed

end
