(* ===== verification/Run_Lifecycle.thy ===== *)
theory Run_Lifecycle
  imports Fleet
begin

text \<open>
  The whole life of a process: \<open>Run\<close> over the wired modules. What is open at the broker, at etcd and
  at Cassandra on its behalf is what the modules hold, after every start, request, tick and stop.
\<close>

section \<open>Starting\<close>

lemma lift_leakfree:
  assumes "leakfree m op he"
  shows "leakfree (liftModule on_nats m) (\<lambda>w. op (wNats w)) (\<lambda>w. he (wNats w))"
    and "leakfree (liftModule on_etcd m) (\<lambda>w. op (wEtcd w)) (\<lambda>w. he (wEtcd w))"
    and "leakfree (liftModule on_cass m) (\<lambda>w. op (wCass w)) (\<lambda>w. he (wCass w))"
  by (unfold_locales; auto simp: liftModule_def on_defs split: prod.splits
      dest: leakfree.start_ok[OF assms] leakfree.start_err[OF assms] leakfree.stop_closes[OF assms])+

lemma start_inv:
  assumes "\<And>w. J w \<Longrightarrow> J (snd (moduleStart m w))" and "\<And>t w. J w \<Longrightarrow> J (snd (waitTimer d t w))" and "J w"
  shows "J (snd (startModuleWithRetry d c m w))"
proof -
  have "J w \<Longrightarrow> J (snd (startLoop n d m t w))" for n t w
  proof (induction n arbitrary: t w)
    case (Suc n)
    obtain q w1 where s: "moduleStart m w = (q, w1)" by fastforce
    obtain x w2 where t: "waitTimer d t w1 = (x, w2)" by fastforce
    have "J w1" "J w2" using assms(1)[OF Suc.prems] assms(2)[of w1 t] s t by simp_all
    with Suc s t show ?case by (cases q; cases x) simp_all
  qed (simp add: assms)
  with assms(3) show ?thesis by (simp add: startModuleWithRetry_def)
qed

text \<open>What is open on behalf of the process, and what its modules hold.\<close>

definition tidy ::
  "('xn \<Rightarrow> 'c set) \<Rightarrow> ('xe \<Rightarrow> ('cl + 'se) set) \<Rightarrow> ('xc \<Rightarrow> 's set) \<Rightarrow> ('c, 'j, 'xn, 'cl, 'se, 'el, 'xe, 's, 'xc, 'w) cpWorld \<Rightarrow> bool" where
  "tidy opnN opnE opnC w \<longleftrightarrow>
     opnN (snd (wNats w)) = nats_held (wNats w) \<and> opnE (snd (wEtcd w)) = etcd_held (wEtcd w) \<and>
     opnC (snd (wCass w)) = cass_held (wCass w)"

definition idle ::
  "('xn \<Rightarrow> 'c set) \<Rightarrow> ('xe \<Rightarrow> ('cl + 'se) set) \<Rightarrow> ('xc \<Rightarrow> 's set) \<Rightarrow> ('c, 'j, 'xn, 'cl, 'se, 'el, 'xe, 's, 'xc, 'w) cpWorld \<Rightarrow> bool" where
  "idle opnN opnE opnC w \<longleftrightarrow> opnN (snd (wNats w)) = {} \<and> opnE (snd (wEtcd w)) = {} \<and> opnC (snd (wCass w)) = {}"

lemma ready_opn:
  assumes eok: "etcd_ok (etcdLib P) opnE" and cok: "cass_ok (cassLib P) opnC made"
    and md: "md \<in> set (mods (wire P))" and r: "moduleReady md w = (q, w')"
  shows "wNats w' = wNats w \<and> fst (wEtcd w') = fst (wEtcd w) \<and> opnE (snd (wEtcd w')) = opnE (snd (wEtcd w)) \<and>
    fst (wCass w') = fst (wCass w) \<and> opnC (snd (wCass w')) = opnC (snd (wCass w))"
proof -
  obtain em ex where e: "wEtcd w = (em, ex)" by fastforce
  obtain cm cx where c: "wCass w = (cm, cx)" by fastforce
  obtain r1 ex' where r1: "etcdReady (etcdLib P) em ex = (r1, ex')" by fastforce
  obtain r2 cx' where r2: "cassReady (cassLib P) cm cx = (r2, cx')" by fastforce
  have st: "opnE (snd (cl_Status (etcdLib P) cl ep ex)) = opnE ex" for cl ep using eok by (simp add: etcd_ok_def)
  have "opnE (snd (etcdReady (etcdLib P) em ex)) = opnE ex" by (simp add: etcdReady_def st split: option.splits list.splits)
  with r1 have "opnE ex' = opnE ex" by simp
  moreover have "opnC cx' = opnC cx" using r2 cass_okD(3)[OF cok] by (auto simp: cassReady_def split: option.splits)
  ultimately show ?thesis using md r e c r1 r2
    by (auto simp: wire_def liftModule_def on_defs natsAsModule_def etcdAsModule_def cassAsModule_def split: prod.splits)
qed

lemma bus_opn:
  assumes nok: "nats_ok (natsLib P) opnN acked"
    and r: "on_nats (busPublishOp (natsAsBus (natsLib P)) s p m) w = (q, w') \<or> on_nats (busSubscribeOp (natsAsBus (natsLib P)) s) w = (q', w')"
  shows "fst (wNats w') = fst (wNats w) \<and> opnN (snd (wNats w')) = opnN (snd (wNats w)) \<and> wEtcd w' = wEtcd w \<and> wCass w' = wCass w"
proof -
  obtain nm nx where n: "wNats w = (nm, nx)" by fastforce
  obtain r1 x1 where r1: "natsPublish (natsLib P) nm s p m nx = (r1, x1)" by fastforce
  obtain r2 x2 where r2: "natsSubscribe (natsLib P) nm s nx = (r2, x2)" by fastforce
  have k: "nats_keeps opnN acked (nc_Subscribe (natsLib P) c s)" for c using nok by (simp add: nats_ok_def)
  have "opnN x2 = opnN nx"
  proof (cases "nbNc nm")
    case (Some nc)
    with r2 have "nc_Subscribe (natsLib P) nc s nx = (r2, x2)" by (simp add: natsSubscribe_def)
    from nats_keepsD[OF k this] show ?thesis ..
  qed (use r2 in \<open>simp add: natsSubscribe_def\<close>)
  with natsPublish_opn[OF nok r1] r n r1 r2 show ?thesis by (auto simp: on_nats_def natsAsBus_def)
qed

lemma tidy_same:
  assumes "tidy opnN opnE opnC w"
    "fst (wNats w') = fst (wNats w) \<and> opnN (snd (wNats w')) = opnN (snd (wNats w))"
    "fst (wEtcd w') = fst (wEtcd w) \<and> opnE (snd (wEtcd w')) = opnE (snd (wEtcd w))"
    "fst (wCass w') = fst (wCass w) \<and> opnC (snd (wCass w')) = opnC (snd (wCass w))"
  shows "tidy opnN opnE opnC w'"
  using assms by (simp add: tidy_def nats_held_def etcd_held_def cass_held_def)

lemma tidy_inv:
  fixes P :: "('xn, 'c, 'j, 'xe, 'cl, 'se, 'el, 'xc, 's, 'w, 'k, 'l) platform"
  assumes nok: "nats_ok (natsLib P) opnN acked" and eok: "etcd_ok (etcdLib P) opnE" and cok: "cass_ok (cassLib P) opnC made"
  shows "module_inv P (tidy opnN opnE opnC)"
  unfolding module_inv_def
proof (intro conjI allI impI ballI)
  fix w :: "('c, 'j, 'xn, 'cl, 'se, 'el, 'xe, 's, 'xc, 'w) cpWorld" and s p m
  assume t: "tidy opnN opnE opnC w"
  show "tidy opnN opnE opnC (snd (on_nats (busPublishOp (natsAsBus (natsLib P)) s p m) w))"
    by (rule tidy_same[OF t]) (use bus_opn[OF nok disjI1[OF prod.collapse[symmetric]], of s p m w] in simp_all)
  show "tidy opnN opnE opnC (snd (on_nats (busSubscribeOp (natsAsBus (natsLib P)) s) w))"
    by (rule tidy_same[OF t]) (use bus_opn[OF nok disjI2[OF prod.collapse[symmetric]], of s w] in simp_all)
next
  fix md and w :: "('c, 'j, 'xn, 'cl, 'se, 'el, 'xe, 's, 'xc, 'w) cpWorld"
  assume md: "md \<in> set (mods (wire P))" and t: "tidy opnN opnE opnC w"
  show "tidy opnN opnE opnC (snd (moduleReady md w))"
    by (rule tidy_same[OF t]) (use ready_opn[OF eok cok md prod.collapse[symmetric], of w] in simp_all)
qed (simp add: tidy_def)

text \<open>Starting one module leaves the others alone.\<close>

lemma start_frame:
  "startModuleWithRetry (wire P) c (liftModule on_nats mn) w = (r, w') \<Longrightarrow> wEtcd w' = wEtcd w \<and> wCass w' = wCass w"
  "startModuleWithRetry (wire P) c (liftModule on_etcd me) w = (r, w') \<Longrightarrow> wNats w' = wNats w \<and> wCass w' = wCass w"
  "startModuleWithRetry (wire P) c (liftModule on_cass mc) w = (r, w') \<Longrightarrow> wNats w' = wNats w \<and> wEtcd w' = wEtcd w"
proof -
  have "(\<lambda>w'. wEtcd w' = wEtcd w \<and> wCass w' = wCass w) (snd (startModuleWithRetry (wire P) c (liftModule on_nats mn) w))"
    by (rule start_inv) (simp_all add: wire_def liftModule_def on_defs split_beta)
  then show "startModuleWithRetry (wire P) c (liftModule on_nats mn) w = (r, w') \<Longrightarrow> wEtcd w' = wEtcd w \<and> wCass w' = wCass w" by simp
  have "(\<lambda>w'. wNats w' = wNats w \<and> wCass w' = wCass w) (snd (startModuleWithRetry (wire P) c (liftModule on_etcd me) w))"
    by (rule start_inv) (simp_all add: wire_def liftModule_def on_defs split_beta)
  then show "startModuleWithRetry (wire P) c (liftModule on_etcd me) w = (r, w') \<Longrightarrow> wNats w' = wNats w \<and> wCass w' = wCass w" by simp
  have "(\<lambda>w'. wNats w' = wNats w \<and> wEtcd w' = wEtcd w) (snd (startModuleWithRetry (wire P) c (liftModule on_cass mc) w))"
    by (rule start_inv) (simp_all add: wire_def liftModule_def on_defs split_beta)
  then show "startModuleWithRetry (wire P) c (liftModule on_cass mc) w = (r, w') \<Longrightarrow> wNats w' = wNats w \<and> wEtcd w' = wEtcd w" by simp
qed

lemma timer_keeps:
  "snd (wNats (snd (waitTimer (wire P) t w))) = snd (wNats w)" "wNats (snd (waitTimer (wire P) t w)) = wNats w"
  "wEtcd (snd (waitTimer (wire P) t w)) = wEtcd w" "wCass (snd (waitTimer (wire P) t w)) = wCass w"
  "plane_ok P view opn acked \<Longrightarrow> view (wDb (snd (waitTimer (wire P) t w))) = view (wDb w)"
  by (simp_all add: wire_def on_db_def split_beta plane_ok_def reads_def)

lemma start_safe:
  fixes P :: "('xn, 'c, 'j, 'xe, 'cl, 'se, 'el, 'xc, 's, 'w, 'k, 'l) platform"
  assumes pl: "plane_ok P view opn acked" and md: "md \<in> set (mods (wire P))" and s: "outbox_safe S view acked (outside w)"
    and st: "startModuleWithRetry (wire P) c md w = (r, w')"
  shows "outbox_safe S view acked (outside w')"
proof -
  have nok: "nats_ok (natsLib P) opn acked" using pl by (simp add: plane_ok_def)
  have "(\<lambda>w. outbox_safe S view acked (outside w)) (snd (startModuleWithRetry (wire P) c md w))"
  proof (rule start_inv)
    show "outbox_safe S view acked (outside w)" by (rule s)
  next
    fix w :: "('c, 'j, 'xn, 'cl, 'se, 'el, 'xe, 's, 'xc, 'w) cpWorld"
    assume s: "outbox_safe S view acked (outside w)"
    show "outbox_safe S view acked (outside (snd (moduleStart md w)))"
      by (rule outbox_safe_more[OF s]) (use module_acked[OF nok md disjI1[OF prod.collapse[symmetric]], of w] in simp_all)
  next
    fix t and w :: "('c, 'j, 'xn, 'cl, 'se, 'el, 'xe, 's, 'xc, 'w) cpWorld"
    assume s: "outbox_safe S view acked (outside w)"
    show "outbox_safe S view acked (outside (snd (waitTimer (wire P) t w)))"
      by (rule outbox_safe_more[OF s]) (simp_all add: timer_keeps(1) timer_keeps(5)[OF pl])
  qed
  with st show ?thesis by simp
qed

text \<open>The three modules, one after the other.\<close>

lemma startModules_tidy:
  assumes pl: "plane_ok P view opnN acked" and eok: "etcd_ok (etcdLib P) opnE" and cok: "cass_ok (cassLib P) opnC made"
    and i: "idle opnN opnE opnC w" "tidy opnN opnE opnC w" and s: "outbox_safe (cqlSession P) view acked (outside w)"
    and st: "startModules (wire P) c (mods (wire P)) w = (r, w')"
  shows "tidy opnN opnE opnC w' \<and> outbox_safe (cqlSession P) view acked (outside w')"
proof -
  let ?n = "liftModule on_nats (natsAsModule (natsLib P) (tlsFiles P))"
    and ?e = "liftModule on_etcd (etcdAsModule (etcdLib P) (tlsFiles P))"
    and ?c = "liftModule on_cass (cassAsModule (cassLib P) (tlsFiles P))"
  have md: "mods (wire P) = [?n, ?e, ?c]" by (simp add: wire_def)
  have nok: "nats_ok (natsLib P) opnN acked" using pl by (simp add: plane_ok_def)
  note ln = lift_leakfree(1)[OF nats_leakfree[OF nok, of "tlsFiles P"]]
    and le = lift_leakfree(2)[OF etcd_leakfree[OF eok, of "tlsFiles P"]]
    and lc = lift_leakfree(3)[OF cass_leakfree[OF cok, of "tlsFiles P"]]
  note parts = idle_def tidy_def split_beta
  obtain r1 w1 where s1: "startModuleWithRetry (wire P) c ?n w = (r1, w1)" by fastforce
  obtain r2 w2 where s2: "startModuleWithRetry (wire P) c ?e w1 = (r2, w2)" by fastforce
  obtain r3 w3 where s3: "startModuleWithRetry (wire P) c ?c w2 = (r3, w3)" by fastforce
  have n1: "opnN (snd (wNats w1)) = nats_held (wNats w1)"
    using leakfree.startModuleWithRetry_clean[OF ln _ _ _ s1] i by (auto simp: parts timer_keeps split: sum.splits)
  note f1 = start_frame(1)[OF s1]
  have t1: "tidy opnN opnE opnC w1" using i n1 f1 by (simp add: parts)
  have e2: "opnE (snd (wEtcd w2)) = etcd_held (wEtcd w2)"
    using leakfree.startModuleWithRetry_clean[OF le _ _ _ s2] i f1 by (auto simp: parts timer_keeps split: sum.splits)
  note f2 = start_frame(2)[OF s2]
  have t2: "tidy opnN opnE opnC w2" using t1 e2 f2 by (simp add: parts)
  have c3: "opnC (snd (wCass w3)) = cass_held (wCass w3)"
    using leakfree.startModuleWithRetry_clean[OF lc _ _ _ s3] i f1 f2 by (auto simp: parts timer_keeps split: sum.splits)
  have t3: "tidy opnN opnE opnC w3" using t2 c3 start_frame(3)[OF s3] by (simp add: parts)
  have o1: "outbox_safe (cqlSession P) view acked (outside w1)" by (rule start_safe[OF pl _ s s1]) (simp add: md)
  have o2: "outbox_safe (cqlSession P) view acked (outside w2)" by (rule start_safe[OF pl _ o1 s2]) (simp add: md)
  have o3: "outbox_safe (cqlSession P) view acked (outside w3)" by (rule start_safe[OF pl _ o2 s3]) (simp add: md)
  have "w' \<in> {w1, w2, w3}" using st s1 s2 s3 by (cases r1; cases r2; cases r3) (auto simp: md)
  with t1 t2 t3 o1 o2 o3 show ?thesis by auto
qed

lemma stopModules_idle:
  assumes pl: "plane_ok P view opnN acked" and eok: "etcd_ok (etcdLib P) opnE" and cok: "cass_ok (cassLib P) opnC made"
    and t: "tidy opnN opnE opnC w"
  shows "idle opnN opnE opnC (stopModules (rev (mods (wire P))) w) \<and> tidy opnN opnE opnC (stopModules (rev (mods (wire P))) w)"
proof -
  have nok: "nats_ok (natsLib P) opnN acked" using pl by (simp add: plane_ok_def)
  obtain nm nx em ex cm cx where w: "wNats w = (nm, nx)" "wEtcd w = (em, ex)" "wCass w = (cm, cx)" by (metis surj_pair)
  obtain r1 m1 x1 where n: "natsStop (natsLib P) nm nx = (r1, m1, x1)" by (metis surj_pair)
  obtain r2 m2 x2 where e: "etcdStop (etcdLib P) em ex = (r2, m2, x2)" by (metis surj_pair)
  obtain r3 m3 x3 where c: "cassStop (cassLib P) cm cx = (r3, m3, x3)" by (metis surj_pair)
  have "opnC x3 = {} \<and> cass_held (m3, x3) = {}" using leakfree.stop_closes[OF cass_leakfree[OF cok], of "(cm, cx)" "tlsFiles P"] c t w
    by (simp add: tidy_def cassAsModule_def)
  moreover have "opnE x2 = {} \<and> etcd_held (m2, x2) = {}" using leakfree.stop_closes[OF etcd_leakfree[OF eok], of "(em, ex)" "tlsFiles P"] e t w
    by (simp add: tidy_def etcdAsModule_def)
  moreover have "opnN x1 = {} \<and> nats_held (m1, x1) = {}" using leakfree.stop_closes[OF nats_leakfree[OF nok], of "(nm, nx)" "tlsFiles P"] n t w
    by (simp add: tidy_def natsAsModule_def)
  ultimately show ?thesis using w n e c
    by (simp add: wire_def liftModule_def on_defs natsAsModule_def etcdAsModule_def cassAsModule_def idle_def tidy_def)
qed

text \<open>While the server runs, the process takes steps of the service.\<close>

definition serves ::
  "('w, 'l) deps \<Rightarrow> ('w, 'l) http_lib \<Rightarrow> ('l App \<Rightarrow> 'w \<Rightarrow> goerr option \<times> 'l App \<times> 'w) \<Rightarrow> bool" where
  "serves d H serve \<longleftrightarrow> (\<forall>a w e a' w'. serve a w = (e, a', w') \<longrightarrow> (service d H)\<^sup>*\<^sup>* (a, w) (a', w'))"

text \<open>Nothing leaks. The process starts with no connection, client or session; every start of a module is
  retried as configured and may fail after any of its calls; the server then serves any requests and runs its loops.
  However \<open>Run\<close> ends, all that is open is what the modules hold; and when it ends with the shutdown, the modules have been stopped in
  reverse order and nothing is open at all.\<close>

lemma run_tidy:
  fixes P :: "('xn, 'c, 'j, 'xe, 'cl, 'se, 'el, 'xc, 's, 'w, 'k, 'l) platform"
  assumes "plane_ok P view opnN acked" and "etcd_ok (etcdLib P) opnE" and "cass_ok (cassLib P) opnC made" and "pages_ok view H"
    and "opnN xn = {}" and "opnE xe = {}" and "opnC xc = {}"
    and "outbox_safe (cqlSession P) view acked \<lparr>shNats = xn, shEtcd = xe, shCass = xc, shDb = x\<rparr>"
    and "serves (wire P) H serve" and "\<forall>w. \<exists>x. shutdown w = w\<lparr>wDb := x\<rparr>"
    and "Run (wire P) serve shutdown a (newModules c xn xe xc x) = (res, a', w')"
  shows "tidy opnN opnE opnC w' \<and> (res = None \<longrightarrow> idle opnN opnE opnC w')"
proof -
  let ?w = "newModules c xn xe xc x :: ('c, 'j, 'xn, 'cl, 'se, 'el, 'xe, 's, 'xc, 'w) cpWorld" and ?S = "cqlSession P"
  have i: "idle opnN opnE opnC ?w" "tidy opnN opnE opnC ?w" "outside ?w = \<lparr>shNats = xn, shEtcd = xe, shCass = xc, shDb = x\<rparr>"
    using assms(5-7) by (simp_all add: idle_def tidy_def outside_def newModules_def nats_held_def natsNew_def etcd_held_def
        etcdNew_def cass_held_def cassNew_def)
  obtain r w1 where st: "startModules (wire P) (cfg a) (mods (wire P)) ?w = (r, w1)" by fastforce
  have t1: "tidy opnN opnE opnC w1 \<and> outbox_safe ?S view acked (outside w1)"
    by (rule startModules_tidy[OF assms(1-3) i(1,2) _ st]) (use assms(8) i(3) in simp)
  show ?thesis
  proof (cases r)
    case (Inl e)
    with st t1 assms(11) show ?thesis by (auto simp: Run_def)
  next
    case (Inr u)
    obtain e a2 w2 where sv: "serve (a\<lparr>started := True\<rparr>) w1 = (e, a2, w2)" by (metis surj_pair)
    have "nats_ok (natsLib P) opnN acked" using assms(1) by (simp add: plane_ok_def)
    note c = plane_contract[OF assms(1,4) tidy_inv[OF this assms(2,3)]]
    have "(service (wire P) H)\<^sup>*\<^sup>* (a\<lparr>started := True\<rparr>, w1) (a2, w2)" using assms(9) sv by (simp add: serves_def)
    from http_contract.services_safe[OF c this] t1 have t2: "tidy opnN opnE opnC w2" by (simp add: safe_outside[OF c])
    obtain y where y: "shutdown w2 = w2\<lparr>wDb := y\<rparr>" using assms(10) by blast
    have t3: "tidy opnN opnE opnC (shutdown w2)" using t2 by (simp add: y tidy_def)
    show ?thesis
    proof (cases e)
      case (Some e')
      with st Inr sv t2 assms(11) show ?thesis by (auto simp: Run_def)
    next
      case None
      with st Inr sv assms(11) have r: "res = None" "w' = stopModules (rev (mods (wire P))) (shutdown w2)" by (simp_all add: Run_def)
      from stopModules_idle[OF assms(1-3) t3] r show ?thesis by simp
    qed
  qed
qed

end
