(* ===== verification/Command.thy ===== *)
theory Command
  imports Run_Lifecycle
begin

text \<open>
  The command \<^verbatim>\<open>cmd/controlplane/main.go\<close> and the telemetry it sets up,
  \<^verbatim>\<open>internal/telemetry/otel.go\<close>: from the environment to the exit code. \<open>log.Fatal\<close> ends the process
  without running the deferred calls. The OpenTelemetry library is a parameter.
\<close>

section \<open>Telemetry\<close>

datatype otlpOption = WithEndpoint string | WithInsecure

datatype ('ex, 'rs) providerOption = WithResource 'rs | WithBatcher 'ex duration

record ('x, 'ex, 'rs, 'tp) otel_lib =
  SetTextMapPropagator :: "'x \<Rightarrow> 'x"
  otlptracegrpc_New :: "otlpOption list \<Rightarrow> ('ex, 'x) call"
  resource_New :: "(string \<times> string) list \<Rightarrow> ('rs, 'x) call"
  NewTracerProvider :: "('ex, 'rs) providerOption list \<Rightarrow> 'x \<Rightarrow> 'tp \<times> 'x"
  SetTracerProvider :: "'tp \<Rightarrow> 'x \<Rightarrow> 'x"
  tp_Shutdown :: "'tp \<Rightarrow> (unit, 'x) call"

text \<open>\<open>Setup\<close> returns the function that shuts the telemetry down: of a provider, or one that does nothing.\<close>

definition Setup :: "('x, 'ex, 'rs, 'tp) otel_lib \<Rightarrow> string \<Rightarrow> string \<Rightarrow> ('tp option, 'x) call" where
  "Setup T serviceName otlpEndpoint x =
     (let x0 = SetTextMapPropagator T x in
      if otlpEndpoint = [] then (Inr None, x0)
      else
        (case otlptracegrpc_New T [WithEndpoint otlpEndpoint, WithInsecure] x0 of
           (Inl e, x1) \<Rightarrow> (Inl e, x1)
         | (Inr ex, x1) \<Rightarrow>
             (case resource_New T [(''service.name'', serviceName)] x1 of
                (Inl e, x2) \<Rightarrow> (Inl e, x2)
              | (Inr res, x2) \<Rightarrow>
                  (let (tp, x3) = NewTracerProvider T [WithResource res, WithBatcher ex second] x2
                   in (Inr (Some tp), SetTracerProvider T tp x3)))))"

definition shutdownOtel :: "('x, 'ex, 'rs, 'tp) otel_lib \<Rightarrow> 'tp option \<Rightarrow> 'x \<Rightarrow> 'x" where
  "shutdownOtel T sh x = (case sh of None \<Rightarrow> x | Some tp \<Rightarrow> snd (tp_Shutdown T tp x))"

section \<open>The process\<close>

datatype exit = Returned | Fatal goerr

text \<open>What the process leaves behind: how it ended, the world of the telemetry, and the modules when it got so far as
  to create them. \<open>traced\<close> is what the spans of \<open>Run\<close> do to the telemetry.\<close>

definition main ::
  "('x, 'ex, 'rs, 'tp) otel_lib \<Rightarrow> ('xn, 'c, 'j, 'xe, 'cl, 'se, 'el, 'xc, 's, 'w, 'k, 'l) platform \<Rightarrow>
   (string \<Rightarrow> string) \<Rightarrow> goerr + string \<Rightarrow> time \<Rightarrow>
   ('l App \<Rightarrow> ('c, 'j, 'xn, 'cl, 'se, 'el, 'xe, 's, 'xc, 'w) cpWorld \<Rightarrow>
     goerr option \<times> 'l App \<times> ('c, 'j, 'xn, 'cl, 'se, 'el, 'xe, 's, 'xc, 'w) cpWorld) \<Rightarrow>
   (('c, 'j, 'xn, 'cl, 'se, 'el, 'xe, 's, 'xc, 'w) cpWorld \<Rightarrow> ('c, 'j, 'xn, 'cl, 'se, 'el, 'xe, 's, 'xc, 'w) cpWorld) \<Rightarrow>
   ('x \<Rightarrow> 'x) \<Rightarrow> 'x \<Rightarrow> ('xn, 'xe, 'xc, 'w) shared \<Rightarrow>
   exit \<times> 'x \<times> ('c, 'j, 'xn, 'cl, 'se, 'el, 'xe, 's, 'xc, 'w) cpWorld option" where
  "main T P env host now serve shutdown traced x s =
     (let c = FromEnv env host in
      case Validate c of
        Some e \<Rightarrow> (Fatal e, x, None)
      | None \<Rightarrow>
          (case Setup T (OTELServiceName c) (OTELExporterOTLPEndpoint c) x of
             (Inl e, x1) \<Rightarrow> (Fatal e, x1, None)
           | (Inr sh, x1) \<Rightarrow>
               (case Run (wire P) serve shutdown (New c [''natsbus'', ''etcdcoord'', ''cassstore''] now)
                       (newModules c (shNats s) (shEtcd s) (shCass s) (shDb s)) of
                  (Some e, a, w) \<Rightarrow> (Fatal e, traced x1, Some w)
                | (None, a, w) \<Rightarrow> (Returned, shutdownOtel T sh (traced x1), Some w))))"

section \<open>What is left open\<close>

text \<open>The documented behaviour: \<open>otlptracegrpc.New\<close> opens one exporter or fails, the other calls open and close
  none, and a provider's \<open>Shutdown\<close> shuts down the exporter of its batcher, also when it reports an error.\<close>

definition otel_ok :: "('x, 'ex, 'rs, 'tp) otel_lib \<Rightarrow> ('x \<Rightarrow> 'ex set) \<Rightarrow> ('tp \<Rightarrow> 'ex) \<Rightarrow> bool" where
  "otel_ok T opn feeds \<longleftrightarrow>
     (\<forall>x. opn (SetTextMapPropagator T x) = opn x) \<and>
     (\<forall>os x. case otlptracegrpc_New T os x of (Inl _, x') \<Rightarrow> opn x' = opn x | (Inr ex, x') \<Rightarrow> ex \<notin> opn x \<and> opn x' = insert ex (opn x)) \<and>
     (\<forall>as x. opn (snd (resource_New T as x)) = opn x) \<and>
     (\<forall>res ex d x tp x'. NewTracerProvider T [WithResource res, WithBatcher ex d] x = (tp, x') \<longrightarrow> feeds tp = ex \<and> opn x' = opn x) \<and>
     (\<forall>tp x. opn (SetTracerProvider T tp x) = opn x) \<and>
     (\<forall>tp x. opn (snd (tp_Shutdown T tp x)) = opn x - {feeds tp})"

lemma Setup_opn:
  assumes ok: "otel_ok T opn feeds" and st: "Setup T name ep x = (r, x')"
  shows "case r of
      Inl _ \<Rightarrow> ep \<noteq> [] \<and> opn x \<subseteq> opn x'
    | Inr None \<Rightarrow> ep = [] \<and> opn x' = opn x
    | Inr (Some tp) \<Rightarrow> ep \<noteq> [] \<and> feeds tp \<notin> opn x \<and> opn x' = insert (feeds tp) (opn x)"
proof (cases "ep = []")
  case True
  with st ok show ?thesis by (auto simp: Setup_def otel_ok_def)
next
  case False
  obtain r1 x1 where n: "otlptracegrpc_New T [WithEndpoint ep, WithInsecure] (SetTextMapPropagator T x) = (r1, x1)" by fastforce
  have p: "opn (SetTextMapPropagator T x) = opn x" using ok by (simp add: otel_ok_def)
  have new: "case otlptracegrpc_New T os y of (Inl _, y') \<Rightarrow> opn y' = opn y | (Inr ex, y') \<Rightarrow> ex \<notin> opn y \<and> opn y' = insert ex (opn y)"
    for os :: "otlpOption list" and y using ok by (simp add: otel_ok_def)
  have o1: "case r1 of Inl _ \<Rightarrow> opn x1 = opn x | Inr ex \<Rightarrow> ex \<notin> opn x \<and> opn x1 = insert ex (opn x)"
    using new[where os = "[WithEndpoint ep, WithInsecure]" and y = "SetTextMapPropagator T x"] n p by (cases r1) simp_all
  show ?thesis
  proof (cases r1)
    case (Inl e)
    with st False n o1 show ?thesis by (auto simp: Setup_def)
  next
    case (Inr ex)
    obtain r2 x2 where q: "resource_New T [(''service.name'', name)] x1 = (r2, x2)" by fastforce
    have "opn (snd (resource_New T as y)) = opn y" for as :: "(string \<times> string) list" and y using ok by (simp add: otel_ok_def)
    from this[where as = "[(''service.name'', name)]" and y = x1] q have o2: "opn x2 = opn x1" by simp
    show ?thesis
    proof (cases r2)
      case (Inl e)
      with st False n Inr q o1 o2 show ?thesis by (auto simp: Setup_def)
    next
      case res: (Inr res)
      obtain tp x3 where t: "NewTracerProvider T [WithResource res, WithBatcher ex second] x2 = (tp, x3)" by fastforce
      have "feeds tp = ex" "opn x3 = opn x2" "opn (SetTracerProvider T tp x3) = opn x3" using ok t by (auto simp: otel_ok_def)
      with st False n Inr q res t o1 o2 show ?thesis by (auto simp: Setup_def)
    qed
  qed
qed


section \<open>Two runs\<close>

text \<open>A telemetry library in memory: the open exporters.\<close>

definition mem_otel :: "(nat list, nat, unit, nat) otel_lib" where
  "mem_otel = \<lparr>SetTextMapPropagator = (\<lambda>x. x), otlptracegrpc_New = (\<lambda>_ x. let n = Suc (foldr max x 0) in (Inr n, n # x)),
     resource_New = (\<lambda>_ x. (Inr (), x)),
     NewTracerProvider = (\<lambda>os x. (case os of [_, WithBatcher ex _] \<Rightarrow> ex | _ \<Rightarrow> 0, x)), SetTracerProvider = (\<lambda>_ x. x),
     tp_Shutdown = (\<lambda>tp x. (Inr (), filter (\<lambda>k. k \<noteq> tp) x))\<rparr>"

lemma mem_otel_ok: "otel_ok mem_otel set (\<lambda>tp. tp)"
  by (auto simp: otel_ok_def mem_otel_def Let_def foldr_max_fresh)

definition otelEnv :: "string \<Rightarrow> string" where
  "otelEnv k = (if k = ''OTEL_EXPORTER_OTLP_ENDPOINT'' then ''collector:4317'' else [])"

definition outside0 :: "bool \<Rightarrow> (memNats, memEtcd, memCass, mem) shared" where
  "outside0 down = \<lparr>shNats = \<lparr>mnDown = down, mnOpen = [], mnStreams = [], mnLog = []\<rparr>, shEtcd = \<lparr>meDown = False, meOpen = []\<rparr>,
     shCass = \<lparr>mcFail = None, mcOpen = [], mcMade = []\<rparr>, shDb = mem_empty (5 * second)\<rparr>"

definition main0 :: "bool \<Rightarrow> exit \<times> nat list \<times> memWorld option" where
  "main0 down = main mem_otel memPlane otelEnv (Inr ''node'') 0 (\<lambda>a w. (None, a, w)) (\<lambda>w. w) (\<lambda>x. x) [] (outside0 down)"


end
