(* ===== verification/Spec2Isabelle.thy ===== *)
theory Spec2Isabelle
  imports Cass_Lifecycle Outbox_Ledger Client_Addr Json_Request Command
begin

text \<open>
  Verification of the Shiro control plane, a Go service that accepts events over HTTP, stores them in
  Cassandra, publishes them through NATS JetStream and elects a leader through etcd.

  \<^bold>\<open>The program.\<close> \<^verbatim>\<open>cmd/controlplane/main.go\<close> reads the configuration, sets up telemetry, builds
  the three modules and runs the core. The core (\<^verbatim>\<open>internal/core/app.go\<close>) starts the modules, serves
  HTTP through a chain of middleware, and runs two loops: the relay publishes outbox events that are not published yet (on the
  leader), and the cleanup removes old rows. A \<^verbatim>\<open>POST /events\<close> appends the event to the store with its outbox row, publishes it
  on the bus with retries, and marks the row published; when publishing fails, the failure is recorded and
  the relay tries again later, up to the point where the event is set aside as a dead letter. Calls to the bus, to the
  store and to the readiness probes go through circuit breakers.

  \<^bold>\<open>Theories and sources.\<close> Paths are under \<^verbatim>\<open>src/\<close>. Definitions keep the names of the functions they
  translate; a Go method \<open>f\<close> of a module becomes \<open>natsF\<close>, \<open>etcdF\<close> or \<open>cassF\<close> where several modules have it.

  \<^item> \<open>Shiro_Prelude\<close>: times and durations (nanoseconds), 64-bit wrap-around \<open>i64\<close>, errors, calls that may fail.
  \<^item> \<open>Go_Strings\<close>, \<open>Go_Json\<close>, \<open>Go_Netip\<close>: what the sources use of Go's standard library; strings are
    lists of bytes.
  \<^item> \<open>Config_Env\<close>: \<^verbatim>\<open>internal/config/config.go\<close>, the whole file, over an environment given as a function.
  \<^item> \<open>Tls_Config\<close>: \<^verbatim>\<open>internal/security/tls.go\<close>.
  \<^item> \<open>Contracts\<close>: the records and interfaces of \<^verbatim>\<open>internal/modules/contracts.go\<close>; an interface is a record
    of operations.
  \<^item> \<open>Nats_Bus\<close>: \<^verbatim>\<open>internal/modules/natsbus/module.go\<close>.
  \<^item> \<open>Etcd_Coord\<close>: \<^verbatim>\<open>internal/modules/etcdcoord/module.go\<close>; its two goroutines are a step function over the
    fields they share.
  \<^item> \<open>Cql\<close>, \<open>Cassstore\<close>, \<open>Cass_Session\<close>: \<^verbatim>\<open>internal/modules/cassstore/module.go\<close>: the statements with their
    effect on the tables, the operations, and start, readiness and stop.
  \<^item> \<open>Breaker\<close>, \<open>Limits\<close>, \<open>App_Core\<close>, \<open>App_Http\<close>: \<^verbatim>\<open>internal/core/app.go\<close>: the circuit breaker; rate limiters,
    auth guard and concurrency slots; the state \<open>App\<close>, guarded calls, retries, relay, cleanup and \<open>Run\<close>;
    every middleware, handler and route.
  \<^item> \<open>Control_Plane\<close>: the modules wired into the core (\<open>wire\<close>: the type assertions of \<open>New\<close> and the module list of
    \<open>main\<close>).
  \<^item> \<open>Command\<close>: \<^verbatim>\<open>internal/telemetry/otel.go\<close> and \<^verbatim>\<open>cmd/controlplane/main.go\<close>.

  State is passed explicitly: \<open>'l App\<close> is the struct \<open>App\<close>, the records \<open>natsModule\<close>, \<open>etcdModule\<close> and
  \<open>cassModule\<close> are the modules' structs, and a world of a type variable stands for what is outside the process. A Go error is
  the left side of a sum. A request is served by \<open>rootHandler\<close>, from a fresh response writer \<open>newRW\<close> to the
  response, the next \<open>App\<close> and the next world; a tick of the loops of \<open>Run\<close> is \<open>relayTick\<close> or \<open>cleanupTick\<close>.

  \<^bold>\<open>What the lemmas show.\<close>

  \<^item> \<open>Breaker\<close>, \<open>Limits\<close>, \<open>Config_Env\<close>, \<open>Tls_Config\<close>, \<open>Nats_Bus\<close>, \<open>Etcd_Coord\<close>, \<open>Cass_Session\<close>: the behaviour of
    each component on its own, on the branches of its operations.
  \<^item> \<open>Cass_Invariant\<close>, \<open>Cass_Refine\<close>, \<open>Cass_Properties\<close>, \<open>Cass_Lifecycle\<close>: the consistency of the tables
    (\<open>store_inv\<close>), the transactions that keep it (\<open>tx_on\<close>, indexed by what they do), the refinement of every
    operation to its transactions on every branch, failed statements included, and from there exactly-once appending, leases,
    backoff, quarantine, replay, cleanup.
  \<^item> \<open>Outbox_Ledger\<close>: the tables implement a ledger of events, keys, consumed messages and dead letters. Each
    operation moves it only by its own acts.
  \<^item> \<open>Outbox_Contract\<close>, \<open>Http_Outbox\<close>, \<open>Http_Truth\<close>: locales with what the core relies on, and what it guarantees
    under them: nothing is called published that the broker did not acknowledge, and a reported success is true.
    \<open>Cass_Contract\<close> and \<open>Control_Plane\<close> discharge the contract for the wired modules.
  \<^item> \<open>Fleet\<close>: any number of replicas against one broker and one database, and the outbox is safe at every moment.
  \<^item> \<open>Module_Lifecycle\<close>, \<open>Run_Lifecycle\<close>, \<open>Command\<close>: failed starts leave nothing open, \<open>Run\<close> closes what it
    opened, and \<open>main\<close> ends with the exit code that fits.
  \<^item> \<open>Http_Access\<close>, \<open>App_Publish\<close>, \<open>Json_Request\<close>, \<open>Client_Addr\<close>: access control, headers and slots; validation and
    the retry schedule; the round trip of a request through JSON; the identity of a client.

  \<^bold>\<open>What is assumed of other code.\<close> Third-party libraries are parameters, and each hypothesis on them is a named
  definition that states documented behaviour: \<open>cql_ok\<close> (a statement or a logged batch takes effect as a whole or, when it reports a failure,
  perhaps not at all; conditional inserts; time-based identifiers are fresh), \<open>nats_ok\<close>, \<open>etcd_ok\<close>, \<open>cass_ok\<close> and
  \<open>otel_ok\<close> (what connecting, publishing and closing do), \<open>plane_ok\<close> and \<open>pages_ok\<close> (these together, and that
  metrics do not touch the tables). Token buckets (\<open>rate_lib\<close>) and the order of iteration over a map are
  arbitrary. Each hypothesis is met by an executable instance in memory (\<open>Cql_Memory\<close>, \<open>Nats_Bus\<close>, \<open>Etcd_Coord\<close>,
  \<open>Cass_Session\<close>, \<open>memPlane\<close>, \<open>Command\<close>), on which the witnesses run, and each locale is interpreted on the model's definitions over it.

  \<^bold>\<open>Bounds and termination.\<close> No definition has fuel. The retry loops recurse on the number of attempts left, which the code
  bounds in the same way; the limiter, the relay and the stream recurse on lists; the exponential
  backoff stops at its maximum; the JSON parser terminates on the length of its input, with the
  nesting limit of 10000 of \<^verbatim>\<open>encoding/json\<close>, and \<open>Json_Request\<close> shows that its tests on the length never fail. Integers
  wrap at 64 bits where the code multiplies or adds durations. No property bounds the size of the tables, the
  number of replicas or the number of steps.

  \<^bold>\<open>Not modelled.\<close>

  \<^item> Logging, spans, and the values of metrics other than the counters that the code reads or returns: they do not
    influence anything else.
  \<^item> The bytes of responses: a body is kept as the JSON value or the message that is written. \<^verbatim>\<open>%q\<close>, URL
    escaping and the text of error messages depend on Unicode tables or on libraries; they are parameters, and the theorems hold for
    any of them.
  \<^item> SHA-256 of the payload: any function; the code stores the hash with the idempotency key and never compares it.
  \<^item> The parsing of HTTP and TLS handshakes; a time-out is a choice of the environment.
  \<^item> The scheduling of goroutines within one process, with two exceptions: the coordinator's goroutines take single steps on
    their shared fields, and the store's transactions interleave in any order. Apart from this, a request or a tick is one step of its
    replica, and replicas interleave by such steps.
\<close>

end
